(* ===== verification/Prelude.thy ===== *)
theory Prelude
  imports Main "HOL-Library.Word" "HOL-Library.Char_ord" "HOL-Library.List_Lexorder"
    "HOL-Library.Sublist" "HOL-Library.Code_Target_Nat"
begin

text \<open>
  What every component shares: the machine integers and byte strings of the Rust code, the
  pieces of the Rust standard library the code calls (string trimming and prefixes, \<open>BTreeMap\<close>,
  \<open>sort\<close> with \<open>dedup\<close>, checked and saturating addition), the combinators for \<open>Result\<close> and for
  fallible stateful operations, and the fact collections the component proofs use.
\<close>

named_theorems result_simps \<open>unfolding of the Result combinators\<close>
named_theorems act_simps \<open>unfolding of the combinators for fallible stateful operations\<close>
named_theorems btree_simps \<open>what a BTreeMap lookup returns after an update\<close>
named_theorems keeps_ok \<open>an operation keeps a component's invariant\<close>

section \<open>Machine integers\<close>

type_synonym byte = "8 word"
type_synonym u16 = "16 word"
type_synonym u32 = "32 word"
type_synonym u64 = "64 word"
type_synonym bytes = "byte list"

definition checked_add_u64 :: "u64 \<Rightarrow> u64 \<Rightarrow> u64 option" where
  "checked_add_u64 a b = (if unat a + unat b < 2 ^ 64 then Some (a + b) else None)"

definition saturating_add_u64 :: "u64 \<Rightarrow> u64 \<Rightarrow> u64" where
  "saturating_add_u64 a b = (if unat a + unat b < 2 ^ 64 then a + b else - 1)"

definition saturating_sub_u64 :: "u64 \<Rightarrow> u64 \<Rightarrow> u64" where
  "saturating_sub_u64 a b = (if b \<le> a then a - b else 0)"

lemma unat_add_u64_no_wrap:
  "unat (a :: u64) + unat b < 2 ^ 64 \<Longrightarrow> unat (a + b) = unat a + unat b"
  by (simp add: unat_word_ariths)

lemma checked_add_u64_Some:
  "checked_add_u64 a b = Some c \<Longrightarrow> unat c = unat a + unat b"
  by (auto simp: checked_add_u64_def unat_add_u64_no_wrap split: if_splits)

lemma unat_max_u64: "unat (- 1 :: u64) = 2 ^ 64 - 1"
  by (simp add: unsigned_minus_1_eq_mask mask_eq_exp_minus_1)

lemma unat_u64_lt: "unat (a :: u64) < 2 ^ 64"
  using unsigned_less [of a] by simp

text \<open>The test for overflow on words, which is also how the two additions are evaluated.\<close>

lemma no_wrap_u64: "unat a + unat b < 2 ^ 64 \<longleftrightarrow> a \<le> a + (b :: u64)"
proof -
  have "unat a + unat b < 2 ^ 64 \<longleftrightarrow> int (unat a + unat b) < 2 ^ 64"
    by (metis of_nat_less_iff of_nat_numeral of_nat_power)
  then show ?thesis
    by (simp add: no_plus_overflow_uint_size word_size)
qed

lemma checked_add_u64_code [code]:
  "checked_add_u64 a b = (let c = a + b in if a \<le> c then Some c else None)"
  unfolding checked_add_u64_def no_wrap_u64 Let_def by (rule refl)

lemma saturating_add_u64_code [code]:
  "saturating_add_u64 a b = (let c = a + b in if a \<le> c then c else - 1)"
  unfolding saturating_add_u64_def no_wrap_u64 Let_def by (rule refl)

lemma saturating_add_u64_ge: "a \<le> saturating_add_u64 a b"
proof (cases "unat a + unat b < 2 ^ 64")
  case True
  then show ?thesis
    by (simp add: saturating_add_u64_def word_le_nat_alt unat_add_u64_no_wrap)
next
  case False
  then show ?thesis
    using unat_u64_lt [of a] by (simp add: saturating_add_u64_def word_le_nat_alt unat_max_u64)
qed

lemma saturating_add_u64_min:
  "unat (saturating_add_u64 a b) = min (unat a + unat b) (2 ^ 64 - 1)"
proof (cases "unat a + unat b < 2 ^ 64")
  case True
  then show ?thesis
    by (simp add: saturating_add_u64_def unat_add_u64_no_wrap min_def)
next
  case False
  then show ?thesis
    using False by (simp add: saturating_add_u64_def min_def unat_max_u64)
qed

lemma saturating_sub_u64_max:
  "unat (saturating_sub_u64 a b) = unat a - unat b"
  by (auto simp: saturating_sub_u64_def unat_sub word_le_nat_alt not_le)

section \<open>Strings: bytes in UTF-8\<close>

text \<open>
  A Rust \<open>String\<close> is its UTF-8 bytes, so \<open>length\<close> is Rust's \<open>len()\<close> and the lexicographic order of
  the character codes is Rust's \<open>Ord\<close>. \<open>trim\<close> removes the code points with the property
  White_Space, which are recognised by their encodings of one, two or three bytes.
\<close>

definition ws1 :: "char \<Rightarrow> bool" where
  "ws1 a \<longleftrightarrow> of_char a = (32 :: nat) \<or> ((9 :: nat) \<le> of_char a \<and> of_char a \<le> (13 :: nat))"

definition ws2 :: "char \<Rightarrow> char \<Rightarrow> bool" where
  "ws2 a b \<longleftrightarrow> a = CHR 0xC2 \<and> (b = CHR 0x85 \<or> b = CHR 0xA0)"

definition ws3 :: "char \<Rightarrow> char \<Rightarrow> char \<Rightarrow> bool" where
  "ws3 a b c \<longleftrightarrow>
     (a = CHR 0xE1 \<and> b = CHR 0x9A \<and> c = CHR 0x80) \<or>
     (a = CHR 0xE2 \<and> b = CHR 0x80 \<and>
        ((128 :: nat) \<le> of_char c \<and> of_char c \<le> (138 :: nat) \<or>
         c = CHR 0xA8 \<or> c = CHR 0xA9 \<or> c = CHR 0xAF)) \<or>
     (a = CHR 0xE2 \<and> b = CHR 0x81 \<and> c = CHR 0x9F) \<or>
     (a = CHR 0xE3 \<and> b = CHR 0x80 \<and> c = CHR 0x80)"

fun trim_start :: "string \<Rightarrow> string" where
  "trim_start (a # b # c # s) =
     (if ws1 a then trim_start (b # c # s)
      else if ws2 a b then trim_start (c # s)
      else if ws3 a b c then trim_start s
      else a # b # c # s)"
| "trim_start [a, b] = (if ws1 a then trim_start [b] else if ws2 a b then [] else [a, b])"
| "trim_start [a] = (if ws1 a then [] else [a])"
| "trim_start [] = []"

fun trim_start_rev :: "string \<Rightarrow> string" where
  "trim_start_rev (a # b # c # s) =
     (if ws1 a then trim_start_rev (b # c # s)
      else if ws2 b a then trim_start_rev (c # s)
      else if ws3 c b a then trim_start_rev s
      else a # b # c # s)"
| "trim_start_rev [a, b] =
     (if ws1 a then trim_start_rev [b] else if ws2 b a then [] else [a, b])"
| "trim_start_rev [a] = (if ws1 a then [] else [a])"
| "trim_start_rev [] = []"

definition trim_end :: "string \<Rightarrow> string" where
  "trim_end s = rev (trim_start_rev (rev s))"

definition trim :: "string \<Rightarrow> string" where
  "trim s = trim_end (trim_start s)"

definition starts_with :: "string \<Rightarrow> string \<Rightarrow> bool" where
  "starts_with s p = prefix p s"

definition strip_prefix :: "string \<Rightarrow> string \<Rightarrow> string option" where
  "strip_prefix s p = (if prefix p s then Some (drop (length p) s) else None)"

definition strip_suffix_char :: "string \<Rightarrow> char \<Rightarrow> string option" where
  "strip_suffix_char s c = (if s \<noteq> [] \<and> last s = c then Some (butlast s) else None)"

text \<open>\<open>split(c)\<close> always yields at least one piece; \<open>split_once\<close> cuts at the first \<open>c\<close>.\<close>

fun split_on :: "char \<Rightarrow> string \<Rightarrow> string list" where
  "split_on c [] = [[]]"
| "split_on c (x # s) =
     (if x = c then [] # split_on c s
      else case split_on c s of [] \<Rightarrow> [[x]] | w # ws \<Rightarrow> (x # w) # ws)"

fun split_once :: "char \<Rightarrow> string \<Rightarrow> (string \<times> string) option" where
  "split_once c [] = None"
| "split_once c (x # s) =
     (if x = c then Some ([], s) else map_option (\<lambda>(a, b). (x # a, b)) (split_once c s))"

definition lower_char :: "char \<Rightarrow> char" where
  "lower_char c = (if (65 :: nat) \<le> of_char c \<and> of_char c \<le> (90 :: nat)
                   then char_of (of_char c + (32 :: nat)) else c)"

definition to_ascii_lower :: "string \<Rightarrow> string" where
  "to_ascii_lower = map lower_char"

lemma split_once_Some:
  "split_once c s = Some (a, b) \<Longrightarrow> s = a @ c # b \<and> c \<notin> set a"
  by (induction s arbitrary: a) (auto split: if_splits)

lemma split_once_append: "c \<notin> set a \<Longrightarrow> split_once c (a @ c # b) = Some (a, b)"
  by (induction a) auto

lemma strip_prefix_Some: "strip_prefix s p = Some t \<longleftrightarrow> s = p @ t"
  by (auto simp: strip_prefix_def prefix_def)

lemma strip_suffix_char_Some: "strip_suffix_char s c = Some t \<longleftrightarrow> s = t @ [c]"
  by (cases s rule: rev_cases) (auto simp: strip_suffix_char_def)

lemma starts_with_append [simp]: "starts_with (p @ s) p"
  by (simp add: starts_with_def)

lemma starts_with_Nil [simp]: "starts_with s []"
  by (simp add: starts_with_def)

lemma starts_with_trans: "starts_with s q \<Longrightarrow> starts_with q p \<Longrightarrow> starts_with s p"
  unfolding starts_with_def by (rule prefix_order.trans)

text \<open>A string whose first and last bytes are neither white space nor continuation bytes.\<close>

definition plain_char :: "char \<Rightarrow> bool" where
  "plain_char c \<longleftrightarrow> (33 :: nat) \<le> of_char c \<and> of_char c \<le> (126 :: nat)"

lemma plain_char_not_ws:
  assumes "plain_char a"
  shows "\<not> ws1 a" "\<not> ws2 a b" "\<not> ws2 b a" "\<not> ws3 a b c" "\<not> ws3 b c a"
  using assms by (auto simp: plain_char_def ws1_def ws2_def ws3_def)

lemma trim_start_plain: "s = [] \<or> plain_char (hd s) \<Longrightarrow> trim_start s = s"
  by (cases s rule: trim_start.cases) (auto simp: plain_char_not_ws)

lemma trim_start_rev_plain: "s = [] \<or> plain_char (hd s) \<Longrightarrow> trim_start_rev s = s"
  by (cases s rule: trim_start_rev.cases) (auto simp: plain_char_not_ws)

lemma trim_plain:
  assumes "\<And>c. c \<in> set s \<Longrightarrow> plain_char c"
  shows "trim s = s"
proof (cases "s = []")
  case True
  then show ?thesis by (simp add: trim_def trim_end_def)
next
  case False
  with assms have "plain_char (hd s)" "plain_char (hd (rev s))"
    by (simp_all add: hd_rev)
  with False show ?thesis
    by (simp add: trim_def trim_end_def trim_start_plain trim_start_rev_plain)
qed

section \<open>Result\<close>

text \<open>
  \<open>Result<T, E>\<close> is \<open>'e + 'a\<close>. \<open>and_then\<close> is the \<open>?\<close> operator: the rest of the function runs on the
  value, an error returns at once.
\<close>

definition and_then :: "'e + 'a \<Rightarrow> ('a \<Rightarrow> 'e + 'b) \<Rightarrow> 'e + 'b" where
  [result_simps]: "and_then r f = (case r of Inl e \<Rightarrow> Inl e | Inr x \<Rightarrow> f x)"

definition map_err :: "('e \<Rightarrow> 'f) \<Rightarrow> 'e + 'a \<Rightarrow> 'f + 'a" where
  [result_simps]: "map_err g r = (case r of Inl e \<Rightarrow> Inl (g e) | Inr x \<Rightarrow> Inr x)"

definition ok_or :: "'a option \<Rightarrow> 'e \<Rightarrow> 'e + 'a" where
  [result_simps]: "ok_or m e = (case m of None \<Rightarrow> Inl e | Some x \<Rightarrow> Inr x)"

definition ensure :: "bool \<Rightarrow> 'e \<Rightarrow> 'e + unit" where
  [result_simps]: "ensure b e = (if b then Inr () else Inl e)"

definition is_ok :: "'e + 'a \<Rightarrow> bool" where
  "is_ok r = (case r of Inl _ \<Rightarrow> False | Inr _ \<Rightarrow> True)"

definition ok :: "'e + 'a \<Rightarrow> 'a option" where
  "ok r = (case r of Inl _ \<Rightarrow> None | Inr x \<Rightarrow> Some x)"

lemma and_then_Inr: "and_then r f = Inr y \<longleftrightarrow> (\<exists>x. r = Inr x \<and> f x = Inr y)"
  by (auto simp: and_then_def split: sum.splits)

lemma ensure_Inr [simp]: "ensure b e = Inr u \<longleftrightarrow> b"
  by (simp add: ensure_def)

lemma ok_or_Inr [simp]: "ok_or m e = Inr x \<longleftrightarrow> m = Some x"
  by (simp add: ok_or_def split: option.splits)

lemma map_err_Inr [simp]: "map_err g r = Inr x \<longleftrightarrow> r = Inr x"
  by (simp add: map_err_def split: sum.splits)

lemma is_ok_Inr [simp]: "is_ok (Inr x)" and is_ok_Inl [simp]: "\<not> is_ok (Inl e)"
  by (simp_all add: is_ok_def)

text \<open>A loop that stops at the first error and collects the values otherwise.\<close>

fun collect_results :: "('a \<Rightarrow> 'e + 'b) \<Rightarrow> 'a list \<Rightarrow> 'e + 'b list" where
  "collect_results f [] = Inr []"
| "collect_results f (x # xs) =
     and_then (f x) (\<lambda>y. and_then (collect_results f xs) (\<lambda>ys. Inr (y # ys)))"

lemma collect_results_Inr:
  "collect_results f xs = Inr ys \<longleftrightarrow> list_all2 (\<lambda>x y. f x = Inr y) xs ys"
  by (induction xs arbitrary: ys) (auto simp: and_then_Inr list_all2_Cons1)

section \<open>Fallible stateful operations\<close>

text \<open>
  An operation on a state \<open>'s\<close> returns a \<open>Result\<close> and the state it leaves, on the error paths too:
  what the code did before it failed stays done.
\<close>

type_synonym ('s, 'e, 'a) act = "'s \<Rightarrow> ('e + 'a) \<times> 's"

definition act_ret :: "'a \<Rightarrow> ('s, 'e, 'a) act" where
  [act_simps]: "act_ret x = (\<lambda>s. (Inr x, s))"

definition act_fail :: "'e \<Rightarrow> ('s, 'e, 'a) act" where
  [act_simps]: "act_fail e = (\<lambda>s. (Inl e, s))"

definition act_lift :: "'e + 'a \<Rightarrow> ('s, 'e, 'a) act" where
  [act_simps]: "act_lift r = (\<lambda>s. (r, s))"

definition act_then :: "('s, 'e, 'a) act \<Rightarrow> ('a \<Rightarrow> ('s, 'e, 'b) act) \<Rightarrow> ('s, 'e, 'b) act" where
  [act_simps]: "act_then m f =
     (\<lambda>s. case m s of (r, s') \<Rightarrow> (case r of Inl e \<Rightarrow> (Inl e, s') | Inr x \<Rightarrow> f x s'))"

lemma act_then_Inr:
  "act_then m f s = (Inr y, s') \<longleftrightarrow> (\<exists>x s1. m s = (Inr x, s1) \<and> f x s1 = (Inr y, s'))"
  by (auto simp: act_then_def split: prod.splits sum.splits)

lemma act_ret_eq [simp]: "act_ret x s = (Inr x, s)"
  by (simp add: act_ret_def)

lemma act_fail_eq [simp]: "act_fail e s = (Inl e, s)"
  by (simp add: act_fail_def)

lemma act_lift_eq [simp]: "act_lift r s = (r, s)"
  by (simp add: act_lift_def)

text \<open>An operation that leaves the state as it found it, whatever it returns.\<close>

definition act_pure :: "('s, 'e, 'a) act \<Rightarrow> bool" where
  "act_pure m \<longleftrightarrow> (\<forall>s. snd (m s) = s)"

lemma act_pure_then: "act_pure m \<Longrightarrow> (\<And>x. act_pure (f x)) \<Longrightarrow> act_pure (act_then m f)"
  by (auto simp: act_pure_def act_then_def split: prod.splits sum.splits) (metis snd_conv)+

lemma act_pure_base [simp]: "act_pure (act_ret x)" "act_pure (act_fail e)" "act_pure (act_lift r)"
  by (simp_all add: act_pure_def)

section \<open>Sorted, deduplicated lists\<close>

text \<open>\<open>v.sort(); v.dedup();\<close> as the code uses it on vectors of strings and of node ids.\<close>

definition sort_dedup :: "'a :: linorder list \<Rightarrow> 'a list" where
  "sort_dedup xs = remdups_adj (sort xs)"

lemma set_sort_dedup [simp]: "set (sort_dedup xs) = set xs"
  by (simp add: sort_dedup_def)

lemma sorted_sort_dedup [simp]: "sorted (sort_dedup xs)"
  by (simp add: sort_dedup_def sorted_remdups_adj)

lemma distinct_remdups_adj_sorted: "sorted xs \<Longrightarrow> distinct (remdups_adj xs)"
  by (induction xs rule: remdups_adj.induct) (auto simp: remdups_adj.simps)

lemma distinct_sort_dedup [simp]: "distinct (sort_dedup xs)"
  by (simp add: sort_dedup_def distinct_remdups_adj_sorted)

lemma sort_dedup_unique:
  assumes "sorted ys" "distinct ys" "set ys = set xs"
  shows "ys = sort_dedup xs"
  using assms by (intro sorted_distinct_set_unique) simp_all

lemma sort_dedup_empty [simp]: "sort_dedup xs = [] \<longleftrightarrow> xs = []"
  by (metis set_empty set_sort_dedup)

lemma sort_dedup_idem [simp]: "sort_dedup (sort_dedup xs) = sort_dedup xs"
  by (rule sym, rule sort_dedup_unique) simp_all

end
