(* ===== verification/BTree.thy ===== *)
theory BTree
  imports Prelude
begin

text \<open>
  \<open>std::collections::BTreeMap\<close>: an association list with strictly increasing keys, so iteration,
  serialization and listing are in key order. The interface \<open>ordered_map\<close> is what the components
  rely on; the list operations provide it.
\<close>

section \<open>The interface\<close>

locale ordered_map =
  fixes ok :: "'m \<Rightarrow> bool"
    and empty :: 'm
    and get :: "'m \<Rightarrow> 'k :: linorder \<Rightarrow> 'v option"
    and ins :: "'k \<Rightarrow> 'v \<Rightarrow> 'm \<Rightarrow> 'm"
    and rem :: "'k \<Rightarrow> 'm \<Rightarrow> 'm"
    and entries :: "'m \<Rightarrow> ('k \<times> 'v) list"
  assumes ok_empty: "ok empty"
    and ok_ins: "ok m \<Longrightarrow> ok (ins k v m)"
    and ok_rem: "ok m \<Longrightarrow> ok (rem k m)"
    and get_empty: "get empty k = None"
    and get_ins: "get (ins k v m) k' = (if k' = k then Some v else get m k')"
    and get_rem: "ok m \<Longrightarrow> get (rem k m) k' = (if k' = k then None else get m k')"
    and entries_get: "ok m \<Longrightarrow> (k, v) \<in> set (entries m) \<longleftrightarrow> get m k = Some v"
    and entries_sorted: "ok m \<Longrightarrow> sorted_wrt (<) (map fst (entries m))"
begin

lemma om_keys: "ok m \<Longrightarrow> k \<in> set (map fst (entries m)) \<longleftrightarrow> get m k \<noteq> None"
  using entries_get by force

lemma om_distinct: "ok m \<Longrightarrow> distinct (map fst (entries m))"
  using entries_sorted strict_sorted_iff by blast

lemma om_length: "ok m \<Longrightarrow> length (entries m) = card {k. get m k \<noteq> None}"
proof -
  assume m: "ok m"
  have "{k. get m k \<noteq> None} = set (map fst (entries m))"
    using om_keys [OF m] by blast
  then show ?thesis
    using distinct_card [OF om_distinct [OF m]] by simp
qed

text \<open>Two maps with the same lookups list the same entries in the same order.\<close>

lemma om_entries_unique:
  assumes m: "ok m" "ok m'" and same: "\<And>k. get m k = get m' k"
  shows "entries m = entries m'"
proof -
  have keys: "set (map fst (entries m)) = set (map fst (entries m'))"
    by (rule set_eqI) (simp only: om_keys [OF m(1)] om_keys [OF m(2)] same)
  have fsts: "map fst (entries m) = map fst (entries m')"
    using keys entries_sorted m by (metis strict_sorted_equal)
  have "entries m ! i = entries m' ! i" if i: "i < length (entries m)" for i
  proof -
    have i': "i < length (entries m')"
      using fsts i by (metis length_map)
    have fst_eq: "fst (entries m ! i) = fst (entries m' ! i)"
      using fsts i i' by (metis nth_map)
    obtain k v where kv: "entries m ! i = (k, v)" by fastforce
    obtain v' where kv': "entries m' ! i = (k, v')"
      using fst_eq kv by (metis fst_conv surj_pair)
    have "get m k = Some v" "get m' k = Some v'"
      using entries_get m kv kv' i i' nth_mem by metis+
    with same kv kv' show ?thesis by simp
  qed
  then show ?thesis
    using fsts by (metis length_map nth_equalityI)
qed

end

section \<open>The list operations\<close>

type_synonym ('k, 'v) btree = "('k \<times> 'v) list"

definition bt_ok :: "('k :: linorder, 'v) btree \<Rightarrow> bool" where
  "bt_ok m = sorted_wrt (<) (map fst m)"

definition bt_empty :: "('k, 'v) btree" where
  "bt_empty = []"

definition bt_get :: "('k, 'v) btree \<Rightarrow> 'k \<Rightarrow> 'v option" where
  "bt_get m k = map_of m k"

fun bt_insert :: "'k :: linorder \<Rightarrow> 'v \<Rightarrow> ('k, 'v) btree \<Rightarrow> ('k, 'v) btree" where
  "bt_insert k v [] = [(k, v)]"
| "bt_insert k v ((k', v') # m) =
     (if k = k' then (k, v) # m
      else if k < k' then (k, v) # (k', v') # m
      else (k', v') # bt_insert k v m)"

definition bt_remove :: "'k \<Rightarrow> ('k, 'v) btree \<Rightarrow> ('k, 'v) btree" where
  "bt_remove k m = filter (\<lambda>e. fst e \<noteq> k) m"

definition bt_keys :: "('k, 'v) btree \<Rightarrow> 'k list" where
  "bt_keys m = map fst m"

definition bt_values :: "('k, 'v) btree \<Rightarrow> 'v list" where
  "bt_values m = map snd m"

text \<open>\<open>get_mut\<close>, \<open>values_mut\<close> and \<open>retain\<close> change values in place or drop entries.\<close>

definition bt_modify :: "'k \<Rightarrow> ('v \<Rightarrow> 'v) \<Rightarrow> ('k, 'v) btree \<Rightarrow> ('k, 'v) btree" where
  "bt_modify k f m = map (\<lambda>(k', v). (k', if k' = k then f v else v)) m"

definition bt_map_values :: "('v \<Rightarrow> 'w) \<Rightarrow> ('k, 'v) btree \<Rightarrow> ('k, 'w) btree" where
  "bt_map_values f m = map (\<lambda>(k, v). (k, f v)) m"

definition bt_retain :: "('k \<Rightarrow> 'v \<Rightarrow> bool) \<Rightarrow> ('k, 'v) btree \<Rightarrow> ('k, 'v) btree" where
  "bt_retain p m = filter (\<lambda>(k, v). p k v) m"

lemma bt_ok_Nil [simp]: "bt_ok []"
  by (simp add: bt_ok_def)

lemma bt_ok_Cons: "bt_ok (e # m) \<longleftrightarrow> (\<forall>x \<in> set m. fst e < fst x) \<and> bt_ok m"
  by (auto simp: bt_ok_def)

lemma bt_ok_filter: "bt_ok m \<Longrightarrow> bt_ok (filter p m)"
  by (induction m) (auto simp: bt_ok_Cons)

lemma bt_get_filter_key: "bt_get (filter (\<lambda>e. p (fst e)) m) k = (if p k then bt_get m k else None)"
  by (induction m) (auto simp: bt_get_def)

lemma bt_insert_keys: "fst ` set (bt_insert k v m) = insert k (fst ` set m)"
  by (induction m rule: bt_insert.induct) auto

lemma bt_ok_insert [keeps_ok]: "bt_ok m \<Longrightarrow> bt_ok (bt_insert k v m)"
proof (induction k v m rule: bt_insert.induct)
  case (1 k v)
  then show ?case by (simp add: bt_ok_Cons)
next
  case (2 k v k' v' m)
  have "\<forall>x \<in> set (bt_insert k v m). k' < fst x" if "k \<noteq> k'" "\<not> k < k'"
  proof
    fix x
    assume "x \<in> set (bt_insert k v m)"
    then have "fst x \<in> insert k (fst ` set m)"
      using bt_insert_keys [of k v m] by (metis image_eqI)
    then show "k' < fst x"
      using 2(2) that by (auto simp: bt_ok_Cons)
  qed
  with 2 show ?case by (auto simp: bt_ok_Cons)
qed

lemma bt_ok_remove [keeps_ok]: "bt_ok m \<Longrightarrow> bt_ok (bt_remove k m)"
  by (simp add: bt_remove_def bt_ok_filter)

lemma bt_ok_retain [keeps_ok]: "bt_ok m \<Longrightarrow> bt_ok (bt_retain p m)"
  by (simp add: bt_retain_def bt_ok_filter)

lemma bt_keys_modify [simp]: "map fst (bt_modify k f m) = map fst m"
  by (induction m) (auto simp: bt_modify_def)

lemma bt_keys_map_values [simp]: "map fst (bt_map_values f m) = map fst m"
  by (induction m) (auto simp: bt_map_values_def)

lemma bt_ok_modify [keeps_ok]: "bt_ok m \<Longrightarrow> bt_ok (bt_modify k f m)"
  by (simp add: bt_ok_def)

lemma bt_ok_map_values [keeps_ok]: "bt_ok m \<Longrightarrow> bt_ok (bt_map_values f m)"
  by (simp add: bt_ok_def)

lemma bt_get_Nil [btree_simps]: "bt_get [] k = None"
  by (simp add: bt_get_def)

lemma bt_get_insert [btree_simps]:
  "bt_get (bt_insert k v m) k' = (if k' = k then Some v else bt_get m k')"
  by (induction k v m rule: bt_insert.induct) (auto simp: bt_get_def)

lemma bt_get_remove [btree_simps]:
  "bt_get (bt_remove k m) k' = (if k' = k then None else bt_get m k')"
  using bt_get_filter_key [of "\<lambda>x. x \<noteq> k" m k'] by (auto simp: bt_remove_def)

lemma bt_get_modify [btree_simps]:
  "bt_get (bt_modify k f m) k' = (if k' = k then map_option f (bt_get m k) else bt_get m k')"
  by (induction m) (auto simp: bt_get_def bt_modify_def)

lemma bt_get_map_values [btree_simps]:
  "bt_get (bt_map_values f m) k = map_option f (bt_get m k)"
  by (induction m) (auto simp: bt_get_def bt_map_values_def)

lemma bt_get_retain [btree_simps]:
  "bt_ok m \<Longrightarrow> bt_get (bt_retain p m) k =
     (case bt_get m k of None \<Rightarrow> None | Some v \<Rightarrow> if p k v then Some v else None)"
proof (induction m)
  case Nil
  then show ?case by (simp add: bt_get_def bt_retain_def)
next
  case (Cons e m)
  obtain a b where e: "e = (a, b)" by fastforce
  have "bt_get m a = None"
    using Cons.prems by (auto simp: e bt_ok_Cons bt_get_def map_of_eq_None_iff)
  with Cons e show ?case
    by (auto simp: bt_get_def bt_retain_def bt_ok_Cons split: option.splits)
qed

lemma bt_get_Some_set: "bt_ok m \<Longrightarrow> (k, v) \<in> set m \<longleftrightarrow> bt_get m k = Some v"
  unfolding bt_get_def bt_ok_def strict_sorted_iff by (metis map_of_eq_Some_iff)

interpretation btm: ordered_map bt_ok bt_empty bt_get bt_insert bt_remove "\<lambda>m. m"
  by unfold_locales
    (auto simp: bt_empty_def btree_simps keeps_ok bt_get_Some_set, simp add: bt_ok_def)

lemma bt_eqI: "bt_ok m \<Longrightarrow> bt_ok m' \<Longrightarrow> (\<And>k. bt_get m k = bt_get m' k) \<Longrightarrow> m = m'"
  by (rule btm.om_entries_unique)

lemma bt_keys_get: "bt_ok m \<Longrightarrow> k \<in> set (bt_keys m) \<longleftrightarrow> bt_get m k \<noteq> None"
  using btm.om_keys by (simp add: bt_keys_def)

lemma bt_values_get: "bt_ok m \<Longrightarrow> v \<in> set (bt_values m) \<longleftrightarrow> (\<exists>k. bt_get m k = Some v)"
  by (auto simp: bt_values_def simp flip: bt_get_Some_set) force+

lemma bt_insert_same: "bt_ok m \<Longrightarrow> bt_get m k = Some v \<Longrightarrow> bt_insert k v m = m"
  by (intro bt_eqI) (auto simp: keeps_ok btree_simps)

lemma length_bt_insert:
  "bt_ok m \<Longrightarrow> length (bt_insert k v m) = (if bt_get m k = None then Suc (length m) else length m)"
proof (induction k v m rule: bt_insert.induct)
  case (1 k v)
  then show ?case by (simp add: bt_get_def)
next
  case (2 k v k' v' m)
  have "bt_get m k = None" if "k < k'"
    using 2(2) that by (auto simp: bt_ok_Cons bt_get_def map_of_eq_None_iff)
  with 2 show ?case by (auto simp: bt_ok_Cons bt_get_def)
qed

lemma length_bt_remove_le: "length (bt_remove k m) \<le> length m"
  by (simp add: bt_remove_def)

text \<open>\<open>range(p..).take_while(|k| k.starts_with(p))\<close>: the entries whose key starts with \<open>p\<close>.\<close>

definition bt_range_prefix :: "string \<Rightarrow> (string, 'v) btree \<Rightarrow> (string, 'v) btree" where
  "bt_range_prefix p m =
     takeWhile (\<lambda>e. starts_with (fst e) p) (dropWhile (\<lambda>e. fst e < p) m)"

lemma prefix_ge: "prefix p (s :: string) \<Longrightarrow> p \<le> s"
proof (induction p arbitrary: s)
  case Nil
  then show ?case by simp
next
  case (Cons a p)
  then show ?case by (cases s) auto
qed

lemma prefix_between:
  "prefix p (s :: string) \<Longrightarrow> prefix p u \<Longrightarrow> s \<le> t \<Longrightarrow> t \<le> u \<Longrightarrow> prefix p t"
proof (induction p arbitrary: s t u)
  case Nil
  then show ?case by simp
next
  case (Cons a p)
  obtain s' where s': "s = a # s'" "prefix p s'"
    using Cons.prems(1) by (auto elim: prefixE)
  obtain u' where u': "u = a # u'" "prefix p u'"
    using Cons.prems(2) by (auto elim: prefixE)
  note su = s'(1) u'(1) s'(2) u'(2)
  show ?case
  proof (cases t)
    case Nil
    with su Cons.prems(3) show ?thesis by simp
  next
    case t: (Cons b t')
    have "a < b \<or> a = b \<and> s' \<le> t'" "b < a \<or> b = a \<and> t' \<le> u'"
      using su t Cons.prems(3,4) by simp_all
    then have "b = a"
      using less_asym by blast
    moreover from this have "s' \<le> t'" "t' \<le> u'"
      using su t Cons.prems(3,4) by simp_all
    ultimately show ?thesis
      using Cons.IH [OF su(3,4)] t by simp
  qed
qed

lemma takeWhile_prefix_filter:
  "bt_ok m \<Longrightarrow> (\<And>e. e \<in> set m \<Longrightarrow> p \<le> fst e) \<Longrightarrow>
   takeWhile (\<lambda>e. starts_with (fst e) p) m = filter (\<lambda>e. starts_with (fst e) p) m"
proof (induction m)
  case Nil
  then show ?case by simp
next
  case (Cons e m)
  show ?case
  proof (cases "starts_with (fst e) p")
    case True
    with Cons show ?thesis by (simp add: bt_ok_Cons)
  next
    case False
    have "\<not> starts_with (fst x) p" if "x \<in> set m" for x
    proof
      assume "starts_with (fst x) p"
      then have "prefix p (fst e)"
        using Cons.prems that prefix_between [of p p "fst x" "fst e"]
        by (auto simp: bt_ok_Cons starts_with_def less_imp_le)
      with False show False by (simp add: starts_with_def)
    qed
    with False show ?thesis by (simp add: filter_empty_conv)
  qed
qed

lemma dropWhile_less_filter:
  "bt_ok m \<Longrightarrow> dropWhile (\<lambda>e. fst e < k) m = filter (\<lambda>e. k \<le> fst e) m"
proof (induction m)
  case Nil
  then show ?case by simp
next
  case (Cons e m)
  have "filter (\<lambda>e. k \<le> fst e) m = m" if "\<not> fst e < k"
    using Cons.prems that by (intro filter_True) (auto simp: bt_ok_Cons not_less)
  with Cons show ?case by (auto simp: bt_ok_Cons)
qed

lemma bt_range_prefix_filter:
  assumes "bt_ok m"
  shows "bt_range_prefix p m = filter (\<lambda>e. starts_with (fst e) p) m"
proof -
  have "bt_range_prefix p m =
      filter (\<lambda>e. starts_with (fst e) p) (filter (\<lambda>e. p \<le> fst e) m)"
    unfolding bt_range_prefix_def dropWhile_less_filter [OF assms]
    by (rule takeWhile_prefix_filter) (auto simp: assms bt_ok_filter)
  also have "\<dots> = filter (\<lambda>e. starts_with (fst e) p) m"
    by (auto simp: starts_with_def prefix_ge intro!: filter_cong)
  finally show ?thesis .
qed

end
