(* ===== verification/External.thy ===== *)
theory External
  imports BTree
begin

text \<open>
  The code outside the repository, as parameters. Each crate the program calls is a record of
  functions that the model's definitions take as an argument: \<open>hex\<close> (\<open>hex_lib\<close>), \<open>ce_cap\<close> with
  the identities of \<open>ce_identity\<close> (\<open>cap_lib\<close>). Nothing is assumed of them here; a lemma that needs
  a documented law of such a crate names it as a hypothesis. The data types of \<open>ce_cap\<close> are those
  the program builds with struct literals and takes apart by matching: \<open>Resource\<close>, \<open>Caveats\<close>, and
  the fields it reads of a \<open>Capability\<close>. JSON values are the constructors of \<open>serde_json::Value\<close>
  the program builds and matches.
\<close>

section \<open>Node ids and the hex codec\<close>

type_synonym node_id = bytes

text \<open>\<open>NodeId\<close> is \<open>[u8; 32]\<close>; the length is a side condition here.\<close>

definition node_id_ok :: "node_id \<Rightarrow> bool" where
  "node_id_ok n \<longleftrightarrow> length n = 32"

record hex_lib =
  hx_encode :: "bytes \<Rightarrow> string"
  hx_decode :: "string \<Rightarrow> bytes option"

definition lower_hex_char :: "char \<Rightarrow> bool" where
  "lower_hex_char c \<longleftrightarrow> ((48 :: nat) \<le> of_char c \<and> of_char c \<le> (57 :: nat)) \<or>
     ((97 :: nat) \<le> of_char c \<and> of_char c \<le> (102 :: nat))"

text \<open>
  What the code relies on of a hex codec: two lower case digits per byte, and decoding reads back
  what encoding wrote.
\<close>

locale hex_codec =
  fixes enc :: "bytes \<Rightarrow> string"
    and dec :: "string \<Rightarrow> bytes option"
  assumes dec_enc: "dec (enc b) = Some b"
    and enc_digits: "c \<in> set (enc b) \<Longrightarrow> lower_hex_char c"
    and enc_length: "length (enc b) = 2 * length b"
begin

lemma hc_inj: "enc b = enc b' \<longleftrightarrow> b = b'"
  using dec_enc by (metis option.inject)

lemma hc_trim: "trim (enc b) = enc b"
proof (rule trim_plain)
  fix c
  assume "c \<in> set (enc b)"
  then have "lower_hex_char c" by (rule enc_digits)
  then show "plain_char c" by (auto simp: lower_hex_char_def plain_char_def)
qed

lemma hc_lower: "to_ascii_lower (enc b) = enc b"
  unfolding to_ascii_lower_def
proof (rule map_idI)
  fix c
  assume "c \<in> set (enc b)"
  then have "lower_hex_char c" by (rule enc_digits)
  then show "lower_char c = c" by (auto simp: lower_hex_char_def lower_char_def)
qed

lemma hc_no_char: "\<not> lower_hex_char c \<Longrightarrow> c \<notin> set (enc b)"
  using enc_digits by blast

lemma hc_nonempty: "b \<noteq> [] \<Longrightarrow> enc b \<noteq> []"
  using enc_length [of b] by (cases b) auto

end

section \<open>The capability primitive\<close>

datatype resource = RAny | RNode node_id | RTag string | RAllOf "string list"

record caveats =
  cv_not_before :: u64
  cv_not_after :: u64
  cv_max_cpu :: "u32 option"
  cv_max_mem_mb :: "u32 option"
  cv_max_credits :: "u64 option"
  cv_allowed_ports :: "u16 list option"
  cv_path_prefix :: "string option"

type_synonym cap_id = bytes

record capability =
  cap_issuer :: node_id
  cap_audience :: node_id
  cap_abilities :: "string list"
  cap_resource :: resource
  cap_caveats :: caveats
  cap_nonce :: u64
  cap_parent :: "cap_id option"

text \<open>
  \<open>'i\<close> is \<open>ce_identity::Identity\<close> and \<open>'s\<close> is \<open>ce_cap::SignedCapability\<close>; the program reads only
  the node id of the first, and the body and the id of the second.
\<close>

record ('i, 's) cap_lib =
  lib_node_id :: "'i \<Rightarrow> node_id"
  lib_issue :: "'i \<Rightarrow> node_id \<Rightarrow> string list \<Rightarrow> resource \<Rightarrow> caveats \<Rightarrow> u64 \<Rightarrow> cap_id option \<Rightarrow> 's"
  lib_cap :: "'s \<Rightarrow> capability"
  lib_id :: "'s \<Rightarrow> cap_id"
  lib_res_subset :: "resource \<Rightarrow> resource \<Rightarrow> bool"
  lib_cav_narrower :: "caveats \<Rightarrow> caveats \<Rightarrow> bool"
  lib_encode_chain :: "'s list \<Rightarrow> string"
  lib_decode_chain :: "string \<Rightarrow> string + 's list"
  lib_authorize :: "node_id \<Rightarrow> node_id list \<Rightarrow> string list \<Rightarrow> u64 \<Rightarrow> node_id \<Rightarrow> string \<Rightarrow>
     's list \<Rightarrow> (node_id \<Rightarrow> u64 \<Rightarrow> bool) \<Rightarrow> string + unit"

text \<open>
  \<open>issue\<close> signs a capability whose fields are its arguments and whose issuer is the identity's own
  node id: the documented behaviour of \<open>SignedCapability::issue\<close>, as a named hypothesis.
\<close>

definition issue_law :: "('i, 's) cap_lib \<Rightarrow> bool" where
  "issue_law L \<longleftrightarrow> (\<forall>i aud abil res cav n par.
     lib_cap L (lib_issue L i aud abil res cav n par) =
       \<lparr>cap_issuer = lib_node_id L i, cap_audience = aud, cap_abilities = abil,
        cap_resource = res, cap_caveats = cav, cap_nonce = n, cap_parent = par\<rparr>)"

text \<open>The two narrowing tests are preorders, as a subset test and its kin are.\<close>

definition narrowing_law :: "('i, 's) cap_lib \<Rightarrow> bool" where
  "narrowing_law L \<longleftrightarrow>
     (\<forall>r. lib_res_subset L r r) \<and>
     (\<forall>r s t. lib_res_subset L r s \<longrightarrow> lib_res_subset L s t \<longrightarrow> lib_res_subset L r t) \<and>
     (\<forall>c. lib_cav_narrower L c c) \<and>
     (\<forall>c d e. lib_cav_narrower L c d \<longrightarrow> lib_cav_narrower L d e \<longrightarrow> lib_cav_narrower L c e)"

text \<open>
  \<open>SECURITY.md\<close> lists the six conditions under which \<open>ce_cap::authorize\<close> accepts a chain. What is
  opaque in them (the signature check and the match of a resource with a node) stays a parameter.
\<close>

record 's cap_checks =
  ck_signature :: "'s \<Rightarrow> bool"
  ck_resource :: "resource \<Rightarrow> node_id \<Rightarrow> string list \<Rightarrow> bool"

definition link_live :: "capability \<Rightarrow> u64 \<Rightarrow> (node_id \<Rightarrow> u64 \<Rightarrow> bool) \<Rightarrow> bool" where
  "link_live c now revoked \<longleftrightarrow>
     (cv_not_before (cap_caveats c) = 0 \<or> cv_not_before (cap_caveats c) \<le> now) \<and>
     (cv_not_after (cap_caveats c) = 0 \<or> now \<le> cv_not_after (cap_caveats c)) \<and>
     \<not> revoked (cap_issuer c) (cap_nonce c)"

definition narrows :: "('i, 's) cap_lib \<Rightarrow> capability \<Rightarrow> capability \<Rightarrow> bool" where
  "narrows L c p \<longleftrightarrow>
     set (cap_abilities c) \<subseteq> set (cap_abilities p) \<and>
     lib_res_subset L (cap_resource c) (cap_resource p) \<and>
     lib_cav_narrower L (cap_caveats c) (cap_caveats p)"

definition link_extends :: "('i, 's) cap_lib \<Rightarrow> 's \<Rightarrow> 's \<Rightarrow> bool" where
  "link_extends L p c \<longleftrightarrow>
     cap_issuer (lib_cap L c) = cap_audience (lib_cap L p) \<and>
     cap_parent (lib_cap L c) = Some (lib_id L p) \<and>
     narrows L (lib_cap L c) (lib_cap L p)"

fun chain_linked :: "('i, 's) cap_lib \<Rightarrow> 's list \<Rightarrow> bool" where
  "chain_linked L (p # c # cs) \<longleftrightarrow> link_extends L p c \<and> chain_linked L (c # cs)"
| "chain_linked L [_] \<longleftrightarrow> True"
| "chain_linked L [] \<longleftrightarrow> True"

definition documented_ok ::
  "('i, 's) cap_lib \<Rightarrow> 's cap_checks \<Rightarrow> node_id \<Rightarrow> node_id list \<Rightarrow> string list \<Rightarrow> u64 \<Rightarrow>
   node_id \<Rightarrow> string \<Rightarrow> 's list \<Rightarrow> (node_id \<Rightarrow> u64 \<Rightarrow> bool) \<Rightarrow> bool" where
  "documented_ok L K self roots tags now requester action chain revoked \<longleftrightarrow>
     chain \<noteq> [] \<and>
     cap_issuer (lib_cap L (hd chain)) \<in> insert self (set roots) \<and>
     cap_parent (lib_cap L (hd chain)) = None \<and>
     (\<forall>s \<in> set chain. ck_signature K s \<and> link_live (lib_cap L s) now revoked \<and>
        ck_resource K (cap_resource (lib_cap L s)) self tags) \<and>
     chain_linked L chain \<and>
     cap_audience (lib_cap L (last chain)) = requester \<and>
     action \<in> set (cap_abilities (lib_cap L (last chain)))"

definition authorize_law :: "('i, 's) cap_lib \<Rightarrow> 's cap_checks \<Rightarrow> bool" where
  "authorize_law L K \<longleftrightarrow> (\<forall>self roots tags now requester action chain revoked.
     is_ok (lib_authorize L self roots tags now requester action chain revoked) \<longleftrightarrow>
     documented_ok L K self roots tags now requester action chain revoked)"

lemma narrows_refl: "narrowing_law L \<Longrightarrow> narrows L c c"
  by (simp add: narrowing_law_def narrows_def)

lemma narrows_trans: "narrowing_law L \<Longrightarrow> narrows L c d \<Longrightarrow> narrows L d e \<Longrightarrow> narrows L c e"
  unfolding narrowing_law_def narrows_def by (meson subset_trans)

lemma chain_linked_append:
  "chain_linked L (xs @ [p, c]) \<longleftrightarrow> chain_linked L (xs @ [p]) \<and> link_extends L p c"
  by (induction L xs rule: chain_linked.induct) auto

lemma chain_linked_snoc:
  "xs \<noteq> [] \<Longrightarrow> chain_linked L (xs @ [c]) \<longleftrightarrow> chain_linked L xs \<and> link_extends L (last xs) c"
  by (cases xs rule: rev_cases) (auto simp: chain_linked_append)

text \<open>In a linked chain every link, the leaf in particular, is within every earlier one.\<close>

lemma chain_linked_narrows:
  "narrowing_law L \<Longrightarrow> chain_linked L (x # xs) \<Longrightarrow> y \<in> set (x # xs) \<Longrightarrow>
   narrows L (lib_cap L y) (lib_cap L x)"
proof (induction xs arbitrary: x)
  case Nil
  then show ?case by (simp add: narrows_refl)
next
  case (Cons c xs)
  then have step: "narrows L (lib_cap L c) (lib_cap L x)"
    by (simp add: link_extends_def)
  show ?case
  proof (cases "y = x")
    case True
    with Cons.prems(1) show ?thesis by (simp add: narrows_refl)
  next
    case False
    with Cons have "narrows L (lib_cap L y) (lib_cap L c)" by simp
    with Cons.prems(1) step show ?thesis by (blast intro: narrows_trans)
  qed
qed

section \<open>JSON values\<close>

text \<open>
  Objects are ordered maps (\<open>serde_json\<close> without \<open>preserve_order\<close>). A number is an integer or some
  other numeral, kept as its text: the program only ever asks for integers.
\<close>

datatype json =
    JNull
  | JBool bool
  | JInt int
  | JReal string
  | JStr string
  | JArr "json list"
  | JObj "(string \<times> json) list"

fun json_get :: "json \<Rightarrow> string \<Rightarrow> json option" where
  "json_get (JObj m) k = bt_get m k"
| "json_get _ k = None"

fun as_str :: "json \<Rightarrow> string option" where
  "as_str (JStr s) = Some s"
| "as_str _ = None"

fun as_array :: "json \<Rightarrow> json list option" where
  "as_array (JArr xs) = Some xs"
| "as_array _ = None"

fun as_object :: "json \<Rightarrow> (string, json) btree option" where
  "as_object (JObj m) = Some m"
| "as_object _ = None"

fun as_u64 :: "json \<Rightarrow> u64 option" where
  "as_u64 (JInt i) = (if 0 \<le> i \<and> i < 2 ^ 64 then Some (word_of_int i) else None)"
| "as_u64 _ = None"

fun as_i64 :: "json \<Rightarrow> int option" where
  "as_i64 (JInt i) = (if - (2 ^ 63) \<le> i \<and> i < 2 ^ 63 then Some i else None)"
| "as_i64 _ = None"

text \<open>\<open>v.get(k).and_then(|x| x.as_str())\<close>, and \<open>json!({..})\<close> with the keys in any order.\<close>

definition get_str :: "json \<Rightarrow> string \<Rightarrow> string option" where
  "get_str v k = Option.bind (json_get v k) as_str"

definition json_obj :: "(string \<times> json) list \<Rightarrow> json" where
  "json_obj kvs = JObj (fold (\<lambda>(k, v) m. bt_insert k v m) kvs [])"

definition json_of_u64 :: "u64 \<Rightarrow> json" where
  "json_of_u64 n = JInt (uint n)"

definition opt_str :: "string option \<Rightarrow> json" where
  "opt_str m = (case m of None \<Rightarrow> JNull | Some s \<Rightarrow> JStr s)"

lemma as_u64_json_of_u64 [simp]: "as_u64 (json_of_u64 n) = Some n"
  using unsigned_less [of n, where 'a = int] by (simp add: json_of_u64_def)

lemma json_get_obj_fold:
  "bt_get (fold (\<lambda>(k, v) m. bt_insert k v m) kvs m) k =
     (case map_of (rev kvs) k of None \<Rightarrow> bt_get m k | Some v \<Rightarrow> Some v)"
  by (induction kvs arbitrary: m) (auto simp: btree_simps map_add_def split: option.splits)

lemma json_get_obj: "json_get (json_obj kvs) k = map_of (rev kvs) k"
  by (simp add: json_obj_def json_get_obj_fold btree_simps split: option.splits)

lemma bt_ok_fold_insert: "bt_ok m \<Longrightarrow> bt_ok (fold (\<lambda>(k, v) m. bt_insert k v m) kvs m)"
  by (induction kvs arbitrary: m) (auto simp: keeps_ok)

end
