(* ===== verification/Errors.thy ===== *)
theory Errors
  imports External
begin

text \<open>
  \<open>error.rs\<close>: the typed errors. A message that the code builds with \<open>format!\<close> is a constructor of
  \<open>iam_msg\<close> that carries what the code interpolates; \<open>display_error\<close> is the \<open>Display\<close> impl over a
  rendering of the messages.
\<close>

datatype iam_msg =
    EmptyAction
  | StarEmptyUniverse
  | WildcardNoMatch string
  | NoActions
  | ScopeNoActions
  | GrantsNothing
  | MixedResources
  | MixedConditions
  | NoSuchRole string
  | NonceOverflow
  | NotSingleLink
  | NotRoot
  | NotHolder
  | AbilitiesExceed "string list" "string list"
  | ResourceBroader
  | ConditionsBroader
  | TokenTooLong nat nat
  | EmptyChain
  | ChainTooDeep nat nat
  | Undecodable string
  | NodeNotHex string
  | NodeNot32 string
  | EmptyTag
  | AllOfNoTags
  | UnknownResource string
  | JsonParse string
  | BadVersion string
  | NoStatements
  | EmptyRoleName
  | EmptyPolicyName
  | NoRoleToAttach string
  | MissingAttachedRole string
  | AllowNoActions string
  | CannotKeyScope string
  | OpLogFull
  | OpLogTooLong nat
  | StoreTooBig nat
  | IoError string
  | EmptyLabel
  | LabelTooLong
  | WalletTokenTooLong
  | DuplicateLabel string
  | WalletFull
  | EmptyWindow
  | RootsFull
  | FetchFailed string

datatype iam_error =
    BadPolicy iam_msg
  | BadResource iam_msg
  | BadAction iam_msg
  | DenyUnsupported
  | MalformedChain iam_msg
  | BadPrincipal iam_msg
  | WouldAmplify iam_msg
  | Denied string
  | IdentityError iam_msg
  | NodeError iam_msg

fun display_error :: "(iam_msg \<Rightarrow> string) \<Rightarrow> iam_error \<Rightarrow> string" where
  "display_error f (BadPolicy m) = ''bad policy: '' @ f m"
| "display_error f (BadResource m) = ''bad resource: '' @ f m"
| "display_error f (BadAction m) = ''bad action: '' @ f m"
| "display_error f DenyUnsupported =
     ''Effect::Deny is not expressible as a capability; model deny by not granting the action''"
| "display_error f (MalformedChain m) = ''malformed capability chain: '' @ f m"
| "display_error f (BadPrincipal m) = ''bad principal: '' @ f m"
| "display_error f (WouldAmplify m) = ''attenuation would amplify authority: '' @ f m"
| "display_error f (Denied s) = ''denied: '' @ s"
| "display_error f (IdentityError m) = ''identity error: '' @ f m"
| "display_error f (NodeError m) = ''node error: '' @ f m"

end
