(* ===== verification/Principals.thy ===== *)
theory Principals
  imports Errors
begin

text \<open>
  \<open>principal.rs\<close>: a principal is a node id, written as its 64 lower case hex digits and parsed with
  surrounding white space and either case.
\<close>

datatype principal = Principal (principal_node_id: node_id)

datatype principal_error = NotHex string | Not32Bytes string

definition principal_hex :: "hex_lib \<Rightarrow> principal \<Rightarrow> string" where
  "principal_hex H p = hx_encode H (principal_node_id p)"

definition principal_parse :: "hex_lib \<Rightarrow> string \<Rightarrow> principal_error + principal" where
  "principal_parse H s0 =
     (let s = trim s0 in
      and_then (ok_or (hx_decode H s) (NotHex s)) (\<lambda>bytes.
      and_then (ensure (length bytes = 32) (Not32Bytes s)) (\<lambda>_.
      Inr (Principal bytes))))"

definition principal_display :: "hex_lib \<Rightarrow> principal \<Rightarrow> string" where
  "principal_display H p = principal_hex H p"

definition principal_of_node_id :: "node_id \<Rightarrow> principal" where
  "principal_of_node_id n = Principal n"

definition principal_serialize :: "hex_lib \<Rightarrow> principal \<Rightarrow> json" where
  "principal_serialize H p = JStr (principal_hex H p)"

definition principal_deserialize :: "hex_lib \<Rightarrow> json \<Rightarrow> principal option" where
  "principal_deserialize H v = Option.bind (as_str v) (\<lambda>s. ok (principal_parse H s))"

abbreviation hex_lib_ok :: "hex_lib \<Rightarrow> bool" where
  "hex_lib_ok H \<equiv> hex_codec (hx_encode H) (hx_decode H)"

abbreviation principal_ok :: "principal \<Rightarrow> bool" where
  "principal_ok p \<equiv> node_id_ok (principal_node_id p)"

lemma parse_principal_hex:
  assumes "hex_lib_ok H" "principal_ok p"
  shows "principal_parse H (principal_hex H p) = Inr p"
  using assms hex_codec.hc_trim [OF assms(1)] hex_codec.dec_enc [OF assms(1)]
  by (simp add: principal_parse_def principal_hex_def node_id_ok_def result_simps)

lemma parse_principal_ok: "principal_parse H s = Inr p \<Longrightarrow> principal_ok p"
  by (auto simp: principal_parse_def and_then_Inr Let_def node_id_ok_def)

lemma principal_hex_inj:
  "hex_lib_ok H \<Longrightarrow> principal_hex H p = principal_hex H q \<longleftrightarrow> p = q"
  by (cases p; cases q) (simp add: principal_hex_def hex_codec.hc_inj)

end
