(* ===== verification/Policy.thy ===== *)
theory Policy
  imports Principals
begin

text \<open>
  \<open>policy.rs\<close>: policy documents and roles, and how a resource match and a set of conditions compile
  to the resource and the caveats of a capability.
\<close>

datatype effect = Allow | Deny

datatype resource_match =
    RMAny
  | RMNode string
  | RMTag string
  | RMAllOf "string list"

definition to_cap_resource :: "hex_lib \<Rightarrow> resource_match \<Rightarrow> iam_error + resource" where
  "to_cap_resource H rm =
     (case rm of
        RMAny \<Rightarrow> Inr RAny
      | RMNode h \<Rightarrow>
          and_then (ok_or (hx_decode H (trim h)) (BadResource (NodeNotHex h))) (\<lambda>bytes.
          and_then (ensure (length bytes = 32) (BadResource (NodeNot32 h))) (\<lambda>_.
          Inr (RNode bytes)))
      | RMTag t \<Rightarrow> if t = [] then Inl (BadResource EmptyTag) else Inr (RTag t)
      | RMAllOf ts \<Rightarrow> if ts = [] then Inl (BadResource AllOfNoTags) else Inr (RAllOf ts))"

definition resource_parse :: "hex_lib \<Rightarrow> string \<Rightarrow> iam_error + resource_match" where
  "resource_parse H s0 =
     (let s = trim s0 in
      if s = ''*'' \<or> to_ascii_lower s = ''any'' then Inr RMAny
      else case strip_prefix s ''tag:'' of
        Some t \<Rightarrow> Inr (RMTag (trim t))
      | None \<Rightarrow> (case strip_prefix s ''all-of:'' of
          Some rest \<Rightarrow>
            (let tags = filter (\<lambda>x. x \<noteq> []) (map trim (split_on (CHR '','') rest)) in
             if tags = [] then Inl (BadResource AllOfNoTags) else Inr (RMAllOf tags))
        | None \<Rightarrow>
            and_then (ok_or (hx_decode H s) (BadResource (UnknownResource s))) (\<lambda>bytes.
            and_then (ensure (length bytes = 32) (BadResource (NodeNot32 s))) (\<lambda>_.
            Inr (RMNode (to_ascii_lower s))))))"

record conditions =
  cd_not_before :: "u64 option"
  cd_not_after :: "u64 option"
  cd_max_cpu :: "u32 option"
  cd_max_mem_mb :: "u32 option"
  cd_max_credits :: "u64 option"
  cd_allowed_ports :: "u16 list option"
  cd_path_prefix :: "string option"

definition default_conditions :: conditions where
  "default_conditions = \<lparr>cd_not_before = None, cd_not_after = None, cd_max_cpu = None,
     cd_max_mem_mb = None, cd_max_credits = None, cd_allowed_ports = None, cd_path_prefix = None\<rparr>"

definition unwrap_or :: "'a option \<Rightarrow> 'a \<Rightarrow> 'a" where
  "unwrap_or m d = (case m of None \<Rightarrow> d | Some x \<Rightarrow> x)"

definition to_caveats :: "conditions \<Rightarrow> caveats" where
  "to_caveats c = \<lparr>
     cv_not_before = unwrap_or (cd_not_before c) 0,
     cv_not_after = unwrap_or (cd_not_after c) 0,
     cv_max_cpu = cd_max_cpu c,
     cv_max_mem_mb = cd_max_mem_mb c,
     cv_max_credits = cd_max_credits c,
     cv_allowed_ports = cd_allowed_ports c,
     cv_path_prefix = cd_path_prefix c\<rparr>"

definition conditions_is_empty :: "conditions \<Rightarrow> bool" where
  "conditions_is_empty c \<longleftrightarrow> c = default_conditions"

record statement =
  st_sid :: "string option"
  st_effect :: effect
  st_actions :: "string list"
  st_resource :: resource_match
  st_conditions :: conditions

record policy =
  pol_version :: string
  pol_statements :: "statement list"

definition version_tag :: string where
  "version_tag = ''ce-iam-policy-v1''"

definition policy_allow :: "string list \<Rightarrow> resource_match \<Rightarrow> conditions \<Rightarrow> policy" where
  "policy_allow actions resource conds = \<lparr>
     pol_version = version_tag,
     pol_statements = [\<lparr>st_sid = None, st_effect = Allow, st_actions = actions,
                        st_resource = resource, st_conditions = conds\<rparr>]\<rparr>"

text \<open>\<open>parse\<close> is \<open>serde_json::from_str\<close> at the type of the document.\<close>

definition policy_from_json :: "(string \<Rightarrow> string + policy) \<Rightarrow> string \<Rightarrow> iam_error + policy" where
  "policy_from_json parse s =
     and_then (map_err (\<lambda>e. BadPolicy (JsonParse e)) (parse s)) (\<lambda>p.
     if pol_version p \<noteq> version_tag then Inl (BadPolicy (BadVersion (pol_version p)))
     else if pol_statements p = [] then Inl (BadPolicy NoStatements)
     else Inr p)"

definition policy_to_json :: "(policy \<Rightarrow> string option) \<Rightarrow> policy \<Rightarrow> string" where
  "policy_to_json print p = unwrap_or (print p) []"

record role =
  role_name :: string
  role_description :: "string option"
  role_policy :: policy

definition role_new :: "string \<Rightarrow> policy \<Rightarrow> role" where
  "role_new name p = \<lparr>role_name = name, role_description = None, role_policy = p\<rparr>"

definition role_from_json :: "(string \<Rightarrow> string + role) \<Rightarrow> string \<Rightarrow> iam_error + role" where
  "role_from_json parse s =
     and_then (map_err (\<lambda>e. BadPolicy (JsonParse e)) (parse s)) (\<lambda>r.
     if trim (role_name r) = [] then Inl (BadPolicy EmptyRoleName) else Inr r)"

definition role_to_json :: "(role \<Rightarrow> string option) \<Rightarrow> role \<Rightarrow> string" where
  "role_to_json print r = unwrap_or (print r) []"

end
