(* ===== verification/Grants.thy ===== *)
theory Grants
  imports Policy
begin

text \<open>
  \<open>grant.rs\<close>: the service \<open>Iam\<close>. Wildcards expand against a closed action universe, a policy
  compiles to abilities, a resource and caveats, and the service mints, attenuates, verifies,
  inspects and re-issues capability chains. A function that indexes the last link of a chain
  panics on an empty one: its model returns \<open>None\<close> there.
\<close>

section \<open>The service and its grants\<close>

definition DEFAULT_MAX_TOKEN_BYTES :: nat where
  "DEFAULT_MAX_TOKEN_BYTES = 256 * 1024"

definition DEFAULT_MAX_CHAIN_DEPTH :: nat where
  "DEFAULT_MAX_CHAIN_DEPTH = 64"

record iam =
  iam_universe :: "string list"
  iam_roots :: "node_id list"
  iam_max_token_bytes :: nat
  iam_max_chain_depth :: nat

definition iam_default :: iam where
  "iam_default = \<lparr>iam_universe = [], iam_roots = [],
     iam_max_token_bytes = DEFAULT_MAX_TOKEN_BYTES,
     iam_max_chain_depth = DEFAULT_MAX_CHAIN_DEPTH\<rparr>"

definition iam_new :: iam where
  "iam_new = iam_default"

definition with_action_universe :: "iam \<Rightarrow> string list \<Rightarrow> iam" where
  "with_action_universe i actions = i\<lparr>iam_universe := sort_dedup actions\<rparr>"

definition with_accepted_roots :: "iam \<Rightarrow> node_id list \<Rightarrow> iam" where
  "with_accepted_roots i roots = i\<lparr>iam_roots := sort_dedup (iam_roots i @ roots)\<rparr>"

definition with_max_token_bytes :: "iam \<Rightarrow> nat \<Rightarrow> iam" where
  "with_max_token_bytes i n = i\<lparr>iam_max_token_bytes := n\<rparr>"

definition with_max_chain_depth :: "iam \<Rightarrow> nat \<Rightarrow> iam" where
  "with_max_chain_depth i n = i\<lparr>iam_max_chain_depth := n\<rparr>"

record 's grant =
  gr_chain :: "'s list"
  gr_token :: string

definition grant_from_chain :: "('i, 's) cap_lib \<Rightarrow> 's list \<Rightarrow> 's grant" where
  "grant_from_chain L chain = \<lparr>gr_chain = chain, gr_token = lib_encode_chain L chain\<rparr>"

definition grant_leaf :: "'s grant \<Rightarrow> 's option" where
  "grant_leaf g = (if gr_chain g = [] then None else Some (last (gr_chain g)))"

definition grant_audience :: "('i, 's) cap_lib \<Rightarrow> 's grant \<Rightarrow> principal option" where
  "grant_audience L g = map_option (\<lambda>leaf. Principal (cap_audience (lib_cap L leaf))) (grant_leaf g)"

section \<open>Wildcard expansion\<close>

fun expand_loop :: "string list \<Rightarrow> string list \<Rightarrow> string list \<Rightarrow> iam_error + string list" where
  "expand_loop universe out [] = Inr out"
| "expand_loop universe out (a0 # rest) =
     (let a = trim a0 in
      if a = [] then Inl (BadAction EmptyAction)
      else if a = ''*'' then
        (if universe = [] then Inl (BadAction StarEmptyUniverse)
         else expand_loop universe (out @ universe) rest)
      else case strip_suffix_char a (CHR ''*'') of
        Some p \<Rightarrow>
          (let matched = filter (\<lambda>u. starts_with u p) universe in
           if matched = [] then Inl (BadAction (WildcardNoMatch a))
           else expand_loop universe (out @ matched) rest)
      | None \<Rightarrow> expand_loop universe (out @ [a]) rest)"

definition expand_actions :: "iam \<Rightarrow> string list \<Rightarrow> iam_error + string list" where
  "expand_actions i actions =
     and_then (expand_loop (iam_universe i) [] actions) (\<lambda>out. Inr (sort_dedup out))"

section \<open>Compiling a policy\<close>

fun check_uniform ::
  "resource_match \<Rightarrow> conditions \<Rightarrow> statement list \<Rightarrow> iam_error + unit" where
  "check_uniform r c [] = Inr ()"
| "check_uniform r c (s # rest) =
     (if st_resource s \<noteq> r then Inl (BadPolicy MixedResources)
      else if st_conditions s \<noteq> c then Inl (BadPolicy MixedConditions)
      else check_uniform r c rest)"

definition policy_allows :: "policy \<Rightarrow> statement list" where
  "policy_allows p = filter (\<lambda>s. st_effect s = Allow) (pol_statements p)"

definition policy_denies :: "policy \<Rightarrow> bool" where
  "policy_denies p \<longleftrightarrow> list_ex (\<lambda>s. st_effect s = Deny) (pol_statements p)"

definition compile :: "hex_lib \<Rightarrow> iam \<Rightarrow> policy \<Rightarrow>
    iam_error + (string list \<times> resource \<times> caveats)" where
  "compile H i p =
     (let allows = policy_allows p in
      if policy_denies p then Inl DenyUnsupported
      else case allows of
        [] \<Rightarrow> Inl (BadPolicy GrantsNothing)
      | s # rest \<Rightarrow>
          (let resource = st_resource s; conds = st_conditions s in
           and_then (check_uniform resource conds rest) (\<lambda>_.
           let actions = concat (map st_actions allows) in
           and_then (expand_actions i actions) (\<lambda>abilities.
           if abilities = [] then Inl (BadAction NoActions)
           else and_then (to_cap_resource H resource) (\<lambda>cap_res.
             Inr (abilities, cap_res, to_caveats conds))))))"

text \<open>
  The scopes of a policy: its Allow statements grouped by resource and conditions, in the order of
  the scope's key. \<open>key\<close> is \<open>serde_json::to_string\<close> on the pair.
\<close>

type_synonym scope_key_fn = "resource_match \<Rightarrow> conditions \<Rightarrow> string + string"

type_synonym scope_groups = "(string, resource_match \<times> conditions \<times> string list) btree"

fun group_scopes :: "scope_key_fn \<Rightarrow> scope_groups \<Rightarrow> statement list \<Rightarrow> iam_error + scope_groups" where
  "group_scopes key groups [] = Inr groups"
| "group_scopes key groups (s # rest) =
     and_then (map_err (\<lambda>e. BadPolicy (CannotKeyScope e)) (key (st_resource s) (st_conditions s)))
       (\<lambda>k.
        let (r, c, actions) = unwrap_or (bt_get groups k) (st_resource s, st_conditions s, []) in
        group_scopes key (bt_insert k (r, c, actions @ st_actions s) groups) rest)"

definition compile_group :: "hex_lib \<Rightarrow> iam \<Rightarrow> resource_match \<times> conditions \<times> string list \<Rightarrow>
    iam_error + (string list \<times> resource \<times> caveats)" where
  "compile_group H i g =
     (case g of (r, c, actions) \<Rightarrow>
        and_then (expand_actions i actions) (\<lambda>abilities.
        if abilities = [] then Inl (BadAction ScopeNoActions)
        else and_then (to_cap_resource H r) (\<lambda>cap_res. Inr (abilities, cap_res, to_caveats c))))"

definition compile_scopes :: "hex_lib \<Rightarrow> scope_key_fn \<Rightarrow> iam \<Rightarrow> policy \<Rightarrow>
    iam_error + (string list \<times> resource \<times> caveats) list" where
  "compile_scopes H key i p =
     (if policy_denies p then Inl DenyUnsupported
      else and_then (group_scopes key bt_empty (policy_allows p)) (\<lambda>groups.
        if groups = [] then Inl (BadPolicy GrantsNothing)
        else collect_results (compile_group H i) (bt_values groups)))"

section \<open>Minting and attenuating\<close>

definition mint :: "hex_lib \<Rightarrow> ('i, 's) cap_lib \<Rightarrow> iam \<Rightarrow> 'i \<Rightarrow> principal \<Rightarrow> policy \<Rightarrow> u64 \<Rightarrow>
    iam_error + 's grant" where
  "mint H L i issuer audience p nonce =
     and_then (compile H i p) (\<lambda>(abilities, resource, cavs).
       Inr (grant_from_chain L
         [lib_issue L issuer (principal_node_id audience) abilities resource cavs nonce None]))"

definition mint_scope :: "('i, 's) cap_lib \<Rightarrow> 'i \<Rightarrow> principal \<Rightarrow> u64 \<Rightarrow>
    nat \<times> string list \<times> resource \<times> caveats \<Rightarrow> iam_error + 's grant" where
  "mint_scope L issuer audience base e =
     (case e of (n, abilities, resource, cavs) \<Rightarrow>
        and_then (ok_or (checked_add_u64 base (of_nat n)) (BadPolicy NonceOverflow)) (\<lambda>nonce.
          Inr (grant_from_chain L
            [lib_issue L issuer (principal_node_id audience) abilities resource cavs nonce None])))"

definition mint_policy :: "hex_lib \<Rightarrow> scope_key_fn \<Rightarrow> ('i, 's) cap_lib \<Rightarrow> iam \<Rightarrow> 'i \<Rightarrow> principal \<Rightarrow>
    policy \<Rightarrow> u64 \<Rightarrow> iam_error + 's grant list" where
  "mint_policy H key L i issuer audience p base =
     and_then (compile_scopes H key i p) (\<lambda>scopes.
       collect_results (mint_scope L issuer audience base) (zip [0..<length scopes] scopes))"

definition reissue_under :: "('i, 's) cap_lib \<Rightarrow> 'i \<Rightarrow> 's grant \<Rightarrow> u64 \<Rightarrow>
    (iam_error + 's grant) option" where
  "reissue_under L new_root g nonce =
     (if length (gr_chain g) \<noteq> 1 then Some (Inl (WouldAmplify NotSingleLink))
      else case grant_leaf g of
        None \<Rightarrow> None
      | Some leaf \<Rightarrow>
          (let c = lib_cap L leaf in
           Some (if cap_parent c \<noteq> None then Inl (WouldAmplify NotRoot)
             else Inr (grant_from_chain L
               [lib_issue L new_root (cap_audience c) (cap_abilities c) (cap_resource c)
                  (cap_caveats c) nonce None]))))"

definition attenuate :: "hex_lib \<Rightarrow> ('i, 's) cap_lib \<Rightarrow> iam \<Rightarrow> 'i \<Rightarrow> 's grant \<Rightarrow> principal \<Rightarrow> policy \<Rightarrow>
    u64 \<Rightarrow> (iam_error + 's grant) option" where
  "attenuate H L i holder parent audience narrower nonce =
     (case grant_leaf parent of
        None \<Rightarrow> None
      | Some leaf \<Rightarrow> Some
         (let c = lib_cap L leaf in
          if cap_audience c \<noteq> lib_node_id L holder then Inl (WouldAmplify NotHolder)
          else and_then (compile H i narrower) (\<lambda>(abilities, resource, cavs).
            if \<not> list_all (\<lambda>a. a \<in> set (cap_abilities c)) abilities
            then Inl (WouldAmplify (AbilitiesExceed abilities (cap_abilities c)))
            else if \<not> lib_res_subset L resource (cap_resource c)
            then Inl (WouldAmplify ResourceBroader)
            else if \<not> lib_cav_narrower L cavs (cap_caveats c)
            then Inl (WouldAmplify ConditionsBroader)
            else Inr (grant_from_chain L (gr_chain parent @
              [lib_issue L holder (principal_node_id audience) abilities resource cavs nonce
                 (Some (lib_id L leaf))])))))"

section \<open>Verifying and inspecting\<close>

definition guarded_decode :: "('i, 's) cap_lib \<Rightarrow> iam \<Rightarrow> string \<Rightarrow> iam_error + 's list" where
  "guarded_decode L i token =
     (if length token > iam_max_token_bytes i
      then Inl (MalformedChain (TokenTooLong (length token) (iam_max_token_bytes i)))
      else and_then (map_err (\<lambda>e. MalformedChain (Undecodable e)) (lib_decode_chain L token)) (\<lambda>chain.
        if chain = [] then Inl (MalformedChain EmptyChain)
        else if length chain > iam_max_chain_depth i
        then Inl (MalformedChain (ChainTooDeep (length chain) (iam_max_chain_depth i)))
        else Inr chain))"

definition verify_chain :: "('i, 's) cap_lib \<Rightarrow> iam \<Rightarrow> node_id \<Rightarrow> string list \<Rightarrow> u64 \<Rightarrow> principal \<Rightarrow>
    string \<Rightarrow> 's list \<Rightarrow> (node_id \<Rightarrow> u64 \<Rightarrow> bool) \<Rightarrow> iam_error + unit" where
  "verify_chain L i self_id self_tags now requester action chain is_revoked =
     map_err Denied (lib_authorize L self_id (iam_roots i) self_tags now
       (principal_node_id requester) action chain is_revoked)"

definition verify :: "('i, 's) cap_lib \<Rightarrow> iam \<Rightarrow> node_id \<Rightarrow> string list \<Rightarrow> u64 \<Rightarrow> principal \<Rightarrow>
    string \<Rightarrow> string \<Rightarrow> (node_id \<Rightarrow> u64 \<Rightarrow> bool) \<Rightarrow> iam_error + unit" where
  "verify L i self_id self_tags now requester action token is_revoked =
     and_then (guarded_decode L i token) (\<lambda>chain.
       map_err Denied (lib_authorize L self_id (iam_roots i) self_tags now
         (principal_node_id requester) action chain is_revoked))"

fun intercalate :: "string \<Rightarrow> string list \<Rightarrow> string" where
  "intercalate sep [] = []"
| "intercalate sep [x] = x"
| "intercalate sep (x # xs) = x @ sep @ intercalate sep xs"

definition render_resource :: "hex_lib \<Rightarrow> resource \<Rightarrow> string" where
  "render_resource H r =
     (case r of
        RAny \<Rightarrow> ''*''
      | RNode n \<Rightarrow> hx_encode H n
      | RTag t \<Rightarrow> ''tag:'' @ t
      | RAllOf ts \<Rightarrow> ''all-of:'' @ intercalate '','' ts)"

record link_info =
  li_issuer :: string
  li_audience :: string
  li_abilities :: "string list"
  li_resource :: string
  li_nonce :: u64
  li_not_after :: u64

record scope =
  sc_root_issuer :: string
  sc_audience :: string
  sc_depth :: nat
  sc_abilities :: "string list"
  sc_resource :: string
  sc_not_after :: u64
  sc_links :: "link_info list"

definition link_info_of :: "hex_lib \<Rightarrow> capability \<Rightarrow> link_info" where
  "link_info_of H c = \<lparr>
     li_issuer = hx_encode H (cap_issuer c),
     li_audience = hx_encode H (cap_audience c),
     li_abilities = cap_abilities c,
     li_resource = render_resource H (cap_resource c),
     li_nonce = cap_nonce c,
     li_not_after = cv_not_after (cap_caveats c)\<rparr>"

definition inspect_chain :: "hex_lib \<Rightarrow> ('i, 's) cap_lib \<Rightarrow> 's list \<Rightarrow> iam_error + scope" where
  "inspect_chain H L chain =
     (if chain = [] then Inl (MalformedChain EmptyChain)
      else
        (let root = lib_cap L (hd chain); leaf = lib_cap L (last chain) in
         Inr \<lparr>sc_root_issuer = hx_encode H (cap_issuer root),
              sc_audience = hx_encode H (cap_audience leaf),
              sc_depth = length chain,
              sc_abilities = cap_abilities leaf,
              sc_resource = render_resource H (cap_resource leaf),
              sc_not_after = cv_not_after (cap_caveats leaf),
              sc_links = map (\<lambda>l. link_info_of H (lib_cap L l)) chain\<rparr>))"

definition inspect :: "hex_lib \<Rightarrow> ('i, 's) cap_lib \<Rightarrow> iam \<Rightarrow> string \<Rightarrow> iam_error + scope" where
  "inspect H L i token = and_then (guarded_decode L i token) (inspect_chain H L)"

definition iam_decode :: "('i, 's) cap_lib \<Rightarrow> iam \<Rightarrow> string \<Rightarrow> iam_error + 's grant" where
  "iam_decode L i token =
     and_then (guarded_decode L i token) (\<lambda>chain. Inr (grant_from_chain L chain))"

definition simple_policy :: "string list \<Rightarrow> resource_match \<Rightarrow> conditions \<Rightarrow> policy" where
  "simple_policy actions resource conds = policy_allow actions resource conds"

end
