(* ===== verification/HexText.thy ===== *)
theory HexText
  imports External
begin

text \<open>
  The dependency-free hex codec of \<open>secrets.rs\<close> (\<open>b64_encode\<close> and \<open>b64_decode\<close>, which despite their
  names write and read hex). It provides the interface \<open>hex_codec\<close>. Slicing a string off a
  character boundary panics: that is the value \<open>None\<close>.
\<close>

definition hex_digit :: "nat \<Rightarrow> char" where
  "hex_digit n = (if n < 10 then char_of (48 + n) else char_of (87 + n))"

fun b64_encode :: "bytes \<Rightarrow> string" where
  "b64_encode [] = []"
| "b64_encode (x # xs) = hex_digit (unat x div 16) # hex_digit (unat x mod 16) # b64_encode xs"

definition digit_value :: "char \<Rightarrow> nat option" where
  "digit_value c =
     (let n = of_char c :: nat in
      if 48 \<le> n \<and> n \<le> 57 then Some (n - 48)
      else if 97 \<le> n \<and> n \<le> 102 then Some (n - 87)
      else if 65 \<le> n \<and> n \<le> 70 then Some (n - 55)
      else None)"

text \<open>\<open>u8::from_str_radix(.., 16)\<close> on two bytes: a leading \<open>+\<close> is a sign, not a digit.\<close>

definition u8_from_hex2 :: "char \<Rightarrow> char \<Rightarrow> byte option" where
  "u8_from_hex2 a b =
     (if a = CHR ''+'' then map_option of_nat (digit_value b)
      else case digit_value a of
        None \<Rightarrow> None
      | Some x \<Rightarrow> (case digit_value b of None \<Rightarrow> None | Some y \<Rightarrow> Some (of_nat (16 * x + y))))"

definition is_continuation :: "char \<Rightarrow> bool" where
  "is_continuation c \<longleftrightarrow> (128 :: nat) \<le> of_char c \<and> of_char c < (192 :: nat)"

datatype hex_error = OddLength | BadHexDigits

fun b64_pairs :: "string \<Rightarrow> (hex_error + bytes) option" where
  "b64_pairs (a # b # s) =
     (if s \<noteq> [] \<and> is_continuation (hd s) then None
      else case u8_from_hex2 a b of
        None \<Rightarrow> Some (Inl BadHexDigits)
      | Some x \<Rightarrow> map_option (map_sum (\<lambda>e. e) (\<lambda>xs. x # xs)) (b64_pairs s))"
| "b64_pairs _ = Some (Inr [])"

definition b64_decode :: "string \<Rightarrow> (hex_error + bytes) option" where
  "b64_decode s = (if length s mod 2 \<noteq> 0 then Some (Inl OddLength) else b64_pairs s)"

lemma lower_hex_digit: "n < 16 \<Longrightarrow> lower_hex_char (hex_digit n)"
  by (auto simp: hex_digit_def lower_hex_char_def)

lemma digit_value_hex_digit: "n < 16 \<Longrightarrow> digit_value (hex_digit n) = Some n"
  by (auto simp: hex_digit_def digit_value_def Let_def)

lemma lower_hex_not_plus: "lower_hex_char c \<Longrightarrow> c \<noteq> CHR ''+''"
  by (auto simp: lower_hex_char_def)

lemma lower_hex_not_cont: "lower_hex_char c \<Longrightarrow> \<not> is_continuation c"
  by (auto simp: lower_hex_char_def is_continuation_def)

lemma unat_byte_lt: "unat (x :: byte) < 256"
  using unsigned_less [of x] by simp

lemma b64_encode_digits: "c \<in> set (b64_encode b) \<Longrightarrow> lower_hex_char c"
  using unat_byte_lt by (induction b) (auto intro!: lower_hex_digit simp: less_mult_imp_div_less)

lemma b64_encode_length: "length (b64_encode b) = 2 * length b"
  by (induction b) auto

lemma u8_from_hex2_digits:
  "u8_from_hex2 (hex_digit (unat x div 16)) (hex_digit (unat (x :: byte) mod 16)) = Some x"
proof -
  have "unat x div 16 < 16"
    using unat_byte_lt [of x] by simp
  then show ?thesis
    by (simp add: u8_from_hex2_def digit_value_hex_digit lower_hex_not_plus lower_hex_digit)
qed

lemma b64_pairs_encode: "b64_pairs (b64_encode b) = Some (Inr b)"
proof (induction b)
  case Nil
  then show ?case by simp
next
  case (Cons x b)
  have "\<not> is_continuation (hd (b64_encode b))" if "b64_encode b \<noteq> []"
    using that b64_encode_digits [of "hd (b64_encode b)" b] by (simp add: lower_hex_not_cont)
  with Cons show ?case by (auto simp: u8_from_hex2_digits)
qed

lemma b64_decode_encode: "b64_decode (b64_encode b) = Some (Inr b)"
  by (simp add: b64_decode_def b64_pairs_encode b64_encode_length)

definition b64_decode_opt :: "string \<Rightarrow> bytes option" where
  "b64_decode_opt s = (case b64_decode s of Some (Inr b) \<Rightarrow> Some b | _ \<Rightarrow> None)"

interpretation vault_hex: hex_codec b64_encode b64_decode_opt
  by unfold_locales
    (simp_all add: b64_decode_opt_def b64_decode_encode b64_encode_digits b64_encode_length)

text \<open>The repository's own codec, in the place of the \<open>hex\<close> crate: used where a lemma is instantiated.\<close>

definition own_hex :: hex_lib where
  "own_hex = \<lparr>hx_encode = b64_encode, hx_decode = b64_decode_opt\<rparr>"

lemma own_hex_codec: "hex_codec (hx_encode own_hex) (hx_decode own_hex)"
  unfolding own_hex_def by (simp add: vault_hex.hex_codec_axioms)

end
