(* ===== verification/Demo.thy ===== *)
theory Demo
  imports Grants HexText
begin

text \<open>
  One concrete instance of each parameter that stands for an external crate. The hypotheses that
  state such a crate's documented laws hold of it, so the witnesses evaluate the model on it.
\<close>

definition demo_node :: "byte \<Rightarrow> node_id" where
  "demo_node b = replicate 32 b"

definition demo_iam :: iam where
  "demo_iam = \<lparr>iam_universe = [''d:r'', ''s:r'', ''s:w''], iam_roots = [],
     iam_max_token_bytes = 99, iam_max_chain_depth = 4\<rparr>"

text \<open>Scopes without conditions, written injectively; the printer refuses every other scope.\<close>

definition demo_key :: scope_key_fn where
  "demo_key r c =
     (if c \<noteq> default_conditions then Inl ''unsupported''
      else case r of
        RMAny \<Rightarrow> Inr ''any''
      | RMTag t \<Rightarrow> Inr (''tag:'' @ t)
      | RMNode n \<Rightarrow> Inr (''node:'' @ n)
      | RMAllOf ts \<Rightarrow> Inl ''unsupported'')"

text \<open>
  Identities are node ids and a signed capability is its body. Tokens are as long as their chain;
  the only token that decodes is that of the chain \<open>known\<close>.
\<close>

definition demo_issue :: "node_id \<Rightarrow> node_id \<Rightarrow> string list \<Rightarrow> resource \<Rightarrow> caveats \<Rightarrow> u64 \<Rightarrow>
    cap_id option \<Rightarrow> capability" where
  "demo_issue i aud abil res cav n par =
     \<lparr>cap_issuer = i, cap_audience = aud, cap_abilities = abil, cap_resource = res,
      cap_caveats = cav, cap_nonce = n, cap_parent = par\<rparr>"

definition demo_base :: "capability list \<Rightarrow> (node_id, capability) cap_lib" where
  "demo_base known = \<lparr>
     lib_node_id = (\<lambda>i. i),
     lib_issue = demo_issue,
     lib_cap = (\<lambda>s. s),
     lib_id = (\<lambda>s. cap_issuer s @ [ucast (cap_nonce s)]),
     lib_res_subset = (\<lambda>r s. s = RAny \<or> r = s),
     lib_cav_narrower = (\<lambda>c d. cv_not_after d = 0 \<or>
        (cv_not_after c \<noteq> 0 \<and> cv_not_after c \<le> cv_not_after d)),
     lib_encode_chain = (\<lambda>ch. replicate (length ch) (CHR ''#'')),
     lib_decode_chain = (\<lambda>t. if t = replicate (length known) (CHR ''#'') then Inr known else Inl ''bad''),
     lib_authorize = (\<lambda>self roots tags now requester action chain revoked. Inl ''denied'')\<rparr>"

definition demo_checks :: "capability cap_checks" where
  "demo_checks = \<lparr>ck_signature = (\<lambda>s. True), ck_resource = (\<lambda>r n tags. r = RAny \<or> r = RNode n)\<rparr>"

definition demo_lib :: "capability list \<Rightarrow> (node_id, capability) cap_lib" where
  "demo_lib known = (demo_base known)\<lparr>lib_authorize :=
     (\<lambda>self roots tags now requester action chain revoked.
        if documented_ok (demo_base known) demo_checks self roots tags now requester action chain revoked
        then Inr () else Inl ''denied'')\<rparr>"

lemma demo_issue_law: "issue_law (demo_lib known)"
  by (simp add: issue_law_def demo_lib_def demo_base_def demo_issue_def)

lemma demo_narrowing_law: "narrowing_law (demo_lib known)"
  by (auto simp: narrowing_law_def demo_lib_def demo_base_def)

lemma chain_linked_demo: "chain_linked (demo_lib known) ch = chain_linked (demo_base known) ch"
  by (induction "demo_base known" ch rule: chain_linked.induct)
    (simp_all add: link_extends_def narrows_def demo_lib_def)

lemma demo_authorize_law: "authorize_law (demo_lib known) demo_checks"
  by (auto simp: authorize_law_def documented_ok_def chain_linked_demo)
    (simp_all add: demo_lib_def demo_base_def documented_ok_def split: if_splits)

lemma demo_key_law: "\<lbrakk>demo_key r c = Inr k; demo_key r' c' = Inr k\<rbrakk> \<Longrightarrow> r = r' \<and> c = c'"
  by (auto simp: demo_key_def split: if_splits resource_match.splits)

end
