(* ===== verification/Expansion.thy ===== *)
theory Expansion
  imports Demo
begin

text \<open>
  What wildcard expansion and policy compilation compute. \<open>glob_grants\<close> is the specification of one
  action pattern against the action universe; \<open>expand_actions\<close> is proved to enumerate exactly the
  actions its patterns grant, sorted and without repetition. A policy compiles exactly when its
  Allow statements share one scope.
\<close>

section \<open>One pattern\<close>

definition glob_grants :: "string list \<Rightarrow> string \<Rightarrow> string \<Rightarrow> bool" where
  "glob_grants universe a u \<longleftrightarrow>
     (case strip_suffix_char a (CHR ''*'') of
        Some p \<Rightarrow> u \<in> set universe \<and> starts_with u p
      | None \<Rightarrow> u = a)"

definition glob_list :: "string list \<Rightarrow> string \<Rightarrow> string list" where
  "glob_list universe a =
     (case strip_suffix_char a (CHR ''*'') of
        Some p \<Rightarrow> filter (\<lambda>u. starts_with u p) universe
      | None \<Rightarrow> [a])"

lemma set_glob_list: "set (glob_list universe a) = {u. glob_grants universe a u}"
  by (auto simp: glob_list_def glob_grants_def split: option.splits)

lemma glob_list_star: "glob_list universe ''*'' = universe"
  by (simp add: glob_list_def strip_suffix_char_def)

lemma expand_loop_step:
  "expand_loop universe out (a # rest) =
     (if trim a = [] then Inl (BadAction EmptyAction)
      else if glob_list universe (trim a) = []
      then Inl (BadAction (if trim a = ''*'' then StarEmptyUniverse else WildcardNoMatch (trim a)))
      else expand_loop universe (out @ glob_list universe (trim a)) rest)"
  using glob_list_star [of universe]
  by (auto simp: Let_def glob_list_def split: option.splits)

lemma expand_loop_Inr:
  "expand_loop universe out actions = Inr res \<longleftrightarrow>
     (\<forall>a \<in> set actions. trim a \<noteq> [] \<and> glob_list universe (trim a) \<noteq> []) \<and>
     res = out @ concat (map (\<lambda>a. glob_list universe (trim a)) actions)"
proof (induction actions arbitrary: out)
  case Nil
  then show ?case by auto
next
  case (Cons a rest)
  show ?case
    unfolding expand_loop_step using Cons.IH by auto
qed

lemma expand_actions_Inr:
  "expand_actions i actions = Inr out \<longleftrightarrow>
     (\<forall>a \<in> set actions. trim a \<noteq> [] \<and> glob_list (iam_universe i) (trim a) \<noteq> []) \<and>
     out = sort_dedup (concat (map (\<lambda>a. glob_list (iam_universe i) (trim a)) actions))"
  by (auto simp: expand_actions_def and_then_Inr expand_loop_Inr)

lemma glob_list_nonempty: "glob_list universe a \<noteq> [] \<longleftrightarrow> (\<exists>u. glob_grants universe a u)"
  by (metis (mono_tags, lifting) Collect_empty_eq set_empty set_glob_list)

lemma expand_actions_set:
  "expand_actions i actions = Inr out \<Longrightarrow>
   set out = {u. \<exists>a \<in> set actions. glob_grants (iam_universe i) (trim a) u}"
  by (auto simp: expand_actions_Inr set_glob_list)

lemma expand_actions_append:
  assumes "expand_actions i (xs @ ys) = Inr out"
  obtains out1 out2 where "expand_actions i xs = Inr out1" "expand_actions i ys = Inr out2"
    and "set out = set out1 \<union> set out2"
proof -
  have "\<exists>o1. expand_actions i xs = Inr o1" "\<exists>o2. expand_actions i ys = Inr o2"
    using assms by (auto simp: expand_actions_Inr)
  then obtain o1 o2 where o: "expand_actions i xs = Inr o1" "expand_actions i ys = Inr o2"
    by blast
  have "set out = set o1 \<union> set o2"
    using expand_actions_set [OF assms] expand_actions_set [OF o(1)] expand_actions_set [OF o(2)]
    by auto
  with o that show thesis by blast
qed

lemma expand_actions_concat:
  assumes "expand_actions i (concat xss) = Inr out" and "xs \<in> set xss"
  shows "\<exists>o'. expand_actions i xs = Inr o' \<and> set o' \<subseteq> set out"
proof -
  from assms have "\<exists>o'. expand_actions i xs = Inr o'"
    by (force simp: expand_actions_Inr)
  then obtain o' where o': "expand_actions i xs = Inr o'" by blast
  have "set o' \<subseteq> set out"
    using expand_actions_set [OF assms(1)] expand_actions_set [OF o'] assms(2) by auto
  with o' show ?thesis by blast
qed

text \<open>
  Wildcard expansion is correct and complete: it succeeds exactly when every trimmed
  pattern is non-empty and grants at least one action, and then returns the actions granted by some
  pattern (a literal grants itself, a prefix wildcard the universe's actions with that prefix, the
  bare star all of them), strictly sorted.
\<close>

lemma expand_actions_correct:
  "expand_actions i actions = Inr out \<longleftrightarrow>
     (\<forall>a \<in> set actions. trim a \<noteq> [] \<and> (\<exists>u. glob_grants (iam_universe i) (trim a) u)) \<and>
     sorted_wrt (<) out \<and>
     set out = {u. \<exists>a \<in> set actions. glob_grants (iam_universe i) (trim a) u}"
proof
  assume ex: "expand_actions i actions = Inr out"
  then have "out = sort_dedup (concat (map (\<lambda>a. glob_list (iam_universe i) (trim a)) actions))"
    by (simp add: expand_actions_Inr)
  then have "sorted_wrt (<) out" by (simp add: strict_sorted_iff)
  with ex expand_actions_set [OF ex] show
    "(\<forall>a \<in> set actions. trim a \<noteq> [] \<and> (\<exists>u. glob_grants (iam_universe i) (trim a) u)) \<and>
     sorted_wrt (<) out \<and>
     set out = {u. \<exists>a \<in> set actions. glob_grants (iam_universe i) (trim a) u}"
    by (simp add: expand_actions_Inr glob_list_nonempty)
next
  assume spec: "(\<forall>a \<in> set actions. trim a \<noteq> [] \<and>
       (\<exists>u. glob_grants (iam_universe i) (trim a) u)) \<and>
     sorted_wrt (<) out \<and>
     set out = {u. \<exists>a \<in> set actions. glob_grants (iam_universe i) (trim a) u}"
  have "out = sort_dedup (concat (map (\<lambda>a. glob_list (iam_universe i) (trim a)) actions))"
    using spec by (intro sort_dedup_unique) (auto simp: strict_sorted_iff set_glob_list)
  with spec show "expand_actions i actions = Inr out"
    by (simp add: expand_actions_Inr glob_list_nonempty)
qed

lemma expand_actions_correct_witness:
  "\<exists>a \<in> set ['' s:*'', ''x:y'']. glob_grants (iam_universe demo_iam) (trim a) ''s:w''"
proof -
  have "expand_actions demo_iam ['' s:*'', ''x:y''] = Inr [''s:r'', ''s:w'', ''x:y'']"
    by code_simp
  then have eq: "set [''s:r'', ''s:w'', ''x:y''] =
      {u. \<exists>a \<in> set ['' s:*'', ''x:y'']. glob_grants (iam_universe demo_iam) (trim a) u}"
    by (rule expand_actions_correct [THEN iffD1, THEN conjunct2, THEN conjunct2])
  have "''s:w'' \<in> set [''s:r'', ''s:w'', ''x:y'']"
    by simp
  then show ?thesis
    by (rule eq [THEN equalityD1, THEN subsetD, THEN CollectD])
qed

text \<open>
  The runtime never sees a glob: when no action of the universe ends in a star, no
  ability that expansion produces does.
\<close>

lemma expansion_has_no_glob:
  assumes "expand_actions i actions = Inr out"
    and "\<forall>u \<in> set (iam_universe i). strip_suffix_char u (CHR ''*'') = None"
    and "a \<in> set out"
  shows "strip_suffix_char a (CHR ''*'') = None"
proof -
  obtain p where "glob_grants (iam_universe i) (trim p) a"
    using expand_actions_set [OF assms(1)] assms(3) by auto
  with assms(2) show ?thesis
    by (auto simp: glob_grants_def split: option.splits)
qed

lemma expansion_has_no_glob_witness:
  "strip_suffix_char ''s:r'' (CHR ''*'') = None"
proof (rule expansion_has_no_glob)
  show "expand_actions demo_iam [''s:*''] = Inr [''s:r'', ''s:w'']"
    by code_simp
  show "\<forall>u \<in> set (iam_universe demo_iam).
      strip_suffix_char u (CHR ''*'') = None"
    by code_simp
  show "''s:r'' \<in> set [''s:r'', ''s:w'']" by simp
qed

section \<open>Compiling to one capability\<close>

lemma check_uniform_Inr:
  "check_uniform r c ss = Inr u \<longleftrightarrow> (\<forall>s \<in> set ss. st_resource s = r \<and> st_conditions s = c)"
  by (induction ss) auto

lemma policy_denies_iff: "policy_denies p \<longleftrightarrow> (\<exists>s \<in> set (pol_statements p). st_effect s = Deny)"
  by (auto simp: policy_denies_def list_ex_iff)

lemma compile_Inr:
  "compile H i p = Inr (abilities, res, cavs) \<longleftrightarrow>
     \<not> policy_denies p \<and>
     (\<exists>s rest. policy_allows p = s # rest \<and>
        (\<forall>t \<in> set rest. st_resource t = st_resource s \<and> st_conditions t = st_conditions s) \<and>
        expand_actions i (concat (map st_actions (s # rest))) = Inr abilities \<and>
        abilities \<noteq> [] \<and>
        to_cap_resource H (st_resource s) = Inr res \<and>
        cavs = to_caveats (st_conditions s))"
  by (auto simp: compile_def Let_def and_then_Inr check_uniform_Inr split: list.splits if_splits)

text \<open>
  Property C15. Compilation of a policy to one capability is sound and complete: it succeeds exactly
  for a policy without Deny statements whose Allow statements exist, share one resource and one set
  of conditions, and expand to some ability; the capability then grants exactly the actions of all
  the statements, on that resource, under those conditions.
\<close>

theorem compile_correct:
  "compile H i p = Inr (abilities, res, cavs) \<longleftrightarrow>
     (\<forall>s \<in> set (pol_statements p). st_effect s = Allow) \<and>
     (\<exists>r c. pol_statements p \<noteq> [] \<and>
        (\<forall>s \<in> set (pol_statements p). st_resource s = r \<and> st_conditions s = c) \<and>
        to_cap_resource H r = Inr res \<and> cavs = to_caveats c) \<and>
     expand_actions i (concat (map st_actions (pol_statements p))) = Inr abilities \<and>
     abilities \<noteq> []"
proof -
  have allow: "\<not> policy_denies p \<longleftrightarrow> (\<forall>s \<in> set (pol_statements p). st_effect s = Allow)"
    using effect.exhaust by (metis effect.distinct(1) policy_denies_iff)
  have all: "policy_allows p = pol_statements p" if "\<forall>s \<in> set (pol_statements p). st_effect s = Allow"
    using that by (simp add: policy_allows_def)
  show ?thesis
  proof (cases "\<forall>s \<in> set (pol_statements p). st_effect s = Allow")
    case True
    then show ?thesis
      unfolding compile_Inr using allow all [OF True]
      by (cases "pol_statements p") auto
  next
    case False
    then show ?thesis
      unfolding compile_Inr using allow by auto
  qed
qed

theorem compile_correct_witness:
  "expand_actions demo_iam [''s:*''] = Inr [''s:r'', ''s:w'']"
proof -
  have "compile own_hex demo_iam (policy_allow [''s:*''] (RMTag ''gpu'') default_conditions) =
     Inr ([''s:r'', ''s:w''], RTag ''gpu'', to_caveats default_conditions)"
    by code_simp
  then show ?thesis
    unfolding compile_correct by (simp add: policy_allow_def)
qed

end
