(* ===== verification/Scopes.thy ===== *)
theory Scopes
  imports Expansion
begin

text \<open>
  A policy of several scopes: grouping its statements by scope keeps every statement's actions, and
  the grants minted for the groups cover the policy exactly, under consecutive nonces.
\<close>

section \<open>Grouping by scope\<close>

definition scope_actions :: "scope_key_fn \<Rightarrow> string \<Rightarrow> statement list \<Rightarrow> string list" where
  "scope_actions key k ss =
     concat (map st_actions (filter (\<lambda>s. key (st_resource s) (st_conditions s) = Inr k) ss))"

definition in_scope :: "scope_key_fn \<Rightarrow> string \<Rightarrow> statement \<Rightarrow> bool" where
  "in_scope key k s \<longleftrightarrow> key (st_resource s) (st_conditions s) = Inr k"

lemma group_scopes_ConsE:
  assumes "group_scopes key groups (s # ss) = Inr groups'"
  obtains k r c acts where "in_scope key k s"
    and "unwrap_or (bt_get groups k) (st_resource s, st_conditions s, []) = (r, c, acts)"
    and "group_scopes key (bt_insert k (r, c, acts @ st_actions s) groups) ss = Inr groups'"
proof -
  from assms obtain k where k: "in_scope key k s"
    by (auto simp: and_then_Inr in_scope_def)
  obtain r c acts where "unwrap_or (bt_get groups k) (st_resource s, st_conditions s, []) = (r, c, acts)"
    by (rule prod_cases3)
  with assms k that show thesis by (auto simp: result_simps in_scope_def)
qed

lemma scope_actions_Cons:
  "scope_actions key k (s # ss) =
     (if in_scope key k s then st_actions s else []) @ scope_actions key k ss"
  by (simp add: scope_actions_def in_scope_def)

lemma in_scope_unique: "in_scope key k s \<Longrightarrow> in_scope key k' s \<longleftrightarrow> k' = k"
  by (auto simp: in_scope_def)

definition scope_group ::
  "scope_key_fn \<Rightarrow> string \<Rightarrow> statement list \<Rightarrow> (resource_match \<times> conditions \<times> string list) option" where
  "scope_group key k ss =
     (case filter (in_scope key k) ss of
        [] \<Rightarrow> None
      | s # _ \<Rightarrow> Some (st_resource s, st_conditions s, scope_actions key k ss))"

lemma scope_group_Cons:
  "in_scope key k0 s \<Longrightarrow> scope_group key k (s # ss) =
     (if k = k0 then Some (st_resource s, st_conditions s, st_actions s @ scope_actions key k ss)
      else scope_group key k ss)"
  using in_scope_unique [of key k0 s k]
  by (auto simp: scope_group_def scope_actions_Cons split: list.split)

lemma scope_group_None: "scope_group key k ss = None \<longleftrightarrow> (\<forall>s \<in> set ss. \<not> in_scope key k s)"
  by (simp add: scope_group_def split: list.split) (metis filter_empty_conv list.distinct(1))

lemma scope_group_None_actions: "scope_group key k ss = None \<Longrightarrow> scope_actions key k ss = []"
  by (auto simp: scope_group_None scope_actions_def in_scope_def filter_empty_conv)

lemma scope_group_Some:
  "scope_group key k ss = Some (r, c, acts) \<Longrightarrow>
     acts = scope_actions key k ss \<and>
     (\<exists>s \<in> set ss. in_scope key k s \<and> st_resource s = r \<and> st_conditions s = c)"
  by (auto simp: scope_group_def split: list.splits)
    (metis filter_eq_ConsD in_set_conv_decomp)

lemma group_scopes_get:
  "group_scopes key groups ss = Inr groups' \<Longrightarrow>
   bt_get groups' k =
     (case bt_get groups k of
        Some (r, c, acts) \<Rightarrow> Some (r, c, acts @ scope_actions key k ss)
      | None \<Rightarrow> scope_group key k ss)"
proof (induction ss arbitrary: groups)
  case Nil
  then show ?case by (auto simp: scope_actions_def scope_group_def split: option.splits)
next
  case (Cons s ss)
  from Cons.prems obtain k0 r c acts where k0: "in_scope key k0 s"
    and old: "unwrap_or (bt_get groups k0) (st_resource s, st_conditions s, []) = (r, c, acts)"
    and rest: "group_scopes key (bt_insert k0 (r, c, acts @ st_actions s) groups) ss = Inr groups'"
    by (rule group_scopes_ConsE)
  note simps = btree_simps scope_actions_Cons in_scope_unique [OF k0] scope_group_Cons [OF k0]
    unwrap_or_def
  show ?case
  proof (cases "k = k0")
    case True
    then show ?thesis
      using Cons.IH [OF rest] old by (cases "bt_get groups k0") (auto simp: simps)
  next
    case False
    then show ?thesis
      using Cons.IH [OF rest] by (simp add: simps split: option.split)
  qed
qed

lemma group_scopes_bt_ok:
  "group_scopes key groups ss = Inr groups' \<Longrightarrow> bt_ok groups \<Longrightarrow> bt_ok groups'"
proof (induction ss arbitrary: groups)
  case Nil
  then show ?case by simp
next
  case (Cons s ss)
  from Cons.prems(1) show ?case
    by (rule group_scopes_ConsE) (blast intro: Cons.IH Cons.prems(2) keeps_ok)
qed

lemma group_scopes_keys:
  "group_scopes key groups ss = Inr groups' \<Longrightarrow> s \<in> set ss \<Longrightarrow> \<exists>k. in_scope key k s"
proof (induction ss arbitrary: groups)
  case Nil
  then show ?case by simp
next
  case (Cons t ss)
  from Cons.prems(1) show ?case
    by (rule group_scopes_ConsE) (use Cons.IH Cons.prems(2) in auto)
qed

text \<open>Two scopes with one key are the same scope: JSON text determines the value it renders.\<close>

definition scope_key_law :: "scope_key_fn \<Rightarrow> bool" where
  "scope_key_law key \<longleftrightarrow>
     (\<forall>r c r' c' k. key r c = Inr k \<longrightarrow> key r' c' = Inr k \<longrightarrow> r = r' \<and> c = c')"

lemma group_scopes_from_empty:
  assumes g: "group_scopes key bt_empty ss = Inr groups" and inj: "scope_key_law key"
  shows "bt_get groups k = Some (r, c, acts) \<longleftrightarrow>
    (\<exists>s \<in> set ss. in_scope key k s \<and> st_resource s = r \<and> st_conditions s = c) \<and>
    acts = scope_actions key k ss"
proof -
  have get: "bt_get groups k = scope_group key k ss"
    using group_scopes_get [OF g, of k] by (simp add: bt_empty_def btree_simps)
  show ?thesis
  proof
    assume "bt_get groups k = Some (r, c, acts)"
    then show "(\<exists>s \<in> set ss. in_scope key k s \<and> st_resource s = r \<and> st_conditions s = c) \<and>
        acts = scope_actions key k ss"
      using get scope_group_Some by auto
  next
    assume rhs: "(\<exists>s \<in> set ss. in_scope key k s \<and> st_resource s = r \<and> st_conditions s = c) \<and>
        acts = scope_actions key k ss"
    then obtain s where s: "s \<in> set ss" "in_scope key k s" "st_resource s = r" "st_conditions s = c"
      by blast
    then obtain r' c' acts' where some: "scope_group key k ss = Some (r', c', acts')"
      using scope_group_None [of key k ss] by (cases "scope_group key k ss") auto
    from scope_group_Some [OF this] obtain t where t: "in_scope key k t"
      "st_resource t = r'" "st_conditions t = c'" "acts' = scope_actions key k ss"
      by blast
    have "r' = r \<and> c' = c"
      using inj s t by (auto simp: scope_key_law_def in_scope_def)
    with get some t rhs show "bt_get groups k = Some (r, c, acts)" by simp
  qed
qed

section \<open>Minting a policy of several scopes\<close>

lemma compile_group_Inr:
  "compile_group H i (r, c, acts) = Inr (abilities, res, cavs) \<longleftrightarrow>
     expand_actions i acts = Inr abilities \<and> abilities \<noteq> [] \<and>
     to_cap_resource H r = Inr res \<and> cavs = to_caveats c"
  by (auto simp: compile_group_def and_then_Inr)

lemma policy_allows_all: "\<not> policy_denies p \<Longrightarrow> policy_allows p = pol_statements p"
proof -
  assume "\<not> policy_denies p"
  then have "st_effect s = Allow" if "s \<in> set (pol_statements p)" for s
    using that by (cases "st_effect s") (auto simp: policy_denies_iff)
  then show ?thesis by (simp add: policy_allows_def)
qed

lemma compile_scopes_Inr:
  "compile_scopes H key i p = Inr scopes \<longleftrightarrow>
     \<not> policy_denies p \<and>
     (\<exists>groups. group_scopes key bt_empty (pol_statements p) = Inr groups \<and> groups \<noteq> [] \<and>
        list_all2 (\<lambda>g sc. compile_group H i g = Inr sc) (bt_values groups) scopes)"
  by (auto simp: compile_scopes_def and_then_Inr policy_allows_all collect_results_Inr)

lemma mint_policy_Inr:
  "mint_policy H key L i issuer audience p base = Inr gs \<longleftrightarrow>
     (\<exists>scopes. compile_scopes H key i p = Inr scopes \<and> length gs = length scopes \<and>
        (\<forall>n < length scopes. mint_scope L issuer audience base (n, scopes ! n) = Inr (gs ! n)))"
  by (auto simp: mint_policy_def and_then_Inr collect_results_Inr list_all2_conv_all_nth)

lemma mint_scope_Inr:
  "mint_scope L issuer audience base (n, abilities, res, cavs) = Inr g \<longleftrightarrow>
     (\<exists>nonce. checked_add_u64 base (of_nat n) = Some nonce \<and>
        g = grant_from_chain L
          [lib_issue L issuer (principal_node_id audience) abilities res cavs nonce None])"
  by (auto simp: mint_scope_def and_then_Inr)

text \<open>The one capability of a freshly minted grant.\<close>

definition minted_cap :: "('i, 's) cap_lib \<Rightarrow> 's grant \<Rightarrow> capability" where
  "minted_cap L g = lib_cap L (hd (gr_chain g))"

lemma minted_cap_grant:
  "issue_law L \<Longrightarrow> minted_cap L (grant_from_chain L [lib_issue L i aud abil res cav n par]) =
     \<lparr>cap_issuer = lib_node_id L i, cap_audience = aud, cap_abilities = abil, cap_resource = res,
      cap_caveats = cav, cap_nonce = n, cap_parent = par\<rparr>"
  by (simp add: minted_cap_def grant_from_chain_def issue_law_def)

lemma mint_policy_group:
  assumes m: "mint_policy H key L i issuer audience p base = Inr gs"
    and groups: "group_scopes key bt_empty (pol_statements p) = Inr groups"
  shows "length gs = length groups"
    and "n < length groups \<Longrightarrow> \<exists>abilities res nonce.
       compile_group H i (bt_values groups ! n) =
         Inr (abilities, res, to_caveats (fst (snd (bt_values groups ! n)))) \<and>
       checked_add_u64 base (of_nat n) = Some nonce \<and>
       gs ! n = grant_from_chain L [lib_issue L issuer (principal_node_id audience) abilities res
         (to_caveats (fst (snd (bt_values groups ! n)))) nonce None]"
proof -
  from m groups obtain scopes where sc:
    "list_all2 (\<lambda>g sc. compile_group H i g = Inr sc) (bt_values groups) scopes"
    "length gs = length scopes"
    "\<forall>n < length scopes. mint_scope L issuer audience base (n, scopes ! n) = Inr (gs ! n)"
    by (auto simp: mint_policy_Inr compile_scopes_Inr)
  then show len: "length gs = length groups"
    using list_all2_lengthD [OF sc(1)] by (simp add: bt_values_def)
  assume n: "n < length groups"
  obtain abilities res cavs where e: "scopes ! n = (abilities, res, cavs)"
    by (rule prod_cases3)
  obtain r c acts where g: "bt_values groups ! n = (r, c, acts)"
    by (rule prod_cases3)
  have "compile_group H i (r, c, acts) = Inr (abilities, res, cavs)"
    using sc(1) n list_all2_nthD [of _ "bt_values groups" scopes n]
    by (simp add: bt_values_def flip: g e)
  moreover have "mint_scope L issuer audience base (n, abilities, res, cavs) = Inr (gs ! n)"
    using sc(2,3) len n by (simp flip: e)
  ultimately show "\<exists>abilities res nonce.
       compile_group H i (bt_values groups ! n) =
         Inr (abilities, res, to_caveats (fst (snd (bt_values groups ! n)))) \<and>
       checked_add_u64 base (of_nat n) = Some nonce \<and>
       gs ! n = grant_from_chain L [lib_issue L issuer (principal_node_id audience) abilities res
         (to_caveats (fst (snd (bt_values groups ! n)))) nonce None]"
    unfolding g by (auto simp: compile_group_Inr mint_scope_Inr)
qed

lemma mint_policy_denies:
  "mint_policy H key L i issuer audience p base = Inr gs \<Longrightarrow> s \<in> set (pol_statements p) \<Longrightarrow>
   st_effect s = Allow"
  by (auto simp: mint_policy_Inr compile_scopes_Inr policy_denies_iff) (metis (full_types) effect.exhaust)

lemma mint_policy_groups:
  "mint_policy H key L i issuer audience p base = Inr gs \<Longrightarrow>
   \<exists>groups. group_scopes key bt_empty (pol_statements p) = Inr groups \<and> bt_ok groups"
  using group_scopes_bt_ok [of key bt_empty]
  by (auto simp: mint_policy_Inr compile_scopes_Inr bt_empty_def)

text \<open>
  Property C16. Minting a policy of several scopes covers it: each statement is an Allow statement,
  and some minted grant carries its resource, its conditions and every action its patterns grant.
\<close>

theorem mint_policy_covers:
  assumes "issue_law L" and "scope_key_law key"
    and "mint_policy H key L i issuer audience p base = Inr gs"
    and "s \<in> set (pol_statements p)"
  shows "st_effect s = Allow \<and>
    (\<exists>g \<in> set gs.
       to_cap_resource H (st_resource s) = Inr (cap_resource (minted_cap L g)) \<and>
       cap_caveats (minted_cap L g) = to_caveats (st_conditions s) \<and>
       {u. \<exists>a \<in> set (st_actions s). glob_grants (iam_universe i) (trim a) u}
         \<subseteq> set (cap_abilities (minted_cap L g)))"
proof
  show "st_effect s = Allow" using assms(3,4) by (rule mint_policy_denies)
  obtain groups where groups: "group_scopes key bt_empty (pol_statements p) = Inr groups" "bt_ok groups"
    using mint_policy_groups [OF assms(3)] by blast
  obtain k where k: "in_scope key k s"
    using group_scopes_keys [OF groups(1) assms(4)] by blast
  have "bt_get groups k =
      Some (st_resource s, st_conditions s, scope_actions key k (pol_statements p))"
    using group_scopes_from_empty [OF groups(1) assms(2)] k assms(4) by blast
  then have "(st_resource s, st_conditions s, scope_actions key k (pol_statements p))
      \<in> set (bt_values groups)"
    using bt_values_get [OF groups(2)] by blast
  then obtain n where n: "n < length groups"
    "bt_values groups ! n = (st_resource s, st_conditions s, scope_actions key k (pol_statements p))"
    by (metis bt_values_def in_set_conv_nth length_map)
  obtain abilities res nonce where
    c: "compile_group H i (bt_values groups ! n) = Inr (abilities, res, to_caveats (st_conditions s))"
    and g: "gs ! n = grant_from_chain L [lib_issue L issuer (principal_node_id audience) abilities res
         (to_caveats (st_conditions s)) nonce None]"
    using mint_policy_group(2) [OF assms(3) groups(1) n(1)] n(2) by auto
  have acts: "set (st_actions s) \<subseteq> set (scope_actions key k (pol_statements p))"
    using k assms(4) by (auto simp: scope_actions_def in_scope_def)
  have "expand_actions i (scope_actions key k (pol_statements p)) = Inr abilities"
    "to_cap_resource H (st_resource s) = Inr res"
    using c n(2) by (simp_all add: compile_group_Inr)
  then have "{u. \<exists>a \<in> set (st_actions s). glob_grants (iam_universe i) (trim a) u} \<subseteq> set abilities"
    using expand_actions_set acts by blast
  moreover have "gs ! n \<in> set gs"
    using n(1) mint_policy_group(1) [OF assms(3) groups(1)] by simp
  ultimately show "\<exists>g \<in> set gs.
       to_cap_resource H (st_resource s) = Inr (cap_resource (minted_cap L g)) \<and>
       cap_caveats (minted_cap L g) = to_caveats (st_conditions s) \<and>
       {u. \<exists>a \<in> set (st_actions s). glob_grants (iam_universe i) (trim a) u}
         \<subseteq> set (cap_abilities (minted_cap L g))"
    using \<open>to_cap_resource H (st_resource s) = Inr res\<close>
    by (intro bexI [of _ "gs ! n"]) (simp_all add: g minted_cap_grant [OF assms(1)])
qed

text \<open>
  Property C17. Minting a policy of several scopes grants nothing more: each minted grant is one root
  capability from the issuer to the audience, its nonce is the base nonce plus its index without
  wrap-around, and each of its abilities is granted by a statement of exactly its scope.
\<close>

theorem mint_policy_sound:
  assumes "issue_law L" and "scope_key_law key"
    and "mint_policy H key L i issuer audience p base = Inr gs"
    and "n < length gs"
  shows "length (gr_chain (gs ! n)) = 1 \<and>
    cap_issuer (minted_cap L (gs ! n)) = lib_node_id L issuer \<and>
    cap_audience (minted_cap L (gs ! n)) = principal_node_id audience \<and>
    cap_parent (minted_cap L (gs ! n)) = None \<and>
    cap_nonce (minted_cap L (gs ! n)) = base + of_nat n \<and>
    unat base + unat (of_nat n :: u64) < 2 ^ 64 \<and>
    (\<forall>u \<in> set (cap_abilities (minted_cap L (gs ! n))). \<exists>s \<in> set (pol_statements p).
       to_cap_resource H (st_resource s) = Inr (cap_resource (minted_cap L (gs ! n))) \<and>
       cap_caveats (minted_cap L (gs ! n)) = to_caveats (st_conditions s) \<and>
       (\<exists>a \<in> set (st_actions s). glob_grants (iam_universe i) (trim a) u))"
proof -
  obtain groups where groups: "group_scopes key bt_empty (pol_statements p) = Inr groups" "bt_ok groups"
    using mint_policy_groups [OF assms(3)] by blast
  have n: "n < length groups"
    using assms(4) mint_policy_group(1) [OF assms(3) groups(1)] by simp
  obtain r c acts where e: "bt_values groups ! n = (r, c, acts)"
    by (rule prod_cases3)
  then have "(r, c, acts) \<in> set (bt_values groups)"
    using n by (metis bt_values_def length_map nth_mem)
  then obtain k where "bt_get groups k = Some (r, c, acts)"
    using bt_values_get [OF groups(2)] by blast
  then have acts: "acts = scope_actions key k (pol_statements p)"
    and scope: "\<And>s. in_scope key k s \<Longrightarrow> st_resource s = r \<and> st_conditions s = c"
    using group_scopes_from_empty [OF groups(1) assms(2)] assms(2)
    by (auto simp: scope_key_law_def in_scope_def)
  obtain abilities res nonce where
    cg: "compile_group H i (r, c, acts) = Inr (abilities, res, to_caveats c)"
    and nonce: "checked_add_u64 base (of_nat n) = Some nonce"
    and g: "gs ! n = grant_from_chain L [lib_issue L issuer (principal_node_id audience) abilities res
         (to_caveats c) nonce None]"
    using mint_policy_group(2) [OF assms(3) groups(1) n] e by auto
  have "\<exists>s \<in> set (pol_statements p). to_cap_resource H (st_resource s) = Inr res \<and>
      to_caveats c = to_caveats (st_conditions s) \<and>
      (\<exists>a \<in> set (st_actions s). glob_grants (iam_universe i) (trim a) u)"
    if "u \<in> set abilities" for u
  proof -
    have "expand_actions i acts = Inr abilities"
      using cg by (simp add: compile_group_Inr)
    from expand_actions_set [OF this] that obtain a where
      a: "a \<in> set acts" "glob_grants (iam_universe i) (trim a) u"
      by blast
    then obtain s where "s \<in> set (pol_statements p)" "in_scope key k s" "a \<in> set (st_actions s)"
      by (auto simp: acts scope_actions_def in_scope_def)
    with scope a cg show ?thesis by (auto simp: compile_group_Inr)
  qed
  moreover have "nonce = base + of_nat n" "unat base + unat (of_nat n :: u64) < 2 ^ 64"
    using nonce by (simp_all only: checked_add_u64_def split: if_splits) simp_all
  moreover have "length (gr_chain (gs ! n)) = 1"
    by (simp add: g grant_from_chain_def)
  ultimately show ?thesis
    by (simp add: g minted_cap_grant [OF assms(1)])
qed

text \<open>
  On a policy of one scope, minting scope by scope is minting: the list holds the one
  grant that \<open>mint\<close> returns, nonce included.
\<close>

lemma mint_policy_single_scope:
  assumes "mint H L i issuer audience p nonce = Inr g"
    and "key (st_resource (hd (pol_statements p))) (st_conditions (hd (pol_statements p))) = Inr k"
  shows "mint_policy H key L i issuer audience p nonce = Inr [g]"
proof -
  obtain abilities res cavs where comp: "compile H i p = Inr (abilities, res, cavs)"
    and g: "g = grant_from_chain L
      [lib_issue L issuer (principal_node_id audience) abilities res cavs nonce None]"
    using assms(1) by (auto simp: mint_def and_then_Inr)
  then obtain s rest where p: "policy_allows p = s # rest" "\<not> policy_denies p"
    and same: "\<forall>t \<in> set rest. st_resource t = st_resource s \<and> st_conditions t = st_conditions s"
    and ex: "expand_actions i (concat (map st_actions (s # rest))) = Inr abilities" "abilities \<noteq> []"
    and res: "to_cap_resource H (st_resource s) = Inr res" "cavs = to_caveats (st_conditions s)"
    unfolding compile_Inr by blast
  then have stmts: "pol_statements p = s # rest"
    by (simp add: policy_allows_all)
  have loop: "group_scopes key [(k, r, c, acts)] ss = Inr [(k, r, c, acts @ concat (map st_actions ss))]"
    if "\<forall>t \<in> set ss. key (st_resource t) (st_conditions t) = Inr k" for ss acts r c
    using that
    by (induction ss arbitrary: acts) (simp_all add: result_simps bt_get_def unwrap_or_def)
  have "group_scopes key bt_empty (s # rest) =
      Inr [(k, st_resource s, st_conditions s, concat (map st_actions (s # rest)))]"
    using loop [of rest] same assms(2) stmts
    by (simp add: result_simps bt_empty_def bt_get_def unwrap_or_def)
  then have "compile_scopes H key i p = Inr [(abilities, res, cavs)]"
    using p stmts ex res
    by (simp add: compile_scopes_def result_simps bt_values_def compile_group_def)
  then show ?thesis
    by (simp add: mint_policy_def result_simps mint_scope_def checked_add_u64_def g
        less_le_trans [OF unat_u64_lt])
qed

section \<open>A policy of two scopes\<close>

definition demo_policy :: policy where
  "demo_policy = \<lparr>pol_version = version_tag, pol_statements =
     [\<lparr>st_sid = None, st_effect = Allow, st_actions = [''s:*''], st_resource = RMTag ''gpu'',
       st_conditions = default_conditions\<rparr>,
      \<lparr>st_sid = None, st_effect = Allow, st_actions = [''d:r''], st_resource = RMAny,
       st_conditions = default_conditions\<rparr>]\<rparr>"

definition demo_grants :: "capability grant list" where
  "demo_grants =
     [\<lparr>gr_chain = [demo_issue (demo_node 1) (demo_node 2) [''d:r''] RAny
        (to_caveats default_conditions) 7 None], gr_token = ''#''\<rparr>,
      \<lparr>gr_chain = [demo_issue (demo_node 1) (demo_node 2) [''s:r'', ''s:w''] (RTag ''gpu'')
        (to_caveats default_conditions) 8 None], gr_token = ''#''\<rparr>]"

lemma demo_mint_policy:
  "mint_policy own_hex demo_key (demo_lib []) demo_iam (demo_node 1) (Principal (demo_node 2))
     demo_policy 7 = Inr demo_grants"
  by code_simp

lemma demo_scope_key_law: "scope_key_law demo_key"
  unfolding scope_key_law_def using demo_key_law by blast

theorem mint_policy_covers_witness:
  "\<exists>g \<in> set demo_grants. cap_caveats (minted_cap (demo_lib []) g) = to_caveats default_conditions"
  using mint_policy_covers [OF demo_issue_law demo_scope_key_law demo_mint_policy,
      of "hd (pol_statements demo_policy)"]
  by (auto simp: demo_policy_def)

theorem mint_policy_sound_witness:
  "cap_nonce (minted_cap (demo_lib []) (demo_grants ! 1)) = 7 + of_nat 1"
  using mint_policy_sound [OF demo_issue_law demo_scope_key_law demo_mint_policy, of 1]
  by (simp add: demo_grants_def)

lemma mint_policy_single_scope_witness:
  "mint_policy own_hex demo_key (demo_lib []) demo_iam (demo_node 1) (Principal (demo_node 2))
     (policy_allow [''d:r''] RMAny default_conditions) 7 = Inr [hd demo_grants]"
proof (rule mint_policy_single_scope)
  show "mint own_hex (demo_lib []) demo_iam (demo_node 1) (Principal (demo_node 2))
     (policy_allow [''d:r''] RMAny default_conditions) 7 = Inr (hd demo_grants)"
    by code_simp
  show "demo_key (st_resource (hd (pol_statements (policy_allow [''d:r''] RMAny default_conditions))))
     (st_conditions (hd (pol_statements (policy_allow [''d:r''] RMAny default_conditions)))) = Inr ''any''"
    by code_simp
qed

end
