(* ===== verification/Delegation.thy ===== *)
theory Delegation
  imports Scopes
begin

text \<open>
  Capability chains under delegation. \<open>delegated\<close> is the relation of the grants that any sequence of
  minting, re-issuing and attenuating can build, together with the policy the root was minted from.
  Such grants are well-formed chains, authority only narrows along them, and verification of their
  tokens decides the documented conditions of \<open>ce_cap::authorize\<close> within the service's bounds.
\<close>

section \<open>Well-formed grants\<close>

definition grant_wf :: "('i, 's) cap_lib \<Rightarrow> 's grant \<Rightarrow> bool" where
  "grant_wf L g \<longleftrightarrow> gr_chain g \<noteq> [] \<and> gr_token g = lib_encode_chain L (gr_chain g) \<and>
     chain_linked L (gr_chain g) \<and> cap_parent (lib_cap L (hd (gr_chain g))) = None"

inductive delegated ::
  "hex_lib \<Rightarrow> scope_key_fn \<Rightarrow> ('i, 's) cap_lib \<Rightarrow> iam \<Rightarrow> policy \<Rightarrow> 's grant \<Rightarrow> bool"
  for H :: hex_lib and key :: scope_key_fn and L :: "('i, 's) cap_lib" and i :: iam where
  minted: "mint H L i issuer audience p nonce = Inr g \<Longrightarrow> delegated H key L i p g"
| minted_scope: "mint_policy H key L i issuer audience p base = Inr gs \<Longrightarrow> g \<in> set gs \<Longrightarrow>
    delegated H key L i p g"
| reissued: "delegated H key L i p g \<Longrightarrow> reissue_under L new_root g nonce = Some (Inr g') \<Longrightarrow>
    delegated H key L i p g'"
| attenuated: "delegated H key L i p g \<Longrightarrow>
    attenuate H L i holder g audience narrower nonce = Some (Inr g') \<Longrightarrow> delegated H key L i p g'"

lemma grant_from_chain_sel [simp]:
  "gr_chain (grant_from_chain L ch) = ch" "gr_token (grant_from_chain L ch) = lib_encode_chain L ch"
  by (simp_all add: grant_from_chain_def)

lemma grant_leaf_Some: "grant_leaf g = Some leaf \<longleftrightarrow> gr_chain g \<noteq> [] \<and> leaf = last (gr_chain g)"
  by (auto simp: grant_leaf_def)

lemma issue_sel:
  assumes "issue_law L"
  shows "cap_issuer (lib_cap L (lib_issue L j aud abil res cav n par)) = lib_node_id L j"
    "cap_audience (lib_cap L (lib_issue L j aud abil res cav n par)) = aud"
    "cap_abilities (lib_cap L (lib_issue L j aud abil res cav n par)) = abil"
    "cap_resource (lib_cap L (lib_issue L j aud abil res cav n par)) = res"
    "cap_caveats (lib_cap L (lib_issue L j aud abil res cav n par)) = cav"
    "cap_nonce (lib_cap L (lib_issue L j aud abil res cav n par)) = n"
    "cap_parent (lib_cap L (lib_issue L j aud abil res cav n par)) = par"
  using assms by (simp_all add: issue_law_def)

lemma grant_wf_root: "issue_law L \<Longrightarrow>
   grant_wf L (grant_from_chain L [lib_issue L j aud abil res cav n None])"
  by (simp add: grant_wf_def issue_sel)

lemma mint_Inr:
  "mint H L i issuer audience p nonce = Inr g \<longleftrightarrow>
     (\<exists>abilities res cavs. compile H i p = Inr (abilities, res, cavs) \<and>
        g = grant_from_chain L
          [lib_issue L issuer (principal_node_id audience) abilities res cavs nonce None])"
  by (auto simp: mint_def and_then_Inr)

lemma mint_policy_shape:
  assumes "mint_policy H key L i issuer audience p base = Inr gs" "g \<in> set gs"
  obtains abilities res cavs nonce where "g = grant_from_chain L
    [lib_issue L issuer (principal_node_id audience) abilities res cavs nonce None]"
proof -
  obtain groups where groups: "group_scopes key bt_empty (pol_statements p) = Inr groups"
    using mint_policy_groups [OF assms(1)] by blast
  obtain n where "n < length groups" "g = gs ! n"
    using assms(2) mint_policy_group(1) [OF assms(1) groups] by (metis in_set_conv_nth)
  then show thesis
    using mint_policy_group(2) [OF assms(1) groups] that by blast
qed

lemma attenuate_Inr:
  "attenuate H L i holder parent audience narrower nonce = Some (Inr g) \<longleftrightarrow>
     gr_chain parent \<noteq> [] \<and>
     (\<exists>leaf abilities res cavs. leaf = last (gr_chain parent) \<and>
        cap_audience (lib_cap L leaf) = lib_node_id L holder \<and>
        compile H i narrower = Inr (abilities, res, cavs) \<and>
        set abilities \<subseteq> set (cap_abilities (lib_cap L leaf)) \<and>
        lib_res_subset L res (cap_resource (lib_cap L leaf)) \<and>
        lib_cav_narrower L cavs (cap_caveats (lib_cap L leaf)) \<and>
        g = grant_from_chain L (gr_chain parent @
          [lib_issue L holder (principal_node_id audience) abilities res cavs nonce
             (Some (lib_id L leaf))]))"
  by (auto simp: attenuate_def Let_def and_then_Inr grant_leaf_def list_all_iff
      split: option.splits if_splits)

lemma attenuate_wf:
  assumes "issue_law L" "grant_wf L parent"
    and "attenuate H L i holder parent audience narrower nonce = Some (Inr g)"
  shows "grant_wf L g"
  using assms unfolding attenuate_Inr grant_wf_def
  by (auto simp: chain_linked_snoc link_extends_def narrows_def issue_sel)

lemma reissue_Inr:
  "reissue_under L new_root g nonce = Some (Inr g') \<longleftrightarrow>
     (\<exists>s. gr_chain g = [s] \<and> cap_parent (lib_cap L s) = None \<and>
        g' = grant_from_chain L [lib_issue L new_root (cap_audience (lib_cap L s))
          (cap_abilities (lib_cap L s)) (cap_resource (lib_cap L s)) (cap_caveats (lib_cap L s))
          nonce None])"
  by (auto simp: reissue_under_def Let_def grant_leaf_def length_Suc_conv split: option.splits if_splits)

text \<open>
  Every grant that minting, scope-wise minting, re-issuing and attenuating can build is
  a well-formed chain: it is not empty, its root has no parent, each link is issued by the audience
  of the one before, names it as its parent and narrows it, and the token encodes the chain.
\<close>

lemma delegated_wf:
  assumes "issue_law L" "delegated H key L i p g"
  shows "grant_wf L g"
  using assms(2)
proof (induction rule: delegated.induct)
  case (minted issuer audience p nonce g)
  then obtain abil res cav where
    "g = grant_from_chain L [lib_issue L issuer (principal_node_id audience) abil res cav nonce None]"
    unfolding mint_Inr by blast
  then show ?case by (simp add: grant_wf_root [OF assms(1)])
next
  case (minted_scope issuer audience p base gs g)
  from minted_scope show ?case
    by (rule mint_policy_shape) (simp add: grant_wf_root [OF assms(1)])
next
  case (reissued p g new_root nonce g')
  then obtain aud abil res cav where
    "g' = grant_from_chain L [lib_issue L new_root aud abil res cav nonce None]"
    unfolding reissue_Inr by blast
  then show ?case by (simp add: grant_wf_root [OF assms(1)])
next
  case (attenuated p g holder audience narrower nonce g')
  then show ?case using attenuate_wf [OF assms(1)] by blast
qed

text \<open>
  Property C1. Delegation never amplifies: in every grant that can be built the authority of the leaf
  (and so that of the token) is within the authority of every link of the chain, in abilities,
  resource and caveats.
\<close>

theorem delegation_never_amplifies:
  assumes "issue_law L" "narrowing_law L" "delegated H key L i p g" "s \<in> set (gr_chain g)"
  shows "narrows L (lib_cap L (last (gr_chain g))) (lib_cap L s)"
proof -
  have wf: "chain_linked L (gr_chain g)"
    using delegated_wf [OF assms(1,3)] by (simp add: grant_wf_def)
  obtain xs ys where split: "gr_chain g = xs @ s # ys"
    using assms(4) by (meson split_list)
  have "chain_linked L (zs @ ws) \<Longrightarrow> chain_linked L ws" for zs ws
    by (induction L zs rule: chain_linked.induct) (cases ws; auto)+
  with wf split have "chain_linked L (s # ys)" by metis
  then show ?thesis
    using chain_linked_narrows [OF assms(2)] split by simp
qed


section \<open>Verification\<close>

lemma guarded_decode_Inr:
  "guarded_decode L i token = Inr chain \<longleftrightarrow>
     length token \<le> iam_max_token_bytes i \<and> lib_decode_chain L token = Inr chain \<and>
     chain \<noteq> [] \<and> length chain \<le> iam_max_chain_depth i"
  by (auto simp: guarded_decode_def result_simps split: sum.splits)

lemma is_ok_unit: "is_ok (r :: 'e + unit) \<longleftrightarrow> r = Inr ()"
  by (cases r) auto

lemma verify_Inr:
  "verify L i self tags now requester action token revoked = Inr u \<longleftrightarrow>
     (\<exists>chain. guarded_decode L i token = Inr chain \<and>
        is_ok (lib_authorize L self (iam_roots i) tags now (principal_node_id requester) action
          chain revoked))"
  by (auto simp: verify_def and_then_Inr is_ok_unit)

text \<open>
  Property C2. Verification is sound and complete for the documented conditions: a token is accepted
  exactly when it is within the byte limit, decodes to a non-empty chain within the depth limit, and
  that chain meets the six documented conditions for the requester and the action under the accepted
  roots of the service.
\<close>

theorem verify_correct:
  assumes "authorize_law L K"
  shows "verify L i self tags now requester action token revoked = Inr () \<longleftrightarrow>
    length token \<le> iam_max_token_bytes i \<and>
    (\<exists>chain. lib_decode_chain L token = Inr chain \<and>
       0 < length chain \<and> length chain \<le> iam_max_chain_depth i \<and>
       documented_ok L K self (iam_roots i) tags now (principal_node_id requester) action chain revoked)"
  using assms by (auto simp: verify_Inr guarded_decode_Inr authorize_law_def)

text \<open>
  One dead link denies the token: a decodable chain within the bounds that has a revoked,
  expired or not yet valid link anywhere, root and intermediate links included, is denied whatever
  the action and the requester.
\<close>

lemma verify_dead_link:
  assumes "authorize_law L K" and "guarded_decode L i token = Inr chain"
    and "s \<in> set chain" and "\<not> link_live (lib_cap L s) now revoked"
  shows "\<exists>e. verify L i self tags now requester action token revoked = Inl (Denied e)"
proof -
  have "\<not> documented_ok L K self (iam_roots i) tags now (principal_node_id requester) action chain revoked"
    using assms(3,4) by (auto simp: documented_ok_def)
  then have "\<not> is_ok (lib_authorize L self (iam_roots i) tags now (principal_node_id requester) action
      chain revoked)"
    using assms(1) by (simp add: authorize_law_def)
  with assms(2) show ?thesis
    by (auto simp: verify_def result_simps is_ok_def split: sum.splits)
qed

text \<open>Every ability of a grant comes from the policy its root was minted from.\<close>

definition policy_covers :: "iam \<Rightarrow> policy \<Rightarrow> string \<Rightarrow> bool" where
  "policy_covers i p u \<longleftrightarrow> (\<exists>s \<in> set (pol_statements p). st_effect s = Allow \<and>
     (\<exists>a \<in> set (st_actions s). glob_grants (iam_universe i) (trim a) u))"

lemma compile_covers:
  assumes "compile H i p = Inr (abilities, res, cavs)" "u \<in> set abilities"
  shows "policy_covers i p u"
proof -
  obtain s rest where p: "policy_allows p = s # rest" "\<not> policy_denies p"
    and ex: "expand_actions i (concat (map st_actions (s # rest))) = Inr abilities"
    using assms(1) unfolding compile_Inr by blast
  have stmts: "pol_statements p = s # rest"
    using p by (simp add: policy_allows_all)
  obtain t a where t: "t \<in> set (s # rest)" "a \<in> set (st_actions t)" "glob_grants (iam_universe i) (trim a) u"
    using expand_actions_set [OF ex] assms(2) by auto
  moreover have "t \<in> set (policy_allows p)"
    using t(1) p(1) by simp
  then have "st_effect t = Allow"
    by (simp add: policy_allows_def)
  ultimately show ?thesis
    unfolding policy_covers_def stmts by blast
qed

lemma mint_policy_covered:
  assumes "mint_policy H key L i issuer audience p base = Inr gs" "issue_law L" "g \<in> set gs"
    and "u \<in> set (cap_abilities (lib_cap L (hd (gr_chain g))))"
  shows "policy_covers i p u"
proof -
  obtain groups where groups: "group_scopes key bt_empty (pol_statements p) = Inr groups" "bt_ok groups"
    using mint_policy_groups [OF assms(1)] by blast
  obtain n where n: "n < length groups" "g = gs ! n"
    using assms(3) mint_policy_group(1) [OF assms(1) groups(1)] by (metis in_set_conv_nth)
  obtain r c acts where e: "bt_values groups ! n = (r, c, acts)"
    by (rule prod_cases3)
  obtain abilities res nonce where cg: "compile_group H i (r, c, acts) = Inr (abilities, res, to_caveats c)"
    and g: "g = grant_from_chain L [lib_issue L issuer (principal_node_id audience) abilities res
       (to_caveats c) nonce None]"
    using mint_policy_group(2) [OF assms(1) groups(1) n(1)] n(2) e by auto
  have "(r, c, acts) \<in> set (bt_values groups)"
    using n(1) e by (metis bt_values_def length_map nth_mem)
  then obtain k where "bt_get groups k = Some (r, c, acts)"
    using bt_values_get [OF groups(2)] by blast
  then have acts: "acts = scope_actions key k (pol_statements p)"
    using group_scopes_get [OF groups(1), of k] scope_group_Some
    by (auto simp: bt_empty_def btree_simps)
  have "u \<in> set abilities"
    using assms(4) by (simp add: g issue_sel [OF assms(2)])
  moreover have "expand_actions i acts = Inr abilities"
    using cg by (simp add: compile_group_Inr)
  ultimately obtain a where "a \<in> set acts" "glob_grants (iam_universe i) (trim a) u"
    using expand_actions_set by blast
  then obtain s where "s \<in> set (pol_statements p)" "a \<in> set (st_actions s)"
    "glob_grants (iam_universe i) (trim a) u"
    by (auto simp: acts scope_actions_def)
  with mint_policy_denies [OF assms(1)] show ?thesis
    unfolding policy_covers_def by blast
qed

lemma delegated_root_covered:
  assumes "issue_law L" "delegated H key L i p g"
  shows "u \<in> set (cap_abilities (lib_cap L (hd (gr_chain g)))) \<Longrightarrow> policy_covers i p u"
  using assms(2)
proof (induction rule: delegated.induct)
  case (minted issuer audience p nonce g)
  then show ?case
    using compile_covers issue_sel(3) [OF assms(1)] unfolding mint_Inr by fastforce
next
  case (minted_scope issuer audience p base gs g)
  show ?case
    by (rule mint_policy_covered [OF minted_scope(1) assms(1) minted_scope(2,3)])
next
  case (reissued p g new_root nonce g')
  then show ?case unfolding reissue_Inr by (auto simp: issue_sel [OF assms(1)])
next
  case (attenuated p g holder audience narrower nonce g')
  then show ?case unfolding attenuate_Inr by auto
qed

text \<open>
  Property C4. No authority from nowhere: when verification accepts an action on the token of a grant
  built by any sequence of minting, re-issuing and attenuating, then an Allow statement of the policy
  that the root was minted from grants that action, by name or by a wildcard over the universe.
\<close>

theorem verified_action_was_minted:
  assumes "issue_law L" "narrowing_law L" "authorize_law L K"
    and "delegated H key L i p g"
    and "lib_decode_chain L (gr_token g) = Inr (gr_chain g)"
    and "verify L v self tags now requester action (gr_token g) revoked = Inr ()"
  shows "policy_covers i p action"
proof -
  have "documented_ok L K self (iam_roots v) tags now (principal_node_id requester) action
      (gr_chain g) revoked"
    using assms(6) assms(5) unfolding verify_correct [OF assms(3)] by auto
  then have "action \<in> set (cap_abilities (lib_cap L (last (gr_chain g))))"
    by (simp add: documented_ok_def)
  moreover have "hd (gr_chain g) \<in> set (gr_chain g)"
    using delegated_wf [OF assms(1,4)] by (simp add: grant_wf_def)
  then have "narrows L (lib_cap L (last (gr_chain g))) (lib_cap L (hd (gr_chain g)))"
    by (rule delegation_never_amplifies [OF assms(1,2,4)])
  ultimately have "action \<in> set (cap_abilities (lib_cap L (hd (gr_chain g))))"
    by (auto simp: narrows_def)
  then show ?thesis
    by (rule delegated_root_covered [OF assms(1,4)])
qed


text \<open>
  Delegation is usable: the token of a grant that was built is accepted for its
  audience and each of its leaf's abilities by any node that accepts its root, as long as the token
  is within the bounds and every link is signed, live and for that node.
\<close>

lemma delegated_token_verifies:
  assumes "issue_law L" "authorize_law L K" "delegated H key L i p g"
    and "guarded_decode L v (gr_token g) = Inr (gr_chain g)"
    and "cap_issuer (lib_cap L (hd (gr_chain g))) \<in> insert self (set (iam_roots v))"
    and "\<forall>s \<in> set (gr_chain g). ck_signature K s \<and> link_live (lib_cap L s) now revoked \<and>
        ck_resource K (cap_resource (lib_cap L s)) self tags"
    and "action \<in> set (cap_abilities (lib_cap L (last (gr_chain g))))"
    and "requester = Principal (cap_audience (lib_cap L (last (gr_chain g))))"
  shows "verify L v self tags now requester action (gr_token g) revoked = Inr ()"
proof -
  have "grant_wf L g"
    by (rule delegated_wf [OF assms(1,3)])
  then have "documented_ok L K self (iam_roots v) tags now (principal_node_id requester) action
      (gr_chain g) revoked"
    using assms(5-8) by (simp add: documented_ok_def grant_wf_def)
  then show ?thesis
    using assms(2,4) by (auto simp: verify_Inr is_ok_unit authorize_law_def)
qed

text \<open>
  Attenuation returns the child exactly when the holder is the parent's audience and the
  narrower policy compiles to a capability within the parent's leaf; the child is the parent's chain
  with that one link appended. It never panics on a grant that was built.
\<close>

lemma attenuate_exact:
  assumes "issue_law L" "delegated H key L i p parent"
  shows "\<exists>r. attenuate H L i holder parent audience narrower nonce = Some r \<and>
    (\<forall>g. r = Inr g \<longleftrightarrow>
      (\<exists>abilities res cavs link.
         cap_audience (lib_cap L (last (gr_chain parent))) = lib_node_id L holder \<and>
         compile H i narrower = Inr (abilities, res, cavs) \<and>
         link = lib_issue L holder (principal_node_id audience) abilities res cavs nonce
           (Some (lib_id L (last (gr_chain parent)))) \<and>
         narrows L (lib_cap L link) (lib_cap L (last (gr_chain parent))) \<and>
         g = grant_from_chain L (gr_chain parent @ [link])))"
proof -
  have ne: "gr_chain parent \<noteq> []"
    using delegated_wf [OF assms] by (simp add: grant_wf_def)
  then obtain r where r: "attenuate H L i holder parent audience narrower nonce = Some r"
    by (simp add: attenuate_def grant_leaf_def)
  have "r = Inr g \<longleftrightarrow> attenuate H L i holder parent audience narrower nonce = Some (Inr g)" for g
    using r by auto
  with r ne show ?thesis
    unfolding attenuate_Inr by (auto simp: narrows_def issue_sel [OF assms(1)])
qed

text \<open>
  Re-issuing moves a grant to a new root and nothing else: it succeeds exactly on a
  single-link chain without a parent, and the new capability has the old audience, abilities,
  resource and caveats, with the new issuer and nonce.
\<close>

lemma reissue_preserves:
  assumes "issue_law L"
  shows "reissue_under L new_root g nonce = Some (Inr g') \<longrightarrow>
      length (gr_chain g) = 1 \<and> length (gr_chain g') = 1 \<and> cap_parent (minted_cap L g) = None \<and>
      gr_token g' = lib_encode_chain L (gr_chain g') \<and>
      minted_cap L g' = (minted_cap L g)\<lparr>cap_issuer := lib_node_id L new_root, cap_nonce := nonce\<rparr>"
proof
  assume "reissue_under L new_root g nonce = Some (Inr g')"
  then obtain s where s: "gr_chain g = [s]" "cap_parent (lib_cap L s) = None"
    and g': "g' = grant_from_chain L [lib_issue L new_root (cap_audience (lib_cap L s))
          (cap_abilities (lib_cap L s)) (cap_resource (lib_cap L s)) (cap_caveats (lib_cap L s))
          nonce None]"
    unfolding reissue_Inr by blast
  have "minted_cap L g' = (minted_cap L g)\<lparr>cap_issuer := lib_node_id L new_root, cap_nonce := nonce\<rparr>"
    using s unfolding g' minted_cap_grant [OF assms] by (simp add: minted_cap_def)
  with s show "length (gr_chain g) = 1 \<and> length (gr_chain g') = 1 \<and>
      cap_parent (minted_cap L g) = None \<and> gr_token g' = lib_encode_chain L (gr_chain g') \<and>
      minted_cap L g' = (minted_cap L g)\<lparr>cap_issuer := lib_node_id L new_root, cap_nonce := nonce\<rparr>"
    by (simp add: g' minted_cap_def)
qed

section \<open>Inspection\<close>

text \<open>
  Inspection agrees with verification: a token that verification accepts is inspected
  without error, and the report shows a chain within the depth limit, the requester as audience, the
  action among the abilities, and one entry per link.
\<close>

lemma inspect_agrees_with_verify:
  assumes "authorize_law L K"
    and "verify L i self tags now requester action token revoked = Inr ()"
  shows "\<exists>sc. inspect H L i token = Inr sc \<and> sc_depth sc \<le> iam_max_chain_depth i \<and>
    sc_audience sc = principal_hex H requester \<and> action \<in> set (sc_abilities sc) \<and>
    length (sc_links sc) = sc_depth sc \<and>
    sc_root_issuer sc \<in> hx_encode H ` insert self (set (iam_roots i))"
proof -
  obtain chain where c: "guarded_decode L i token = Inr chain"
    and ok: "documented_ok L K self (iam_roots i) tags now (principal_node_id requester) action chain revoked"
    using assms by (auto simp: verify_Inr authorize_law_def)
  then have "chain \<noteq> []" "length chain \<le> iam_max_chain_depth i"
    by (simp_all add: guarded_decode_Inr)
  with c ok show ?thesis
    by (auto simp: inspect_def result_simps inspect_chain_def Let_def documented_ok_def principal_hex_def)
qed

section \<open>A delegated grant\<close>

text \<open>Node 1 grants node 2 the storage actions; node 2 passes the read action on to node 3.\<close>

definition demo_root_policy :: policy where
  "demo_root_policy = policy_allow [''s:*''] RMAny default_conditions"

definition demo_root :: "capability grant" where
  "demo_root = \<lparr>gr_chain = [demo_issue (demo_node 1) (demo_node 2) [''s:r'', ''s:w''] RAny
     (to_caveats default_conditions) 7 None], gr_token = ''#''\<rparr>"

definition demo_child :: "capability grant" where
  "demo_child = \<lparr>gr_chain = gr_chain demo_root @
     [demo_issue (demo_node 2) (demo_node 3) [''s:r''] RAny (to_caveats default_conditions) 9
        (Some (demo_node 1 @ [7]))], gr_token = ''##''\<rparr>"

abbreviation demo_L :: "(node_id, capability) cap_lib" where
  "demo_L \<equiv> demo_lib (gr_chain demo_child)"

lemma demo_root_delegated: "delegated own_hex demo_key demo_L demo_iam demo_root_policy demo_root"
proof (rule delegated.minted)
  show "mint own_hex demo_L demo_iam (demo_node 1) (Principal (demo_node 2)) demo_root_policy 7 =
      Inr demo_root"
    by code_simp
qed

lemma demo_child_delegated: "delegated own_hex demo_key demo_L demo_iam demo_root_policy demo_child"
proof (rule delegated.attenuated [OF demo_root_delegated])
  show "attenuate own_hex demo_L demo_iam (demo_node 2) demo_root (Principal (demo_node 3))
      (policy_allow [''s:r''] RMAny default_conditions) 9 = Some (Inr demo_child)"
    by code_simp
qed

lemma demo_child_decodes:
  "guarded_decode demo_L demo_iam (gr_token demo_child) = Inr (gr_chain demo_child)"
  by code_simp

lemma demo_child_accepted:
  "verify demo_L demo_iam (demo_node 1) [] 5 (Principal (demo_node 3)) ''s:r'' (gr_token demo_child)
     (\<lambda>_ _. False) = Inr ()"
  by code_simp

lemma delegated_wf_witness: "grant_wf demo_L demo_child"
  by (rule delegated_wf [OF demo_issue_law demo_child_delegated])

theorem delegation_never_amplifies_witness:
  "narrows demo_L (lib_cap demo_L (last (gr_chain demo_child))) (lib_cap demo_L (hd (gr_chain demo_child)))"
  by (rule delegation_never_amplifies [OF demo_issue_law demo_narrowing_law demo_child_delegated])
    (simp add: demo_child_def demo_root_def)

theorem verify_correct_witness:
  "documented_ok demo_L demo_checks (demo_node 1) [] [] 5 (demo_node 3) ''s:r'' (gr_chain demo_child)
     (\<lambda>_ _. False)"
proof -
  have "lib_decode_chain demo_L (gr_token demo_child) = Inr (gr_chain demo_child)"
    by code_simp
  then show ?thesis
    using demo_child_accepted unfolding verify_correct [OF demo_authorize_law]
    by (simp add: demo_iam_def)
qed

lemma verify_dead_link_witness:
  "\<exists>e. verify demo_L demo_iam (demo_node 1) [] 5 (Principal (demo_node 3)) ''s:r'' (gr_token demo_child)
     (\<lambda>i n. n = 7) = Inl (Denied e)"
proof (rule verify_dead_link [OF demo_authorize_law demo_child_decodes])
  show "hd (gr_chain demo_child) \<in> set (gr_chain demo_child)"
    by (simp add: demo_child_def demo_root_def)
  show "\<not> link_live (lib_cap demo_L (hd (gr_chain demo_child))) 5 (\<lambda>i n. n = 7)"
    by code_simp
qed

theorem verified_action_was_minted_witness: "policy_covers demo_iam demo_root_policy ''s:r''"
proof (rule verified_action_was_minted [OF demo_issue_law demo_narrowing_law demo_authorize_law
      demo_child_delegated _ demo_child_accepted])
  show "lib_decode_chain demo_L (gr_token demo_child) = Inr (gr_chain demo_child)"
    by code_simp
qed

lemma delegated_token_verifies_witness:
  "verify demo_L demo_iam (demo_node 1) [] 5 (Principal (demo_node 3)) ''s:r'' (gr_token demo_child)
     (\<lambda>_ _. False) = Inr ()"
  by (rule delegated_token_verifies [OF demo_issue_law demo_authorize_law demo_child_delegated
      demo_child_decodes]) code_simp+

lemma attenuate_exact_witness:
  "\<exists>r. attenuate own_hex demo_L demo_iam (demo_node 2) demo_root (Principal (demo_node 3))
     demo_root_policy 9 = Some r"
  using attenuate_exact [OF demo_issue_law demo_root_delegated,
      of "demo_node 2" "Principal (demo_node 3)" demo_root_policy 9] by blast

lemma reissue_preserves_witness:
  "\<exists>g'. reissue_under demo_L (demo_node 4) demo_root 3 = Some (Inr g') \<and>
     minted_cap demo_L g' = (minted_cap demo_L demo_root)\<lparr>cap_issuer := demo_node 4, cap_nonce := 3\<rparr>"
proof -
  have "reissue_under demo_L (demo_node 4) demo_root 3 = Some (Inr (grant_from_chain demo_L
      [demo_issue (demo_node 4) (demo_node 2) [''s:r'', ''s:w''] RAny (to_caveats default_conditions) 3
        None]))" (is "_ = Some (Inr ?g)")
    by code_simp
  moreover have "lib_node_id demo_L (demo_node 4) = demo_node 4"
    by (simp add: demo_lib_def demo_base_def)
  ultimately show ?thesis
    using reissue_preserves [OF demo_issue_law, of "gr_chain demo_child" "demo_node 4" demo_root 3 ?g]
    by auto
qed

lemma inspect_agrees_with_verify_witness:
  "\<exists>sc. inspect own_hex demo_L demo_iam (gr_token demo_child) = Inr sc \<and> ''s:r'' \<in> set (sc_abilities sc)"
  using inspect_agrees_with_verify [OF demo_authorize_law demo_child_accepted, of own_hex] by blast

end
