(* ===== verification/Catalog.thy ===== *)
theory Catalog
  imports Delegation
begin

text \<open>
  \<open>catalog.rs\<close>: the role and policy catalog as a replicated state machine. An operation log is
  replayed in order; the catalog holds named roles, named policies and the roles attached to each
  principal, with a version and a bounded audit trail.
\<close>

section \<open>Replicated state machines\<close>

text \<open>
  \<open>StateMachine\<close> of \<open>ce_coord\<close> as this code uses it: one deterministic step per logged operation,
  counted by a version, keeping an invariant.
\<close>

fun all_admissible :: "('s \<Rightarrow> 'op \<Rightarrow> 's) \<Rightarrow> ('s \<Rightarrow> 'op \<Rightarrow> bool) \<Rightarrow> 's \<Rightarrow> 'op list \<Rightarrow> bool" where
  "all_admissible step adm s [] \<longleftrightarrow> True"
| "all_admissible step adm s (x # xs) \<longleftrightarrow> adm s x \<and> all_admissible step adm (step s x) xs"

lemma unat_of_nat_u64: "k < 2 ^ 64 \<Longrightarrow> unat (of_nat k :: u64) = k"
  by (simp add: unsigned_of_nat take_bit_nat_eq_self)

locale state_machine =
  fixes init :: 's
    and step :: "'s \<Rightarrow> 'op \<Rightarrow> 's"
    and ver :: "'s \<Rightarrow> u64"
    and inv :: "'s \<Rightarrow> bool"
    and adm :: "'s \<Rightarrow> 'op \<Rightarrow> bool"
  assumes ver_init: "ver init = 0"
    and ver_step: "ver (step s x) = ver s + 1"
    and inv_init: "inv init"
    and inv_step: "inv s \<Longrightarrow> adm s x \<Longrightarrow> inv (step s x)"
begin

lemma ver_run: "ver (foldl step s ops) = ver s + of_nat (length ops)"
  by (induction ops arbitrary: s) (simp_all add: ver_step)

lemma ver_replay: "ver (foldl step init ops) = of_nat (length ops)"
  by (simp add: ver_run ver_init)

lemma inv_run: "inv s \<Longrightarrow> all_admissible step adm s ops \<Longrightarrow> inv (foldl step s ops)"
  by (induction ops arbitrary: s) (simp_all add: inv_step)

lemma inv_replay: "all_admissible step adm init ops \<Longrightarrow> inv (foldl step init ops)"
  by (rule inv_run [OF inv_init])

text \<open>A reader that has caught up to a prefix of the log and replays the rest is the writer.\<close>

lemma catch_up: "foldl step (foldl step init (take n ops)) (drop n ops) = foldl step init ops"
  by (metis append_take_drop_id foldl_append)

text \<open>Equal versions of one log (short of wrap-around) mean equal states.\<close>

lemma same_version_same_state:
  assumes "ver (foldl step init (take m ops)) = ver (foldl step init (take n ops))"
    and "m \<le> length ops" "n \<le> length ops" "length ops < 2 ^ 64"
  shows "foldl step init (take m ops) = foldl step init (take n ops)"
proof -
  have "(of_nat m :: u64) = of_nat n"
    using assms(1-3) by (simp add: ver_replay min_absorb2)
  moreover have "unat (of_nat k :: u64) = k" if "k \<le> length ops" for k
    using that assms(4) by (simp add: unat_of_nat_u64)
  ultimately have "m = n"
    using assms(2,3) by metis
  then show ?thesis by simp
qed

end

section \<open>The catalog\<close>

definition MAX_AUDIT_ENTRIES :: nat where
  "MAX_AUDIT_ENTRIES = 10000"

datatype catalog_op =
    PutRole role
  | RemoveRole string
  | PutPolicy string policy
  | RemovePolicy string
  | AttachRole principal string
  | DetachRole principal string

fun audit_action :: "catalog_op \<Rightarrow> string" where
  "audit_action (PutRole _) = ''put_role''"
| "audit_action (RemoveRole _) = ''remove_role''"
| "audit_action (PutPolicy _ _) = ''put_policy''"
| "audit_action (RemovePolicy _) = ''remove_policy''"
| "audit_action (AttachRole _ _) = ''attach_role''"
| "audit_action (DetachRole _ _) = ''detach_role''"

fun audit_target :: "hex_lib \<Rightarrow> catalog_op \<Rightarrow> string" where
  "audit_target H (PutRole r) = role_name r"
| "audit_target H (RemoveRole n) = n"
| "audit_target H (PutPolicy n _) = n"
| "audit_target H (RemovePolicy n) = n"
| "audit_target H (AttachRole p r) = r @ ''@'' @ principal_display H p"
| "audit_target H (DetachRole p r) = r @ ''@'' @ principal_display H p"

record audit_entry =
  ae_version :: u64
  ae_action :: string
  ae_target :: string
  ae_actor :: "string option"

record effective_grant =
  eg_abilities :: "string list"
  eg_resource :: resource_match
  eg_conditions :: conditions
  eg_from_roles :: "string list"

record catalog =
  cat_roles :: "(string, role) btree"
  cat_policies :: "(string, policy) btree"
  cat_attachments :: "(string, string list) btree"
  cat_version :: u64
  cat_audit :: "audit_entry list"

definition catalog_new :: catalog where
  "catalog_new = \<lparr>cat_roles = [], cat_policies = [], cat_attachments = [], cat_version = 0,
     cat_audit = []\<rparr>"

text \<open>The effect of an operation on the maps, then the version and the audit trail.\<close>

definition attach_to :: "string \<Rightarrow> string list \<Rightarrow> string list" where
  "attach_to role entry = (if role \<in> set entry then entry else sort (entry @ [role]))"

fun catalog_effect :: "hex_lib \<Rightarrow> catalog_op \<Rightarrow> catalog \<Rightarrow> catalog" where
  "catalog_effect H (PutRole r) c = c\<lparr>cat_roles := bt_insert (role_name r) r (cat_roles c)\<rparr>"
| "catalog_effect H (RemoveRole name) c =
     c\<lparr>cat_roles := bt_remove name (cat_roles c),
       cat_attachments := bt_retain (\<lambda>_ roles. roles \<noteq> [])
         (bt_map_values (filter (\<lambda>r. r \<noteq> name)) (cat_attachments c))\<rparr>"
| "catalog_effect H (PutPolicy name p) c = c\<lparr>cat_policies := bt_insert name p (cat_policies c)\<rparr>"
| "catalog_effect H (RemovePolicy name) c = c\<lparr>cat_policies := bt_remove name (cat_policies c)\<rparr>"
| "catalog_effect H (AttachRole p role) c =
     c\<lparr>cat_attachments := bt_insert (principal_hex H p)
         (attach_to role (unwrap_or (bt_get (cat_attachments c) (principal_hex H p)) []))
         (cat_attachments c)\<rparr>"
| "catalog_effect H (DetachRole p role) c =
     (case bt_get (cat_attachments c) (principal_hex H p) of
        None \<Rightarrow> c
      | Some entry \<Rightarrow>
          (let entry' = filter (\<lambda>r. r \<noteq> role) entry in
           if entry' = [] then c\<lparr>cat_attachments := bt_remove (principal_hex H p) (cat_attachments c)\<rparr>
           else c\<lparr>cat_attachments := bt_insert (principal_hex H p) entry' (cat_attachments c)\<rparr>))"

definition drop_overflow :: "nat \<Rightarrow> 'a list \<Rightarrow> 'a list" where
  "drop_overflow n xs = (if length xs > n then drop (length xs - n) xs else xs)"

definition catalog_apply :: "hex_lib \<Rightarrow> catalog \<Rightarrow> catalog_op \<Rightarrow> principal option \<Rightarrow> catalog" where
  "catalog_apply H c op actor =
     (let c1 = catalog_effect H op c;
          v = cat_version c1 + 1;
          audit = cat_audit c1 @ [\<lparr>ae_version = v, ae_action = audit_action op,
            ae_target = audit_target H op, ae_actor = map_option (principal_hex H) actor\<rparr>]
      in c1\<lparr>cat_version := v,
            cat_audit := drop_overflow MAX_AUDIT_ENTRIES audit\<rparr>)"

section \<open>Operations\<close>

definition put_role :: "hex_lib \<Rightarrow> role \<Rightarrow> principal option \<Rightarrow> (catalog, iam_error, u64) act" where
  "put_role H role actor c =
     (if trim (role_name role) = [] then (Inl (BadPolicy EmptyRoleName), c)
      else (let c' = catalog_apply H c (PutRole role) actor in (Inr (cat_version c'), c')))"

definition get_role :: "catalog \<Rightarrow> string \<Rightarrow> role option" where
  "get_role c name = bt_get (cat_roles c) name"

definition list_roles :: "catalog \<Rightarrow> string list" where
  "list_roles c = bt_keys (cat_roles c)"

definition remove_role :: "hex_lib \<Rightarrow> string \<Rightarrow> principal option \<Rightarrow> catalog \<Rightarrow> u64 \<times> catalog" where
  "remove_role H name actor c =
     (let c' = catalog_apply H c (RemoveRole name) actor in (cat_version c', c'))"

definition put_policy ::
  "hex_lib \<Rightarrow> string \<Rightarrow> policy \<Rightarrow> principal option \<Rightarrow> (catalog, iam_error, u64) act" where
  "put_policy H name p actor c =
     (if trim name = [] then (Inl (BadPolicy EmptyPolicyName), c)
      else (let c' = catalog_apply H c (PutPolicy name p) actor in (Inr (cat_version c'), c')))"

definition get_policy :: "catalog \<Rightarrow> string \<Rightarrow> policy option" where
  "get_policy c name = bt_get (cat_policies c) name"

definition list_policies :: "catalog \<Rightarrow> string list" where
  "list_policies c = bt_keys (cat_policies c)"

definition remove_policy :: "hex_lib \<Rightarrow> string \<Rightarrow> principal option \<Rightarrow> catalog \<Rightarrow> u64 \<times> catalog" where
  "remove_policy H name actor c =
     (let c' = catalog_apply H c (RemovePolicy name) actor in (cat_version c', c'))"

definition attach_role ::
  "hex_lib \<Rightarrow> principal \<Rightarrow> string \<Rightarrow> principal option \<Rightarrow> (catalog, iam_error, u64) act" where
  "attach_role H p role actor c =
     (if bt_get (cat_roles c) role = None then (Inl (BadPolicy (NoRoleToAttach role)), c)
      else (let c' = catalog_apply H c (AttachRole p role) actor in (Inr (cat_version c'), c')))"

definition detach_role ::
  "hex_lib \<Rightarrow> principal \<Rightarrow> string \<Rightarrow> principal option \<Rightarrow> catalog \<Rightarrow> u64 \<times> catalog" where
  "detach_role H p role actor c =
     (let c' = catalog_apply H c (DetachRole p role) actor in (cat_version c', c'))"

definition roles_for :: "hex_lib \<Rightarrow> catalog \<Rightarrow> principal \<Rightarrow> string list" where
  "roles_for H c p = unwrap_or (bt_get (cat_attachments c) (principal_hex H p)) []"

definition all_attachments :: "hex_lib \<Rightarrow> catalog \<Rightarrow> (principal \<times> string) list" where
  "all_attachments H c = concat (map (\<lambda>(h, roles).
     case principal_parse H h of Inl _ \<Rightarrow> [] | Inr p \<Rightarrow> map (Pair p) roles) (cat_attachments c))"

definition principals_with_roles :: "hex_lib \<Rightarrow> catalog \<Rightarrow> principal list" where
  "principals_with_roles H c = List.map_filter (\<lambda>h. ok (principal_parse H h)) (bt_keys (cat_attachments c))"

definition audit_since :: "catalog \<Rightarrow> u64 \<Rightarrow> audit_entry list" where
  "audit_since c after = filter (\<lambda>e. ae_version e > after) (cat_audit c)"

section \<open>Effective grants\<close>

type_synonym eff_groups =
  "(string, resource_match \<times> conditions \<times> string list \<times> string list) btree"

fun eff_statements :: "scope_key_fn \<Rightarrow> string \<Rightarrow> eff_groups \<Rightarrow> statement list \<Rightarrow> iam_error + eff_groups" where
  "eff_statements key rn groups [] = Inr groups"
| "eff_statements key rn groups (s # rest) =
     (if st_effect s \<noteq> Allow then eff_statements key rn groups rest
      else if st_actions s = [] then Inl (BadPolicy (AllowNoActions rn))
      else and_then (map_err (\<lambda>e. BadPolicy (CannotKeyScope e)) (key (st_resource s) (st_conditions s)))
        (\<lambda>k.
         let (r, c, abilities, from) =
           unwrap_or (bt_get groups k) (st_resource s, st_conditions s, [], []) in
         eff_statements key rn
           (bt_insert k (r, c, abilities @ st_actions s,
              if rn \<in> set from then from else from @ [rn]) groups) rest))"

fun eff_roles :: "scope_key_fn \<Rightarrow> catalog \<Rightarrow> eff_groups \<Rightarrow> string list \<Rightarrow> iam_error + eff_groups" where
  "eff_roles key c groups [] = Inr groups"
| "eff_roles key c groups (rn # rest) =
     (case bt_get (cat_roles c) rn of
        None \<Rightarrow> Inl (BadPolicy (MissingAttachedRole rn))
      | Some role \<Rightarrow>
          and_then (eff_statements key rn groups (pol_statements (role_policy role)))
            (\<lambda>groups'. eff_roles key c groups' rest))"

definition effective_grants ::
  "hex_lib \<Rightarrow> scope_key_fn \<Rightarrow> catalog \<Rightarrow> principal \<Rightarrow> iam_error + effective_grant list" where
  "effective_grants H key c p =
     and_then (eff_roles key c bt_empty (roles_for H c p)) (\<lambda>groups.
       Inr (map (\<lambda>(r, cd, abilities, from).
         \<lparr>eg_abilities = sort_dedup abilities, eg_resource = r, eg_conditions = cd,
          eg_from_roles = sort_dedup from\<rparr>) (bt_values groups)))"

text \<open>\<open>Iam::mint_role\<close> of \<open>grant.rs\<close>: minting from a role of the catalog.\<close>

definition mint_role :: "hex_lib \<Rightarrow> ('i, 's) cap_lib \<Rightarrow> iam \<Rightarrow> 'i \<Rightarrow> principal \<Rightarrow> catalog \<Rightarrow> string \<Rightarrow> u64 \<Rightarrow>
    iam_error + 's grant" where
  "mint_role H L i issuer audience c name nonce =
     and_then (ok_or (get_role c name) (BadPolicy (NoSuchRole name))) (\<lambda>r.
       mint H L i issuer audience (role_policy r) nonce)"

section \<open>The operation log\<close>

record catalog_log =
  log_entries :: "(catalog_op \<times> string option) list"

definition log_new :: catalog_log where
  "log_new = \<lparr>log_entries = []\<rparr>"

definition log_record ::
  "hex_lib \<Rightarrow> catalog_log \<Rightarrow> catalog_op \<Rightarrow> principal option \<Rightarrow> u64 \<times> catalog_log" where
  "log_record H l op actor =
     (let l' = l\<lparr>log_entries := log_entries l @ [(op, map_option (principal_hex H) actor)]\<rparr>
      in (of_nat (length (log_entries l')), l'))"

definition log_len :: "catalog_log \<Rightarrow> nat" where
  "log_len l = length (log_entries l)"

text \<open>\<open>upto as usize\<close> on a 64-bit target keeps the number.\<close>

definition replay_entry :: "hex_lib \<Rightarrow> catalog \<Rightarrow> catalog_op \<times> string option \<Rightarrow> catalog" where
  "replay_entry H c e =
     catalog_apply H c (fst e) (Option.bind (snd e) (\<lambda>h. ok (principal_parse H h)))"

definition replay_through :: "hex_lib \<Rightarrow> catalog_log \<Rightarrow> u64 \<Rightarrow> catalog" where
  "replay_through H l n = foldl (replay_entry H) catalog_new (take (unat n) (log_entries l))"

definition log_replay :: "hex_lib \<Rightarrow> catalog_log \<Rightarrow> catalog" where
  "log_replay H l = replay_through H l (of_nat (length (log_entries l)))"

section \<open>The invariant\<close>

definition attachment_ok :: "hex_lib \<Rightarrow> string \<Rightarrow> string list \<Rightarrow> bool" where
  "attachment_ok H h roles \<longleftrightarrow> roles \<noteq> [] \<and> sorted roles \<and> distinct roles \<and>
     (\<exists>p. principal_ok p \<and> principal_hex H p = h)"

definition catalog_inv :: "hex_lib \<Rightarrow> catalog \<Rightarrow> bool" where
  "catalog_inv H c \<longleftrightarrow>
     bt_ok (cat_roles c) \<and> bt_ok (cat_policies c) \<and> bt_ok (cat_attachments c) \<and>
     (\<forall>k r. bt_get (cat_roles c) k = Some r \<longrightarrow> role_name r = k) \<and>
     (\<forall>h roles. bt_get (cat_attachments c) h = Some roles \<longrightarrow> attachment_ok H h roles) \<and>
     length (cat_audit c) \<le> MAX_AUDIT_ENTRIES"

text \<open>Every attached role exists: what removing a role everywhere, and the check on attaching, keep.\<close>

definition attached_exist :: "catalog \<Rightarrow> bool" where
  "attached_exist c \<longleftrightarrow> (\<forall>h roles r. bt_get (cat_attachments c) h = Some roles \<longrightarrow> r \<in> set roles \<longrightarrow>
     bt_get (cat_roles c) r \<noteq> None)"

fun op_principal_ok :: "catalog_op \<Rightarrow> bool" where
  "op_principal_ok (AttachRole p _) = principal_ok p"
| "op_principal_ok (DetachRole p _) = principal_ok p"
| "op_principal_ok _ = True"

fun op_admissible :: "catalog \<Rightarrow> catalog_op \<Rightarrow> bool" where
  "op_admissible c (AttachRole _ role) = (bt_get (cat_roles c) role \<noteq> None)"
| "op_admissible c _ = True"

definition same_maps :: "catalog \<Rightarrow> catalog \<Rightarrow> bool" where
  "same_maps c c' \<longleftrightarrow> cat_roles c = cat_roles c' \<and> cat_policies c = cat_policies c' \<and>
     cat_attachments c = cat_attachments c'"

lemma apply_maps [simp]:
  "cat_roles (catalog_apply H c op actor) = cat_roles (catalog_effect H op c)"
  "cat_policies (catalog_apply H c op actor) = cat_policies (catalog_effect H op c)"
  "cat_attachments (catalog_apply H c op actor) = cat_attachments (catalog_effect H op c)"
  by (simp_all add: catalog_apply_def Let_def)

lemma effect_version [simp]: "cat_version (catalog_effect H op c) = cat_version c"
  by (cases op) (auto simp: Let_def split: option.splits)

lemma effect_audit [simp]: "cat_audit (catalog_effect H op c) = cat_audit c"
  by (cases op) (auto simp: Let_def split: option.splits)

lemma apply_version: "cat_version (catalog_apply H c op actor) = cat_version c + 1"
  by (simp add: catalog_apply_def Let_def)

lemma drop_overflow_length: "length (drop_overflow n xs) \<le> n"
  by (auto simp: drop_overflow_def)

lemma drop_overflow_snoc: "drop_overflow n (drop_overflow n xs @ [x]) = drop_overflow n (xs @ [x])"
  by (cases "n = 0") (auto simp: drop_overflow_def Suc_diff_le)

lemma apply_audit_len:
  "length (cat_audit (catalog_apply H c op actor)) \<le> MAX_AUDIT_ENTRIES"
  by (simp add: catalog_apply_def Let_def drop_overflow_length)

lemma attach_to_ok:
  "sorted roles \<Longrightarrow> distinct roles \<Longrightarrow>
   attach_to r roles \<noteq> [] \<and> sorted (attach_to r roles) \<and> distinct (attach_to r roles) \<and>
   set (attach_to r roles) = insert r (set roles)"
proof -
  have "set (sort (roles @ [r])) = insert r (set roles)" by simp
  then have "sort (roles @ [r]) \<noteq> []" by (metis empty_set insert_not_empty)
  then show "sorted roles \<Longrightarrow> distinct roles \<Longrightarrow> ?thesis"
    by (auto simp: attach_to_def)
qed

lemma effect_maps_ok:
  assumes "bt_ok (cat_roles c) \<and> bt_ok (cat_policies c) \<and> bt_ok (cat_attachments c)"
  shows "bt_ok (cat_roles (catalog_effect H op c)) \<and> bt_ok (cat_policies (catalog_effect H op c)) \<and>
    bt_ok (cat_attachments (catalog_effect H op c))"
  using assms by (cases op) (auto simp: keeps_ok Let_def split: option.splits)

lemma effect_names_ok:
  assumes "\<forall>k r. bt_get (cat_roles c) k = Some r \<longrightarrow> role_name r = k"
    and "bt_get (cat_roles (catalog_effect H op c)) k = Some r"
  shows "role_name r = k"
  using assms by (cases op) (auto simp: btree_simps Let_def split: option.splits if_splits)

lemma effect_attachments_ok:
  assumes inv: "\<forall>h roles. bt_get (cat_attachments c) h = Some roles \<longrightarrow> attachment_ok H h roles"
    and m: "bt_ok (cat_attachments c)" and p: "op_principal_ok op"
    and g: "bt_get (cat_attachments (catalog_effect H op c)) h = Some roles"
  shows "attachment_ok H h roles"
proof (cases op)
  case (AttachRole p r)
  have "sorted (unwrap_or (bt_get (cat_attachments c) (principal_hex H p)) []) \<and>
      distinct (unwrap_or (bt_get (cat_attachments c) (principal_hex H p)) [])"
    using inv by (auto simp: unwrap_or_def attachment_ok_def split: option.splits)
  from attach_to_ok [of _ r, OF this [THEN conjunct1] this [THEN conjunct2]] show ?thesis
    using AttachRole inv p g by (auto simp: attachment_ok_def btree_simps split: if_splits)
next
  case (RemoveRole name)
  then show ?thesis
    using inv g m by (auto simp: attachment_ok_def btree_simps keeps_ok sorted_wrt_filter split: option.splits if_splits)
next
  case (DetachRole p r)
  then show ?thesis
    using inv g m by (auto simp: attachment_ok_def btree_simps keeps_ok sorted_wrt_filter Let_def
        split: option.splits if_splits)
qed (use inv g in auto)

lemma catalog_new_inv: "catalog_inv H catalog_new" "attached_exist catalog_new"
  by (simp_all add: catalog_inv_def attached_exist_def catalog_new_def btree_simps)

lemma catalog_apply_inv:
  assumes inv: "catalog_inv H c" and p: "op_principal_ok op"
  shows "catalog_inv H (catalog_apply H c op actor)"
  using effect_maps_ok [of c H op] effect_names_ok [of c H op] effect_attachments_ok [of c H op]
    apply_audit_len [of H c op actor] inv p
  unfolding catalog_inv_def apply_maps by blast

lemma catalog_apply_attached:
  assumes "attached_exist c" "bt_ok (cat_attachments c)" "op_admissible c op"
  shows "attached_exist (catalog_apply H c op actor)"
proof (cases op)
  case (AttachRole p r)
  have old: "bt_get (cat_roles c) x \<noteq> None"
    if "x \<in> set (unwrap_or (bt_get (cat_attachments c) h) [])" for x h
    using that assms(1) by (cases "bt_get (cat_attachments c) h") (auto simp: attached_exist_def unwrap_or_def)
  have "bt_get (cat_roles c) x \<noteq> None" if "x \<in> set (attach_to r (unwrap_or (bt_get (cat_attachments c) h) []))"
    for x h
    using that old [of x h] AttachRole assms(3) by (auto simp: attach_to_def split: if_splits)
  with AttachRole assms(1) show ?thesis
    by (fastforce simp: attached_exist_def btree_simps split: if_splits)
qed (use assms in \<open>auto simp: attached_exist_def btree_simps keeps_ok Let_def
    split: option.splits if_splits\<close>)

definition catalog_step :: "hex_lib \<Rightarrow> catalog \<Rightarrow> catalog_op \<times> principal option \<Rightarrow> catalog" where
  "catalog_step H c e = catalog_apply H c (fst e) (snd e)"

definition catalog_good :: "hex_lib \<Rightarrow> catalog \<Rightarrow> bool" where
  "catalog_good H c \<longleftrightarrow> catalog_inv H c \<and> attached_exist c"

definition op_good :: "catalog \<Rightarrow> catalog_op \<Rightarrow> bool" where
  "op_good c op \<longleftrightarrow> op_principal_ok op \<and> op_admissible c op"

lemma catalog_apply_good:
  "catalog_good H c \<Longrightarrow> op_good c op \<Longrightarrow> catalog_good H (catalog_apply H c op actor)"
  unfolding catalog_good_def op_good_def
  using catalog_apply_inv catalog_apply_attached by (metis catalog_inv_def)

lemma catalog_new_good: "catalog_good H catalog_new"
  by (simp add: catalog_good_def catalog_new_inv)

lemma catalog_new_version: "cat_version catalog_new = 0"
  by (simp add: catalog_new_def)

interpretation cat_sm: state_machine catalog_new "catalog_step H" cat_version "catalog_good H"
  "\<lambda>c e. op_good c (fst e)" for H
  by unfold_locales
    (simp_all add: catalog_new_version apply_version catalog_step_def catalog_apply_good catalog_new_good)

section \<open>The methods keep the invariant\<close>

text \<open>The catalogs the public methods can reach from the empty one, failed calls included.\<close>

inductive catalog_reachable :: "hex_lib \<Rightarrow> catalog \<Rightarrow> bool" for H :: hex_lib where
  cr_new: "catalog_reachable H catalog_new"
| cr_put_role: "catalog_reachable H c \<Longrightarrow> catalog_reachable H (snd (put_role H r actor c))"
| cr_remove_role: "catalog_reachable H c \<Longrightarrow> catalog_reachable H (snd (remove_role H name actor c))"
| cr_put_policy: "catalog_reachable H c \<Longrightarrow> catalog_reachable H (snd (put_policy H name p actor c))"
| cr_remove_policy: "catalog_reachable H c \<Longrightarrow> catalog_reachable H (snd (remove_policy H name actor c))"
| cr_attach: "catalog_reachable H c \<Longrightarrow> principal_ok q \<Longrightarrow>
    catalog_reachable H (snd (attach_role H q name actor c))"
| cr_detach: "catalog_reachable H c \<Longrightarrow> principal_ok q \<Longrightarrow>
    catalog_reachable H (snd (detach_role H q name actor c))"

lemma catalog_reachable_good: "catalog_reachable H c \<Longrightarrow> catalog_good H c"
proof (induction rule: catalog_reachable.induct)
  case cr_new
  then show ?case by (simp add: catalog_good_def catalog_new_inv)
qed (auto simp: put_role_def remove_role_def put_policy_def remove_policy_def attach_role_def
    detach_role_def Let_def op_good_def intro!: catalog_apply_good)


section \<open>Replication\<close>

text \<open>The writer applies each operation to its catalog and records it in its log.\<close>

definition writer_step :: "hex_lib \<Rightarrow> catalog_log \<times> catalog \<Rightarrow> catalog_op \<times> principal option \<Rightarrow>
    catalog_log \<times> catalog" where
  "writer_step H w e =
     (snd (log_record H (fst w) (fst e) (snd e)), catalog_apply H (snd w) (fst e) (snd e))"

definition writer_run :: "hex_lib \<Rightarrow> (catalog_op \<times> principal option) list \<Rightarrow> catalog_log \<times> catalog" where
  "writer_run H ops = foldl (writer_step H) (log_new, catalog_new) ops"

definition logged :: "hex_lib \<Rightarrow> catalog_op \<times> principal option \<Rightarrow> catalog_op \<times> string option" where
  "logged H e = (fst e, map_option (principal_hex H) (snd e))"

lemma writer_run_eq:
  "writer_run H ops = (\<lparr>log_entries = map (logged H) ops\<rparr>, foldl (catalog_step H) catalog_new ops)"
proof -
  have "foldl (writer_step H) (l, c) ops =
      (\<lparr>log_entries = log_entries l @ map (logged H) ops\<rparr>, foldl (catalog_step H) c ops)" for l c
    by (induction ops arbitrary: l c)
      (simp_all add: writer_step_def log_record_def logged_def catalog_step_def Let_def)
  then show ?thesis by (simp add: writer_run_def log_new_def)
qed

lemma replay_entry_logged:
  assumes "hex_lib_ok H" "pred_option principal_ok (snd e)"
  shows "replay_entry H c (logged H e) = catalog_step H c e"
  using assms(2) parse_principal_hex [OF assms(1)]
  by (cases "snd e") (simp_all add: replay_entry_def logged_def catalog_step_def ok_def)

text \<open>
  Replicas converge: a reader that replays the first \<open>n\<close> entries of the writer's log, in
  which the actors are written as hex, has exactly the catalog that the writer had after \<open>n\<close>
  operations, audit trail included, at version \<open>n\<close>; the whole log reproduces the writer's catalog.
\<close>

lemma catalog_replay_converges:
  assumes "hex_lib_ok H" and "\<forall>e \<in> set ops. pred_option principal_ok (snd e)"
    and "length ops < 2 ^ 64" and "n \<le> length ops"
  shows "replay_through H (fst (writer_run H ops)) (of_nat n) = snd (writer_run H (take n ops)) \<and>
    cat_version (replay_through H (fst (writer_run H ops)) (of_nat n)) = of_nat n \<and>
    log_replay H (fst (writer_run H ops)) = snd (writer_run H ops) \<and>
    log_len (fst (writer_run H ops)) = length ops"
proof -
  have fold: "foldl (replay_entry H) c (map (logged H) es) = foldl (catalog_step H) c es"
    if "\<forall>e \<in> set es. pred_option principal_ok (snd e)" for c es
    using that by (induction es arbitrary: c) (simp_all add: replay_entry_logged [OF assms(1)])
  have through: "replay_through H (fst (writer_run H ops)) (of_nat k) =
      foldl (catalog_step H) catalog_new (take k ops)" if "k \<le> length ops" for k
    using that assms(2,3) fold [of "take k ops"] set_take_subset [of k ops]
    by (auto simp: replay_through_def writer_run_eq unat_of_nat_u64 take_map)
  show ?thesis
    using through [OF assms(4)] through [of "length ops"] assms(4)
    by (simp add: log_replay_def log_len_def writer_run_eq cat_sm.ver_replay min_absorb2)
qed

end
