(* ===== verification/Effective.thy ===== *)
theory Effective
  imports Catalog
begin

text \<open>
  What the catalog reports: the roles of a principal after each operation, the grants its roles
  would mint, grouped by scope, and the audit trail of the most recent changes.
\<close>

section \<open>Attachments\<close>

lemma roles_for_inv:
  assumes "catalog_inv H c"
  shows "sorted (roles_for H c p) \<and> distinct (roles_for H c p)"
  using assms
  by (cases "bt_get (cat_attachments c) (principal_hex H p)")
    (auto simp: roles_for_def unwrap_or_def catalog_inv_def attachment_ok_def)

lemma roles_for_attached:
  "attached_exist c \<Longrightarrow> r \<in> set (roles_for H c p) \<Longrightarrow> bt_get (cat_roles c) r \<noteq> None"
  by (cases "bt_get (cat_attachments c) (principal_hex H p)")
    (auto simp: roles_for_def unwrap_or_def attached_exist_def)

lemma roles_for_put: "roles_for H (catalog_apply H c (PutRole r) a) p = roles_for H c p"
  by (simp add: roles_for_def)

lemma roles_for_remove:
  assumes "catalog_inv H c"
  shows "roles_for H (catalog_apply H c (RemoveRole name) a) p = filter (\<lambda>r. r \<noteq> name) (roles_for H c p)"
  using assms
  by (simp add: roles_for_def unwrap_or_def btree_simps keeps_ok catalog_inv_def split: option.splits)

lemma roles_for_attach:
  assumes "hex_lib_ok H"
  shows "roles_for H (catalog_apply H c (AttachRole q r) a) p =
    (if p = q then attach_to r (roles_for H c p) else roles_for H c p)"
  using principal_hex_inj [OF assms, of p q]
  by (auto simp: roles_for_def unwrap_or_def btree_simps)

lemma roles_for_detach:
  assumes "hex_lib_ok H"
  shows "roles_for H (catalog_apply H c (DetachRole q r) a) p =
    (if p = q then filter (\<lambda>x. x \<noteq> r) (roles_for H c p) else roles_for H c p)"
  using principal_hex_inj [OF assms, of p q]
  by (auto simp: roles_for_def unwrap_or_def btree_simps Let_def split: option.splits)

text \<open>
  Attachments mean what they say: attaching adds the role to that principal alone,
  detaching removes it from that principal alone, and removing a role detaches it from everyone, so
  that no principal keeps a role that is gone and nobody else's roles change.
\<close>

lemma attachments_correct:
  assumes "hex_lib_ok H" "catalog_inv H c"
  shows "set (roles_for H (snd (detach_role H q r a c)) p) =
      (if p = q then set (roles_for H c p) - {r} else set (roles_for H c p)) \<and>
    set (roles_for H (snd (remove_role H r a c)) p) = set (roles_for H c p) - {r} \<and>
    get_role (snd (remove_role H r a c)) r = None \<and>
    set (roles_for H (snd (attach_role H q r a c)) p) =
      (if p = q \<and> get_role c r \<noteq> None then insert r (set (roles_for H c p))
       else set (roles_for H c p))"
proof -
  have "set (attach_to r (roles_for H c q)) = insert r (set (roles_for H c q))"
    using roles_for_inv [OF assms(2)] attach_to_ok by blast
  then have at: "set (roles_for H (catalog_apply H c (AttachRole q r) a) p) =
      (if p = q then insert r (set (roles_for H c p)) else set (roles_for H c p))"
    by (simp add: roles_for_attach [OF assms(1)])
  have "set (roles_for H (snd (attach_role H q r a c)) p) =
      (if p = q \<and> get_role c r \<noteq> None then insert r (set (roles_for H c p))
       else set (roles_for H c p))"
    using at by (cases "bt_get (cat_roles c) r") (simp_all add: attach_role_def get_role_def Let_def)
  moreover have "set (roles_for H (snd (detach_role H q r a c)) p) =
      (if p = q then set (roles_for H c p) - {r} else set (roles_for H c p))"
    by (auto simp: detach_role_def Let_def roles_for_detach [OF assms(1)])
  moreover have "set (roles_for H (snd (remove_role H r a c)) p) = set (roles_for H c p) - {r}"
    by (auto simp: remove_role_def Let_def roles_for_remove [OF assms(2)])
  moreover have "get_role (snd (remove_role H r a c)) r = None"
    by (simp add: remove_role_def get_role_def Let_def btree_simps)
  ultimately show ?thesis by blast
qed

section \<open>Effective grants\<close>

text \<open>
  The pairs of a role name and a statement that grant something. \<open>groups_repr\<close> says what the groups
  hold after a set of pairs has been processed.
\<close>

type_synonym source = "string \<times> statement"

definition srcs :: "scope_key_fn \<Rightarrow> source set \<Rightarrow> string \<Rightarrow> source set" where
  "srcs key S k = {e \<in> S. in_scope key k (snd e)}"

definition src_actions :: "source set \<Rightarrow> string set" where
  "src_actions S = (\<Union>e \<in> S. set (st_actions (snd e)))"

definition groups_repr :: "scope_key_fn \<Rightarrow> source set \<Rightarrow> eff_groups \<Rightarrow> bool" where
  "groups_repr key S groups \<longleftrightarrow> bt_ok groups \<and>
     (\<forall>e \<in> S. \<exists>k. in_scope key k (snd e)) \<and>
     (\<forall>k. case bt_get groups k of
        None \<Rightarrow> srcs key S k = {}
      | Some (r, c, ab, fr) \<Rightarrow> srcs key S k \<noteq> {} \<and> key r c = Inr k \<and>
          set ab = src_actions (srcs key S k) \<and> set fr = fst ` srcs key S k)"

lemma srcs_insert:
  "in_scope key k s \<Longrightarrow>
   srcs key (insert (rn, s) S) k' = (if k' = k then insert (rn, s) (srcs key S k) else srcs key S k')"
  using in_scope_unique [of key k s k'] by (auto simp: srcs_def)

lemma src_actions_insert:
  "src_actions (insert (rn, s) S) = set (st_actions s) \<union> src_actions S"
  by (simp add: src_actions_def)

lemma src_actions_srcs:
  "src_actions (srcs key S k) = {a. \<exists>rn s. (rn, s) \<in> S \<and> in_scope key k s \<and> a \<in> set (st_actions s)}"
  unfolding src_actions_def srcs_def by force

lemma groups_repr_empty: "groups_repr key {} bt_empty"
  by (simp add: groups_repr_def bt_empty_def btree_simps srcs_def)

lemma groups_repr_insert:
  assumes g: "groups_repr key S groups" and k: "in_scope key k s"
    and old: "unwrap_or (bt_get groups k) (st_resource s, st_conditions s, [], []) = (r, c, ab, fr)"
  shows "groups_repr key (insert (rn, s) S)
    (bt_insert k (r, c, ab @ st_actions s, if rn \<in> set fr then fr else fr @ [rn]) groups)"
proof -
  have grp: "case bt_get groups k' of
        None \<Rightarrow> srcs key S k' = {}
      | Some (r, c, ab, fr) \<Rightarrow> srcs key S k' \<noteq> {} \<and> key r c = Inr k' \<and>
          set ab = src_actions (srcs key S k') \<and> set fr = fst ` srcs key S k'" for k'
    using g by (simp add: groups_repr_def)
  have here: "key r c = Inr k" "set ab = src_actions (srcs key S k)" "set fr = fst ` srcs key S k"
    using grp [of k] old k
    by (cases "bt_get groups k"; auto simp: unwrap_or_def in_scope_def src_actions_def)+
  have "set (if rn \<in> set fr then fr else fr @ [rn]) = insert rn (fst ` srcs key S k)"
    using here(3) by auto
  then have "case bt_get (bt_insert k (r, c, ab @ st_actions s, if rn \<in> set fr then fr else fr @ [rn])
        groups) k' of
        None \<Rightarrow> srcs key (insert (rn, s) S) k' = {}
      | Some (r, c, ab, fr) \<Rightarrow> srcs key (insert (rn, s) S) k' \<noteq> {} \<and> key r c = Inr k' \<and>
          set ab = src_actions (srcs key (insert (rn, s) S) k') \<and>
          set fr = fst ` srcs key (insert (rn, s) S) k'" for k'
    using grp [of k'] here
    by (cases "k' = k"; cases "bt_get groups k'")
      (auto simp: bt_get_insert srcs_insert [OF k] src_actions_insert)
  moreover have "\<exists>k. in_scope key k (snd e)" if "e \<in> insert (rn, s) S" for e
    using g k that by (auto simp: groups_repr_def)
  ultimately show ?thesis
    using g unfolding groups_repr_def by (simp add: keeps_ok)
qed

definition role_sources :: "string \<Rightarrow> statement list \<Rightarrow> source set" where
  "role_sources rn ss = {(rn, s) | s. s \<in> set ss \<and> st_effect s = Allow}"

lemma eff_statements_repr:
  "eff_statements key rn groups ss = Inr groups' \<Longrightarrow> groups_repr key S groups \<Longrightarrow>
    groups_repr key (S \<union> role_sources rn ss) groups'"
proof (induction ss arbitrary: groups S)
  case Nil
  then show ?case by (simp add: role_sources_def)
next
  case (Cons s ss)
  show ?case
  proof (cases "st_effect s = Allow")
    case False
    then have "role_sources rn (s # ss) = role_sources rn ss"
      by (auto simp: role_sources_def)
    with False Cons show ?thesis by simp
  next
    case True
    with Cons.prems(1) obtain k where k: "in_scope key k s"
      by (auto simp: and_then_Inr in_scope_def split: if_splits)
    obtain r c ab fr where old:
      "unwrap_or (bt_get groups k) (st_resource s, st_conditions s, [], []) = (r, c, ab, fr)"
      by (rule prod_cases4)
    have "eff_statements key rn (bt_insert k (r, c, ab @ st_actions s,
        if rn \<in> set fr then fr else fr @ [rn]) groups) ss = Inr groups'"
      using Cons.prems(1) True k old by (simp add: in_scope_def result_simps split: if_splits)
    from Cons.IH [OF this groups_repr_insert [OF Cons.prems(2) k old, of rn]]
    moreover have "insert (rn, s) S \<union> role_sources rn ss = S \<union> role_sources rn (s # ss)"
      using True by (auto simp: role_sources_def)
    ultimately show ?thesis by simp
  qed
qed

definition catalog_sources :: "catalog \<Rightarrow> string list \<Rightarrow> source set" where
  "catalog_sources c rns = {(rn, s). rn \<in> set rns \<and>
     (\<exists>role. bt_get (cat_roles c) rn = Some role \<and> s \<in> set (pol_statements (role_policy role)) \<and>
        st_effect s = Allow)}"

lemma eff_roles_repr:
  "eff_roles key c groups rns = Inr groups' \<Longrightarrow> groups_repr key S groups \<Longrightarrow>
    groups_repr key (S \<union> catalog_sources c rns) groups'"
proof (induction rns arbitrary: groups S)
  case Nil
  then show ?case by (simp add: catalog_sources_def)
next
  case (Cons rn rns)
  then obtain role groups1 where role: "bt_get (cat_roles c) rn = Some role"
    and g1: "eff_statements key rn groups (pol_statements (role_policy role)) = Inr groups1"
    and rest: "eff_roles key c groups1 rns = Inr groups'"
    by (auto simp: and_then_Inr split: option.splits)
  have "S \<union> role_sources rn (pol_statements (role_policy role)) \<union> catalog_sources c rns =
      S \<union> catalog_sources c (rn # rns)"
    using role by (auto simp: catalog_sources_def role_sources_def)
  then show ?case
    using Cons.IH [OF rest eff_statements_repr [OF g1 Cons.prems(2)]] by simp
qed

text \<open>The groups of a catalog against its sources: what each holds, and that no two share a scope.\<close>

lemma groups_scope:
  assumes "groups_repr key S groups" "bt_get groups k = Some (r, cd, ab, fr)"
  shows "key r cd = Inr k \<and> set ab = {a. \<exists>rn s. (rn, s) \<in> S \<and> in_scope key k s \<and> a \<in> set (st_actions s)}"
proof -
  have "case bt_get groups k of
        None \<Rightarrow> srcs key S k = {}
      | Some (r, c, ab, fr) \<Rightarrow> srcs key S k \<noteq> {} \<and> key r c = Inr k \<and>
          set ab = src_actions (srcs key S k) \<and> set fr = fst ` srcs key S k"
    using assms(1) by (simp add: groups_repr_def)
  then show ?thesis
    using assms(2) by (simp add: src_actions_srcs)
qed

lemma groups_cover:
  assumes "groups_repr key S groups" "(rn, s) \<in> S"
  obtains k r cd ab fr where "in_scope key k s" "bt_get groups k = Some (r, cd, ab, fr)"
proof -
  have keyed: "\<And>e. e \<in> S \<Longrightarrow> \<exists>k. in_scope key k (snd e)"
    using assms(1) by (simp add: groups_repr_def)
  obtain k where k: "in_scope key k s"
    using keyed [OF assms(2)] by auto
  then have "srcs key S k \<noteq> {}"
    using assms(2) by (auto simp: srcs_def)
  moreover have "case bt_get groups k of
        None \<Rightarrow> srcs key S k = {}
      | Some (r, c, ab, fr) \<Rightarrow> srcs key S k \<noteq> {} \<and> key r c = Inr k \<and>
          set ab = src_actions (srcs key S k) \<and> set fr = fst ` srcs key S k"
    using assms(1) by (simp add: groups_repr_def)
  ultimately show thesis
    using that [OF k] by (auto split: option.splits)
qed

lemma groups_abilities:
  assumes "scope_key_law key" "groups_repr key S groups"
  shows "(\<exists>k ab fr. bt_get groups k = Some (r, cd, ab, fr) \<and> a \<in> set ab) \<longleftrightarrow>
    (\<exists>rn s. (rn, s) \<in> S \<and> st_resource s = r \<and> st_conditions s = cd \<and> a \<in> set (st_actions s))"
    (is "?held \<longleftrightarrow> ?sourced")
proof
  have same: "in_scope key k s \<longleftrightarrow> st_resource s = r \<and> st_conditions s = cd" if "key r cd = Inr k" for k s r cd
    using that assms(1) by (auto simp: scope_key_law_def in_scope_def)
  {
    assume ?held
    then obtain k ab fr where k: "bt_get groups k = Some (r, cd, ab, fr)" "a \<in> set ab" by blast
    from groups_scope [OF assms(2) k(1)] k(2) same show ?sourced by blast
  next
    assume ?sourced
    then obtain rn s where s: "(rn, s) \<in> S" "st_resource s = r" "st_conditions s = cd" "a \<in> set (st_actions s)"
      by blast
    obtain k r' cd' ab fr where k: "in_scope key k s" "bt_get groups k = Some (r', cd', ab, fr)"
      by (rule groups_cover [OF assms(2) s(1)])
    have "r' = r \<and> cd' = cd" "a \<in> set ab"
      using groups_scope [OF assms(2) k(2)] same [of r' cd' k s] s k(1) by auto
    with k(2) show ?held by blast
  }
qed

lemma groups_distinct:
  assumes "groups_repr key S groups"
  shows "distinct (map (\<lambda>e. (fst (snd e), fst (snd (snd e)))) groups)"
proof -
  have ok: "bt_ok groups"
    using assms by (simp add: groups_repr_def)
  have "inj_on (\<lambda>e. (fst (snd e), fst (snd (snd e)))) (set groups)"
  proof (rule inj_onI)
    fix e e'
    assume e: "e \<in> set groups" "e' \<in> set groups"
      and eq: "(fst (snd e), fst (snd (snd e))) = (fst (snd e'), fst (snd (snd e')))"
    obtain k r cd ab fr where 1: "e = (k, r, cd, ab, fr)" by (cases e) auto
    obtain k' r' cd' ab' fr' where 2: "e' = (k', r', cd', ab', fr')" by (cases e') auto
    have get: "bt_get groups k = Some (r, cd, ab, fr)" "bt_get groups k' = Some (r', cd', ab', fr')"
      using e by (simp_all add: 1 2 bt_get_Some_set [OF ok])
    then have "k = k'"
      using groups_scope [OF assms get(1)] groups_scope [OF assms get(2)] eq 1 2 by simp
    with get 1 2 show "e = e'" by simp
  qed
  moreover have "distinct (map fst groups)"
    using ok by (simp add: bt_ok_def strict_sorted_iff)
  ultimately show ?thesis
    by (simp add: distinct_map)
qed

text \<open>
  Property C22. The effective grants of a principal are exactly what its roles grant: an ability is
  reported under a resource and conditions if and only if an Allow statement of one of the principal's
  roles has that action, that resource and those conditions. No scope is reported twice, and each
  grant's abilities and role names are sorted without repetition.
\<close>

theorem effective_grants_correct:
  assumes "scope_key_law key" and "effective_grants H key c p = Inr gs"
  shows "(\<forall>r cd a. (\<exists>g \<in> set gs. eg_resource g = r \<and> eg_conditions g = cd \<and> a \<in> set (eg_abilities g)) \<longleftrightarrow>
      (\<exists>rn \<in> set (roles_for H c p). \<exists>role. get_role c rn = Some role \<and>
        (\<exists>s \<in> set (pol_statements (role_policy role)). st_effect s = Allow \<and> st_resource s = r \<and>
           st_conditions s = cd \<and> a \<in> set (st_actions s)))) \<and>
    distinct (map (\<lambda>g. (eg_resource g, eg_conditions g)) gs) \<and>
    (\<forall>g \<in> set gs. sorted_wrt (<) (eg_abilities g) \<and> sorted_wrt (<) (eg_from_roles g))"
proof -
  let ?S = "catalog_sources c (roles_for H c p)"
  let ?fin = "\<lambda>(r, cd, abilities, fr). \<lparr>eg_abilities = sort_dedup abilities, eg_resource = r,
     eg_conditions = cd, eg_from_roles = sort_dedup fr\<rparr>"
  obtain groups where e: "eff_roles key c bt_empty (roles_for H c p) = Inr groups"
    and gs: "gs = map ?fin (bt_values groups)"
    using assms(2) by (auto simp: effective_grants_def and_then_Inr)
  have repr: "groups_repr key ?S groups"
    using eff_roles_repr [OF e groups_repr_empty] by simp
  then have ok: "bt_ok groups" by (simp add: groups_repr_def)
  have "(\<exists>g \<in> set gs. eg_resource g = r \<and> eg_conditions g = cd \<and> a \<in> set (eg_abilities g)) \<longleftrightarrow>
      (\<exists>k ab fr. bt_get groups k = Some (r, cd, ab, fr) \<and> a \<in> set ab)" for r cd a
    by (force simp: gs bt_values_get [OF ok])
  moreover have "(\<exists>rn s. (rn, s) \<in> ?S \<and> st_resource s = r \<and> st_conditions s = cd \<and> a \<in> set (st_actions s)) \<longleftrightarrow>
      (\<exists>rn \<in> set (roles_for H c p). \<exists>role. get_role c rn = Some role \<and>
        (\<exists>s \<in> set (pol_statements (role_policy role)). st_effect s = Allow \<and> st_resource s = r \<and>
           st_conditions s = cd \<and> a \<in> set (st_actions s)))" for r cd a
    by (auto simp: catalog_sources_def get_role_def)
  moreover have "distinct (map (\<lambda>g. (eg_resource g, eg_conditions g)) gs)"
    using groups_distinct [OF repr] by (simp add: gs bt_values_def case_prod_beta comp_def)
  moreover have "\<forall>g \<in> set gs. sorted_wrt (<) (eg_abilities g) \<and> sorted_wrt (<) (eg_from_roles g)"
    by (auto simp: gs strict_sorted_iff)
  ultimately show ?thesis
    using groups_abilities [OF assms(1) repr] by simp
qed

text \<open>
  The branch that the code calls unreachable is unreachable: on every catalog the public
  methods can reach, resolving the effective grants never finds an attached role missing.
\<close>

lemma effective_grants_no_missing_role:
  assumes "catalog_reachable H c"
  shows "effective_grants H key c p \<noteq> Inl (BadPolicy (MissingAttachedRole rn))"
proof -
  have stmts: "eff_statements key r groups ss \<noteq> Inl (BadPolicy (MissingAttachedRole rn))" for r groups ss
    by (induction ss arbitrary: groups) (auto simp: result_simps split: sum.splits prod.splits)
  have roles: "eff_roles key c groups rns = Inl (BadPolicy (MissingAttachedRole rn)) \<Longrightarrow>
      rn \<in> set rns \<and> bt_get (cat_roles c) rn = None" for groups rns
    by (induction rns arbitrary: groups)
      (auto simp: result_simps stmts split: option.splits sum.splits)
  have "attached_exist c"
    using catalog_reachable_good [OF assms] by (simp add: catalog_good_def)
  then show ?thesis
    using roles [of bt_empty "roles_for H c p"] roles_for_attached [of c rn H p]
    by (auto simp: effective_grants_def result_simps split: sum.splits)
qed

section \<open>The audit trail\<close>

definition audit_line :: "hex_lib \<Rightarrow> nat \<Rightarrow> catalog_op \<times> principal option \<Rightarrow> audit_entry" where
  "audit_line H n e = \<lparr>ae_version = of_nat n, ae_action = audit_action (fst e),
     ae_target = audit_target H (fst e), ae_actor = map_option (principal_hex H) (snd e)\<rparr>"

text \<open>
  The audit trail is the recent history: after any sequence of operations it holds one
  line per operation, in order, with the version the operation produced, its verb, target and actor,
  except that only the newest \<open>MAX_AUDIT_ENTRIES\<close> lines are kept.
\<close>

lemma audit_trail_recent:
  "cat_audit (foldl (catalog_step H) catalog_new ops) =
     drop_overflow MAX_AUDIT_ENTRIES (map2 (audit_line H) [1..<Suc (length ops)] ops)"
proof (induction ops rule: rev_induct)
  case Nil
  then show ?case by (simp add: catalog_new_def drop_overflow_def)
next
  case (snoc e ops)
  have "cat_audit (foldl (catalog_step H) catalog_new (ops @ [e])) =
      drop_overflow MAX_AUDIT_ENTRIES (cat_audit (foldl (catalog_step H) catalog_new ops) @
        [audit_line H (Suc (length ops)) e])"
    using cat_sm.ver_replay [of H ops]
    by (simp add: catalog_step_def [of H _ e] catalog_apply_def Let_def audit_line_def add.commute)
  also have "\<dots> = drop_overflow MAX_AUDIT_ENTRIES (map2 (audit_line H) [1..<Suc (length ops)] ops @
        [audit_line H (Suc (length ops)) e])"
    unfolding snoc.IH drop_overflow_snoc ..
  finally show ?case by (simp del: upt_Suc add: upt_Suc_append)
qed

section \<open>A small catalog\<close>

definition demo_role :: role where
  "demo_role = role_new ''reader'' (policy_allow [''s:r''] RMAny default_conditions)"

definition demo_ops :: "(catalog_op \<times> principal option) list" where
  "demo_ops = [(PutRole demo_role, Some (Principal (demo_node 1))),
     (AttachRole (Principal (demo_node 2)) ''reader'', None)]"

definition demo_catalog :: catalog where
  "demo_catalog = snd (attach_role own_hex (Principal (demo_node 2)) ''reader'' None
     (snd (put_role own_hex demo_role None catalog_new)))"

lemma demo_principal_ok: "principal_ok (Principal (demo_node b))"
  by (simp add: demo_node_def node_id_ok_def)

lemma demo_catalog_reachable: "catalog_reachable own_hex demo_catalog"
  unfolding demo_catalog_def by (intro cr_attach cr_put_role cr_new demo_principal_ok)


lemma catalog_replay_converges_witness:
  "replay_through own_hex (fst (writer_run own_hex demo_ops)) (of_nat 1) =
     snd (writer_run own_hex (take 1 demo_ops))"
proof (rule catalog_replay_converges [THEN conjunct1, OF own_hex_codec])
  show "\<forall>e \<in> set demo_ops. pred_option principal_ok (snd e)"
    by (simp add: demo_ops_def demo_principal_ok [unfolded principal.sel])
qed (simp_all add: demo_ops_def)

lemma attachments_correct_witness:
  "set (roles_for own_hex (snd (remove_role own_hex ''reader'' None demo_catalog)) (Principal (demo_node 2)))
     = set (roles_for own_hex demo_catalog (Principal (demo_node 2))) - {''reader''}"
  using attachments_correct [OF own_hex_codec catalog_reachable_good [OF demo_catalog_reachable,
      unfolded catalog_good_def, THEN conjunct1], where r = "''reader''" and a = None
      and p = "Principal (demo_node 2)" and q = "Principal (demo_node 2)"]
  by blast

theorem effective_grants_correct_witness:
  "\<exists>s \<in> set (pol_statements (role_policy demo_role)). ''s:r'' \<in> set (st_actions s)"
proof -
  have e: "effective_grants own_hex demo_key demo_catalog (Principal (demo_node 2)) =
      Inr [\<lparr>eg_abilities = [''s:r''], eg_resource = RMAny, eg_conditions = default_conditions,
        eg_from_roles = [''reader'']\<rparr>]"
    by code_simp
  have r: "roles_for own_hex demo_catalog (Principal (demo_node 2)) = [''reader'']"
    "get_role demo_catalog ''reader'' = Some demo_role"
    by code_simp+
  show ?thesis
    using effective_grants_correct [OF demo_scope_key_law e, THEN conjunct1, THEN spec, THEN spec, THEN spec,
        of RMAny default_conditions "''s:r''", THEN iffD1]
    by (auto simp: r)
qed

lemma effective_grants_no_missing_role_witness:
  "effective_grants own_hex demo_key demo_catalog (Principal (demo_node 2)) \<noteq>
     Inl (BadPolicy (MissingAttachedRole ''reader''))"
  by (rule effective_grants_no_missing_role [OF demo_catalog_reachable])

end
