(* ===== verification/Store.thy ===== *)
theory Store
  imports Effective
begin

text \<open>
  \<open>store.rs\<close>: durable JSON files written atomically, and the catalog store over them. A write is the
  sequence of its system calls; each call may fail, and the machine may stop at any of them, as the
  fault plan says. A file that was being written then holds an arbitrary prefix.
\<close>

section \<open>The file system\<close>

record path =
  p_parent :: "string option"
  p_name :: "string option"

type_synonym file_key = "string \<times> string"

type_synonym fs = "file_key \<Rightarrow> string option"

definition path_key :: "path \<Rightarrow> file_key" where
  "path_key p = (unwrap_or (p_parent p) [], unwrap_or (p_name p) [])"

definition path_join :: "string \<Rightarrow> string \<Rightarrow> path" where
  "path_join dir name = \<lparr>p_parent = Some dir, p_name = Some name\<rparr>"

datatype io = IoOk | IoFails string | IoStops

datatype 'a outcome = Returned 'a | Stopped

text \<open>
  \<open>wf_written\<close> is how many bytes reach the temporary file when the write does not complete;
  \<open>wf_renamed\<close> says whether a rename during which the machine stops took effect.
\<close>

record write_faults =
  wf_mkdir :: io
  wf_create :: io
  wf_write :: io
  wf_written :: nat
  wf_flush :: io
  wf_sync :: io
  wf_rename :: io
  wf_renamed :: bool
  wf_cleanup :: io

definition no_faults :: write_faults where
  "no_faults = \<lparr>wf_mkdir = IoOk, wf_create = IoOk, wf_write = IoOk, wf_written = 0, wf_flush = IoOk,
     wf_sync = IoOk, wf_rename = IoOk, wf_renamed = False, wf_cleanup = IoOk\<rparr>"

record read_faults =
  rf_stat :: "string option"
  rf_read :: "string option"

type_synonym 'a io_result = "(iam_error + 'a) outcome \<times> fs"

definition io_fail :: "string \<Rightarrow> fs \<Rightarrow> 'a io_result" where
  "io_fail e fs = (Returned (Inl (NodeError (IoError e))), fs)"

text \<open>One system call: on success the program goes on with the file system the call leaves.\<close>

definition sys_call :: "io \<Rightarrow> fs \<Rightarrow> fs \<Rightarrow> (fs \<Rightarrow> 'a io_result) \<Rightarrow> 'a io_result" where
  "sys_call io undone done_fs k =
     (case io of
        IoOk \<Rightarrow> k done_fs
      | IoFails e \<Rightarrow> io_fail e undone
      | IoStops \<Rightarrow> (Stopped, undone))"

section \<open>Atomic writes and tolerant loads\<close>

definition MAX_STORE_BYTES :: nat where
  "MAX_STORE_BYTES = 64 * 1024 * 1024"

definition iam_dir :: "(string \<Rightarrow> string) \<Rightarrow> string option \<Rightarrow> string option \<Rightarrow> string option \<Rightarrow>
    iam_error + string" where
  "iam_dir join_iam default_dir mkdir explicit =
     and_then (case explicit of
         Some p \<Rightarrow> Inr p
       | None \<Rightarrow> ok_or default_dir (NodeError (IoError ''cannot determine the default CE data dir''))) (\<lambda>base.
     let dir = join_iam base in
     case mkdir of Some e \<Rightarrow> Inl (NodeError (IoError e)) | None \<Rightarrow> Inr dir)"

text \<open>\<open>serde_json\<close> at the type of a store: what it prints (or why not) and what it parses.\<close>

record 'a json_format =
  jf_print :: "'a \<Rightarrow> string + string"
  jf_parse :: "string \<Rightarrow> string + 'a"

definition json_law :: "'a json_format \<Rightarrow> bool" where
  "json_law J \<longleftrightarrow> (\<forall>v s. jf_print J v = Inr s \<longrightarrow> jf_parse J s = Inr v)"

definition temp_name :: "string \<Rightarrow> string \<Rightarrow> string" where
  "temp_name name pid = ''.'' @ name @ ''.'' @ pid @ ''.tmp''"

definition rename_into ::
  "write_faults \<Rightarrow> file_key \<Rightarrow> file_key \<Rightarrow> string \<Rightarrow> fs \<Rightarrow> unit io_result" where
  "rename_into F tmp target bytes fs =
     (case wf_rename F of
        IoOk \<Rightarrow> (Returned (Inr ()), fs(target := Some bytes, tmp := None))
      | IoFails e \<Rightarrow>
          (case wf_cleanup F of
             IoOk \<Rightarrow> io_fail e (fs(tmp := None))
           | IoFails _ \<Rightarrow> io_fail e fs
           | IoStops \<Rightarrow> (Stopped, fs))
      | IoStops \<Rightarrow>
          (Stopped, if wf_renamed F then fs(target := Some bytes, tmp := None) else fs))"

definition atomic_write_json ::
  "'a json_format \<Rightarrow> string \<Rightarrow> write_faults \<Rightarrow> path \<Rightarrow> 'a \<Rightarrow> fs \<Rightarrow> unit io_result" where
  "atomic_write_json J pid F p v fs =
     (case p_parent p of
        None \<Rightarrow> io_fail ''no parent dir'' fs
      | Some dir \<Rightarrow>
          sys_call (wf_mkdir F) fs fs (\<lambda>fs.
            case jf_print J v of
              Inl e \<Rightarrow> io_fail e fs
            | Inr bytes \<Rightarrow>
                (case p_name p of
                   None \<Rightarrow> io_fail ''no file name'' fs
                 | Some name \<Rightarrow>
                     (let tmp = (dir, temp_name name pid) in
                      sys_call (wf_create F) fs (fs(tmp := Some [])) (\<lambda>fs.
                      sys_call (wf_write F) (fs(tmp := Some (take (wf_written F) bytes)))
                        (fs(tmp := Some bytes)) (\<lambda>fs.
                      sys_call (wf_flush F) fs fs (\<lambda>fs.
                      sys_call (wf_sync F) fs fs (\<lambda>fs.
                      rename_into F tmp (dir, name) bytes fs))))))))"

definition load_json_or_default ::
  "'a json_format \<Rightarrow> 'a \<Rightarrow> read_faults \<Rightarrow> path \<Rightarrow> fs \<Rightarrow> iam_error + 'a" where
  "load_json_or_default J dflt R p fs =
     (case rf_stat R of
        Some e \<Rightarrow> Inl (NodeError (IoError e))
      | None \<Rightarrow>
          (case fs (path_key p) of
             None \<Rightarrow> Inr dflt
           | Some text \<Rightarrow>
               if length text > MAX_STORE_BYTES then Inl (NodeError (StoreTooBig (length text)))
               else case rf_read R of
                 Some e \<Rightarrow> Inl (NodeError (IoError e))
               | None \<Rightarrow> map_err (\<lambda>e. NodeError (IoError e)) (jf_parse J text)))"

section \<open>The interface of an atomic file\<close>

text \<open>
  What the stores rely on: a write that returns success leaves the new contents, one that returns an
  error leaves the old contents, and one during which the machine stops leaves one or the other.
\<close>

locale atomic_cell =
  fixes put :: "'v \<Rightarrow> 'f \<Rightarrow> 'd \<Rightarrow> ('e + unit) outcome \<times> 'd"
    and peek :: "'d \<Rightarrow> 'c option"
    and render :: "'v \<Rightarrow> 'c option"
  assumes put_ok: "put v f d = (Returned (Inr ()), d') \<Longrightarrow> render v \<noteq> None \<and> peek d' = render v"
    and put_err: "put v f d = (Returned (Inl e), d') \<Longrightarrow> peek d' = peek d"
    and put_stop: "put v f d = (Stopped, d') \<Longrightarrow>
      peek d' = peek d \<or> (render v \<noteq> None \<and> peek d' = render v)"
begin

lemma put_atomic:
  "put v f d = (r, d') \<Longrightarrow> peek d' = peek d \<or> (render v \<noteq> None \<and> peek d' = render v)"
proof -
  assume p: "put v f d = (r, d')"
  show ?thesis
  proof (cases r)
    case (Returned res)
    then show ?thesis
      using p put_ok [of v f d d'] put_err [of v f d _ d'] by (cases res) auto
  next
    case Stopped
    then show ?thesis using p put_stop by simp
  qed
qed

lemma put_unrenderable: "put v f d = (r, d') \<Longrightarrow> render v = None \<Longrightarrow> peek d' = peek d"
  using put_atomic by blast

end

lemma sys_call_rule:
  assumes "sys_call io undone done_fs k = (r, fs')"
    and "Q Stopped undone" and "\<And>e. Q (Returned (Inl e)) undone"
    and "k done_fs = (r, fs') \<Longrightarrow> Q r fs'"
  shows "Q r fs'"
  using assms by (auto simp: sys_call_def io_fail_def split: io.splits)

lemma temp_name_differs: "temp_name name pid \<noteq> name"
  by (rule notI, drule arg_cong [of _ _ length]) (simp add: temp_name_def)

lemma rename_into_cases:
  assumes "rename_into F tmp target bytes fs = (r, fs')"
  shows "(r = Returned (Inr ()) \<and> fs' = fs(target := Some bytes, tmp := None)) \<or>
    (\<exists>e. r = Returned (Inl e)) \<and> (fs' = fs \<or> fs' = fs(tmp := None)) \<or>
    r = Stopped \<and> (fs' = fs \<or> fs' = fs(target := Some bytes, tmp := None))"
  using assms by (auto simp: rename_into_def io_fail_def split: io.splits if_splits)

text \<open>Everything a write can do: succeed, fail or stop with at most the temporary file changed.\<close>

definition temp_key :: "path \<Rightarrow> string \<Rightarrow> file_key" where
  "temp_key p pid = (fst (path_key p), temp_name (snd (path_key p)) pid)"

definition write_spec :: "path \<Rightarrow> string \<Rightarrow> string option \<Rightarrow> fs \<Rightarrow> (iam_error + unit) outcome \<Rightarrow> fs \<Rightarrow> bool" where
  "write_spec p pid new fs r fs' \<longleftrightarrow>
     (\<forall>k. k \<noteq> temp_key p pid \<longrightarrow> k \<noteq> path_key p \<longrightarrow> fs' k = fs k) \<and>
     (case r of
        Returned (Inr _) \<Rightarrow> new \<noteq> None \<and> fs' (path_key p) = new
      | Returned (Inl _) \<Rightarrow> fs' (path_key p) = fs (path_key p)
      | Stopped \<Rightarrow> fs' (path_key p) = fs (path_key p) \<or> (new \<noteq> None \<and> fs' (path_key p) = new))"

lemma temp_key_differs: "temp_key p pid \<noteq> path_key p"
  by (metis temp_key_def snd_conv temp_name_differs)

lemma rename_into_spec:
  assumes "rename_into F (temp_key p pid) (path_key p) bytes fs1 = (r, fs')"
    and "\<forall>k. k \<noteq> temp_key p pid \<longrightarrow> fs1 k = fs k"
  shows "write_spec p pid (Some bytes) fs r fs'"
proof -
  have "fs1 (path_key p) = fs (path_key p)"
    using assms(2) temp_key_differs [of p pid, symmetric] by blast
  then show ?thesis
    using assms temp_key_differs [of p pid] temp_key_differs [of p pid, symmetric]
    by (auto simp: rename_into_def io_fail_def write_spec_def split: io.splits if_splits
        simp del: split_paired_All)
qed

lemma write_spec_unchanged:
  "\<forall>k. k \<noteq> temp_key p pid \<longrightarrow> fs1 k = fs k \<Longrightarrow> write_spec p pid new fs Stopped fs1"
  "\<forall>k. k \<noteq> temp_key p pid \<longrightarrow> fs1 k = fs k \<Longrightarrow> write_spec p pid new fs (Returned (Inl e)) fs1"
  using temp_key_differs [of p pid, symmetric]
  by (simp_all add: write_spec_def del: split_paired_All)

lemma atomic_write_spec:
  assumes "atomic_write_json J pid F p v fs = (r, fs')"
  shows "write_spec p pid (ok (jf_print J v)) fs r fs'"
proof -
  have fail: "write_spec p pid new fs r fs'" if "io_fail e fs = (r, fs')" for e new
    using that write_spec_unchanged by (auto simp: io_fail_def)
  show ?thesis
  proof (cases "p_parent p")
    case None
    with assms show ?thesis by (auto simp: atomic_write_json_def intro: fail)
  next
    case dir: (Some dir)
    have key: "path_key p = (dir, unwrap_or (p_name p) [])"
      by (simp add: path_key_def dir unwrap_or_def)
    show ?thesis
      using assms unfolding atomic_write_json_def dir option.case
    proof (rule sys_call_rule, simp_all add: write_spec_unchanged)
      assume step: "(case jf_print J v of
              Inl e \<Rightarrow> io_fail e fs
            | Inr bytes \<Rightarrow>
                (case p_name p of
                   None \<Rightarrow> io_fail ''no file name'' fs
                 | Some name \<Rightarrow>
                     (let tmp = (dir, temp_name name pid) in
                      sys_call (wf_create F) fs (fs(tmp := Some [])) (\<lambda>fs.
                      sys_call (wf_write F) (fs(tmp := Some (take (wf_written F) bytes)))
                        (fs(tmp := Some bytes)) (\<lambda>fs.
                      sys_call (wf_flush F) fs fs (\<lambda>fs.
                      sys_call (wf_sync F) fs fs (\<lambda>fs.
                      rename_into F tmp (dir, name) bytes fs))))))) = (r, fs')"
      show ?thesis
      proof (cases "jf_print J v")
        case (Inl e)
        with step show ?thesis by (auto intro: fail)
      next
        case (Inr bytes)
        show ?thesis
        proof (cases "p_name p")
          case None
          with step Inr show ?thesis by (auto intro: fail)
        next
          case (Some name)
          have keys: "path_key p = (dir, name)" "temp_key p pid = (dir, temp_name name pid)"
            using key Some by (simp_all add: unwrap_or_def temp_key_def)
          have "sys_call (wf_create F) fs (fs(temp_key p pid := Some [])) (\<lambda>fs.
                sys_call (wf_write F) (fs(temp_key p pid := Some (take (wf_written F) bytes)))
                  (fs(temp_key p pid := Some bytes)) (\<lambda>fs.
                sys_call (wf_flush F) fs fs (\<lambda>fs.
                sys_call (wf_sync F) fs fs (\<lambda>fs.
                rename_into F (temp_key p pid) (path_key p) bytes fs)))) = (r, fs')"
            using step Inr Some by (simp add: keys Let_def)
          then show ?thesis
            unfolding Inr ok_def sum.case
            by (elim sys_call_rule) (auto intro!: write_spec_unchanged elim!: rename_into_spec)
        qed
      qed
    qed
  qed
qed

interpretation json_file: atomic_cell "\<lambda>v F. atomic_write_json J pid F p v" "\<lambda>fs. fs (path_key p)"
  "\<lambda>v. ok (jf_print J v)" for J :: "'a json_format" and pid p
  by unfold_locales (auto dest!: atomic_write_spec simp: write_spec_def)

end
