(* ===== verification/CatalogStore.thy ===== *)
theory CatalogStore
  imports Store
begin

text \<open>
  The durable catalog of \<open>store.rs\<close>: the operation log on disk and the catalog it replays to. Every
  operation is validated, persisted and only then applied, so the two never diverge; compaction
  rewrites the log without changing what the catalog holds.
\<close>

definition MAX_CATALOG_OPS :: nat where
  "MAX_CATALOG_OPS = 100000"

record catalog_store =
  cs_path :: path
  cs_log :: catalog_log
  cs_catalog :: catalog

definition catalog_store_open :: "hex_lib \<Rightarrow> catalog_log json_format \<Rightarrow> read_faults \<Rightarrow> string \<Rightarrow> fs \<Rightarrow>
    iam_error + catalog_store" where
  "catalog_store_open H J R dir fs =
     (let path = path_join dir ''catalog.json'' in
      and_then (load_json_or_default J log_new R path fs) (\<lambda>log.
        if log_len log > MAX_CATALOG_OPS then Inl (NodeError (OpLogTooLong (log_len log)))
        else Inr \<lparr>cs_path = path, cs_log = log, cs_catalog = log_replay H log\<rparr>))"

definition op_count :: "catalog_store \<Rightarrow> nat" where
  "op_count st = log_len (cs_log st)"

fun store_validate :: "catalog_store \<Rightarrow> catalog_op \<Rightarrow> iam_error + unit" where
  "store_validate st (PutRole r) =
     (if trim (role_name r) = [] then Inl (BadPolicy EmptyRoleName) else Inr ())"
| "store_validate st (PutPolicy name _) =
     (if trim name = [] then Inl (BadPolicy EmptyPolicyName) else Inr ())"
| "store_validate st (AttachRole _ role) =
     (if get_role (cs_catalog st) role = None then Inl (BadPolicy (NoRoleToAttach role)) else Inr ())"
| "store_validate st _ = Inr ()"

type_synonym 'a store_result = "(iam_error + 'a) outcome \<times> catalog_store \<times> fs"

definition commit :: "unit io_result \<Rightarrow> catalog_store \<Rightarrow> catalog_store \<Rightarrow> unit store_result" where
  "commit w old new =
     (case w of (r, fs) \<Rightarrow> (r, if r = Returned (Inr ()) then new else old, fs))"

definition catalog_store_apply :: "hex_lib \<Rightarrow> catalog_log json_format \<Rightarrow> string \<Rightarrow> write_faults \<Rightarrow>
    catalog_op \<Rightarrow> principal option \<Rightarrow> catalog_store \<Rightarrow> fs \<Rightarrow> unit store_result" where
  "catalog_store_apply H J pid F op actor st fs =
     (if log_len (cs_log st) \<ge> MAX_CATALOG_OPS then (Returned (Inl (NodeError OpLogFull)), st, fs)
      else case store_validate st op of
        Inl e \<Rightarrow> (Returned (Inl e), st, fs)
      | Inr _ \<Rightarrow>
          (let nxt = snd (log_record H (cs_log st) op actor) in
           commit (atomic_write_json J pid F (cs_path st) nxt fs) st
             (st\<lparr>cs_log := nxt, cs_catalog := catalog_apply H (cs_catalog st) op actor\<rparr>)))"

definition compact_ops :: "hex_lib \<Rightarrow> catalog \<Rightarrow> catalog_op list" where
  "compact_ops H c =
     List.map_filter (\<lambda>n. map_option PutRole (get_role c n)) (list_roles c) @
     List.map_filter (\<lambda>n. map_option (PutPolicy n) (get_policy c n)) (list_policies c) @
     map (\<lambda>(p, r). AttachRole p r) (all_attachments H c)"

definition compact_log :: "hex_lib \<Rightarrow> catalog \<Rightarrow> catalog_log" where
  "compact_log H c = foldl (\<lambda>l op. snd (log_record H l op None)) log_new (compact_ops H c)"

definition catalog_store_compact :: "hex_lib \<Rightarrow> catalog_log json_format \<Rightarrow> string \<Rightarrow> write_faults \<Rightarrow>
    catalog_store \<Rightarrow> fs \<Rightarrow> unit store_result" where
  "catalog_store_compact H J pid F st fs =
     (let log = compact_log H (cs_catalog st) in
      commit (atomic_write_json J pid F (cs_path st) log fs) st
        (st\<lparr>cs_log := log, cs_catalog := log_replay H log\<rparr>))"

section \<open>Disk and memory agree\<close>

definition on_disk :: "catalog_log json_format \<Rightarrow> catalog_store \<Rightarrow> fs \<Rightarrow> bool" where
  "on_disk J st fs \<longleftrightarrow>
     (case fs (path_key (cs_path st)) of
        None \<Rightarrow> cs_log st = log_new
      | Some text \<Rightarrow> jf_parse J text = Inr (cs_log st))"

definition store_inv :: "hex_lib \<Rightarrow> catalog_store \<Rightarrow> bool" where
  "store_inv H st \<longleftrightarrow> catalog_good H (cs_catalog st) \<and> cs_catalog st = log_replay H (cs_log st) \<and>
     log_len (cs_log st) \<le> MAX_CATALOG_OPS"

lemma log_replay_foldl:
  "log_len l \<le> MAX_CATALOG_OPS \<Longrightarrow> log_replay H l = foldl (replay_entry H) catalog_new (log_entries l)"
  by (simp add: log_replay_def replay_through_def log_len_def MAX_CATALOG_OPS_def unat_of_nat_u64)

lemma log_len_record: "log_len (snd (log_record H l op actor)) = Suc (log_len l)"
  by (simp add: log_len_def log_record_def Let_def)

lemma log_replay_record:
  assumes "hex_lib_ok H" "pred_option principal_ok actor" "log_len l < MAX_CATALOG_OPS"
  shows "log_replay H (snd (log_record H l op actor)) = catalog_apply H (log_replay H l) op actor"
proof -
  have len: "log_len (snd (log_record H l op actor)) \<le> MAX_CATALOG_OPS"
    using assms(3) by (simp add: log_len_record)
  have "log_entries (snd (log_record H l op actor)) = log_entries l @ [logged H (op, actor)]"
    by (simp add: log_record_def logged_def Let_def)
  then show ?thesis
    using replay_entry_logged [OF assms(1), of "(op, actor)"] assms(2,3)
    by (simp add: log_replay_foldl [OF len] log_replay_foldl catalog_step_def)
qed

lemma validate_admissible: "store_validate st op = Inr u \<Longrightarrow> op_admissible (cs_catalog st) op"
  by (cases op) (auto simp: get_role_def split: if_splits)

lemma commit_cases:
  assumes "commit w old new = (r, st', fs')"
  shows "w = (r, fs') \<and> st' = (if r = Returned (Inr ()) then new else old)"
  using assms by (auto simp: commit_def split: prod.splits)

lemma written_on_disk:
  assumes "json_law J" "atomic_write_json J pid F (cs_path st) (cs_log st) fs = (r, fs')"
    and "fs' (path_key (cs_path st)) = ok (jf_print J (cs_log st))" "ok (jf_print J (cs_log st)) \<noteq> None"
  shows "on_disk J st fs'"
  using assms by (auto simp: on_disk_def ok_def json_law_def split: sum.splits)

text \<open>A write of a new store over an old one on the same path, whatever the faults.\<close>

lemma commit_disk:
  assumes J: "json_law J" and disk: "on_disk J old fs" and same: "cs_path new = cs_path old"
    and c: "commit (atomic_write_json J pid F (cs_path old) (cs_log new) fs) old new = (r, st', fs')"
  shows "(\<forall>res. r = Returned res \<longrightarrow> on_disk J st' fs') \<and>
    (r = Stopped \<longrightarrow> on_disk J old fs' \<or> on_disk J new fs')"
proof -
  have w: "atomic_write_json J pid F (cs_path new) (cs_log new) fs = (r, fs')"
    and st': "st' = (if r = Returned (Inr ()) then new else old)"
    using commit_cases [OF c] same by simp_all
  have keep: "on_disk J old fs'" if "fs' (path_key (cs_path new)) = fs (path_key (cs_path new))"
    using disk that same by (simp add: on_disk_def)
  have fresh: "on_disk J new fs'"
    if "fs' (path_key (cs_path new)) = ok (jf_print J (cs_log new))" "ok (jf_print J (cs_log new)) \<noteq> None"
    using written_on_disk [OF J w that] .
  have "on_disk J st' fs'" if "r = Returned res" for res
  proof (cases res)
    case (Inl e)
    have "fs' (path_key (cs_path new)) = fs (path_key (cs_path new))"
      using json_file.put_err [OF w [unfolded that Inl]] .
    with st' that Inl keep show ?thesis by simp
  next
    case (Inr u)
    with w that have "atomic_write_json J pid F (cs_path new) (cs_log new) fs = (Returned (Inr ()), fs')"
      by simp
    from json_file.put_ok [OF this] st' that Inr fresh show ?thesis by simp
  qed
  moreover have "on_disk J old fs' \<or> on_disk J new fs'" if "r = Stopped"
    using json_file.put_stop [OF w [unfolded that]] keep fresh by blast
  ultimately show ?thesis by blast
qed

definition applied :: "hex_lib \<Rightarrow> catalog_op \<Rightarrow> principal option \<Rightarrow> catalog_store \<Rightarrow> catalog_store" where
  "applied H op actor st = st\<lparr>cs_log := snd (log_record H (cs_log st) op actor),
     cs_catalog := catalog_apply H (cs_catalog st) op actor\<rparr>"

lemma applied_sel [simp]:
  "cs_path (applied H op actor st) = cs_path st"
  "cs_catalog (applied H op actor st) = catalog_apply H (cs_catalog st) op actor"
  "log_len (cs_log (applied H op actor st)) = Suc (log_len (cs_log st))"
  by (simp_all add: applied_def log_len_record)

lemma store_apply_cases:
  assumes "catalog_store_apply H J pid F op actor st fs = (r, st', fs')"
  obtains (refused) e where "r = Returned (Inl e)" "st' = st" "fs' = fs"
    | (written) "log_len (cs_log st) < MAX_CATALOG_OPS" "store_validate st op = Inr ()"
      "commit (atomic_write_json J pid F (cs_path st) (cs_log (applied H op actor st)) fs) st
         (applied H op actor st) = (r, st', fs')"
proof (cases "store_validate st op")
  case (Inl e)
  with assms that(1) show thesis
    by (auto simp: catalog_store_apply_def split: if_splits)
next
  case (Inr u)
  with assms that show thesis
    by (auto simp: catalog_store_apply_def Let_def applied_def not_le split: if_splits)
qed

lemma applied_inv:
  assumes "hex_lib_ok H" "store_inv H st" "op_principal_ok op" "pred_option principal_ok actor"
    and "log_len (cs_log st) < MAX_CATALOG_OPS" "store_validate st op = Inr ()"
  shows "store_inv H (applied H op actor st)"
proof -
  have "catalog_good H (catalog_apply H (cs_catalog st) op actor)"
  proof (rule catalog_apply_good)
    show "catalog_good H (cs_catalog st)"
      using assms(2) unfolding store_inv_def by blast
    show "op_good (cs_catalog st) op"
      using assms(3) validate_admissible [OF assms(6)] by (simp add: op_good_def)
  qed
  moreover have "catalog_apply H (cs_catalog st) op actor =
      log_replay H (snd (log_record H (cs_log st) op actor))"
    using assms(2) log_replay_record [OF assms(1,4,5)] by (simp add: store_inv_def)
  ultimately show ?thesis
    using assms(5) by (simp add: store_inv_def) (simp add: applied_def)
qed

text \<open>
  The durable catalog and its file never diverge: after an operation on a consistent
  store returns, under any pattern of I/O errors, the file still holds exactly the log in memory and
  the catalog is that log's replay; success means the operation was applied, and an error means the
  store is what it was.
\<close>

lemma store_apply_consistent:
  assumes "json_law J" "hex_lib_ok H" "store_inv H st" "on_disk J st fs"
    and "op_principal_ok op" "pred_option principal_ok actor"
    and "catalog_store_apply H J pid F op actor st fs = (Returned res, st', fs')"
  shows "store_inv H st' \<and> on_disk J st' fs' \<and>
    (if is_ok res then cs_catalog st' = catalog_apply H (cs_catalog st) op actor \<and>
       log_len (cs_log st') = Suc (log_len (cs_log st))
     else st' = st)"
  using assms(7)
proof (cases rule: store_apply_cases)
  case refused
  with assms show ?thesis by simp
next
  case written
  have new: "store_inv H (applied H op actor st)"
    by (rule applied_inv [OF assms(2,3,5,6) written(1,2)])
  have disk: "on_disk J st' fs'"
    using commit_disk [OF assms(1,4) applied_sel(1) written(3)] by simp
  have "st' = (if Returned res = Returned (Inr ()) then applied H op actor st else st)"
    using commit_cases [OF written(3)] by simp
  with new disk assms(3) show ?thesis by (cases res) simp_all
qed

text \<open>
  Property C19. Crash recovery: when the machine stops at any point of an operation, reopening the
  store from the file left behind gives either exactly the store before the operation or exactly the
  store after it, as long as the file is within the size limit.
\<close>

theorem store_crash_recovery:
  assumes "json_law J" "hex_lib_ok H" "store_inv H st" "on_disk J st fs"
    and "op_principal_ok op" "pred_option principal_ok actor"
    and "cs_path st = path_join dir ''catalog.json''"
    and "catalog_store_apply H J pid F op actor st fs = (Stopped, st', fs')"
    and "pred_option (\<lambda>text. length text \<le> MAX_STORE_BYTES) (fs' (path_key (cs_path st)))"
  shows "catalog_store_open H J \<lparr>rf_stat = None, rf_read = None\<rparr> dir fs' \<in>
    {Inr st, Inr (applied H op actor st)}"
  using assms(8)
proof (cases rule: store_apply_cases)
  case refused
  then show ?thesis by simp
next
  case written
  have new: "store_inv H (applied H op actor st)"
    by (rule applied_inv [OF assms(2,3,5,6) written(1,2)])
  have reopen: "catalog_store_open H J \<lparr>rf_stat = None, rf_read = None\<rparr> dir fs' = Inr s"
    if "store_inv H s" "on_disk J s fs'" "cs_path s = cs_path st" for s
    using that assms(7,9)
    by (cases s) (auto simp: catalog_store_open_def Let_def load_json_or_default_def result_simps
        on_disk_def store_inv_def split: option.splits)
  have "on_disk J st fs' \<or> on_disk J (applied H op actor st) fs'"
    using commit_disk [OF assms(1,4) applied_sel(1) written(3)] by simp
  then show ?thesis
    using reopen [OF assms(3)] reopen [OF new] by auto
qed

section \<open>Compaction\<close>

lemma bt_fold_insert_self:
  assumes "bt_ok m"
  shows "fold (\<lambda>(k, v) m. bt_insert k v m) m [] = m"
proof (rule bt_eqI)
  show "bt_ok (fold (\<lambda>(k, v) m. bt_insert k v m) m [])"
    by (simp add: bt_ok_fold_insert)
  have d: "distinct (map fst m)"
    using assms by (simp add: bt_ok_def strict_sorted_iff)
  have "map_of (rev m) k = map_of m k" for k
  proof (cases "map_of m k")
    case None
    then have "map_of (rev m) k = None" by (simp add: map_of_eq_None_iff)
    with None show ?thesis by simp
  next
    case (Some v)
    then show ?thesis
      using d by (auto dest: map_of_SomeD intro!: map_of_is_SomeI simp flip: rev_map)
  qed
  then show "bt_get (fold (\<lambda>(k, v) m. bt_insert k v m) m []) k = bt_get m k" for k
    by (simp add: json_get_obj_fold) (simp add: bt_get_def split: option.splits)
qed (use assms in simp)

definition replay_ops :: "hex_lib \<Rightarrow> catalog \<Rightarrow> catalog_op list \<Rightarrow> catalog" where
  "replay_ops H c ops = foldl (\<lambda>c op. catalog_apply H c op None) c ops"

lemma compact_log_entries: "log_entries (compact_log H c) = map (\<lambda>op. (op, None)) (compact_ops H c)"
proof -
  have "log_entries (foldl (\<lambda>l op. snd (log_record H l op None)) l ops) =
      log_entries l @ map (\<lambda>op. (op, None)) ops" for l ops
    by (induction ops arbitrary: l) (simp_all add: log_record_def Let_def)
  then show ?thesis by (simp add: compact_log_def log_new_def)
qed

lemma replay_compact:
  assumes "length (compact_ops H c) \<le> MAX_CATALOG_OPS"
  shows "log_replay H (compact_log H c) = replay_ops H catalog_new (compact_ops H c)"
proof -
  have "foldl (replay_entry H) d (map (\<lambda>op. (op, None)) ops) = replay_ops H d ops" for d ops
    by (induction ops arbitrary: d) (simp_all add: replay_ops_def replay_entry_def)
  then show ?thesis
    using assms by (simp add: log_replay_foldl log_len_def compact_log_entries)
qed

lemma replay_put_roles:
  "cat_roles (replay_ops H c (map PutRole rs)) =
     fold (\<lambda>(k, r) m. bt_insert k r m) (map (\<lambda>r. (role_name r, r)) rs) (cat_roles c) \<and>
   cat_policies (replay_ops H c (map PutRole rs)) = cat_policies c \<and>
   cat_attachments (replay_ops H c (map PutRole rs)) = cat_attachments c"
  by (induction rs arbitrary: c) (simp_all add: replay_ops_def)

lemma replay_put_policies:
  "cat_policies (replay_ops H c (map (\<lambda>(n, p). PutPolicy n p) ps)) =
     fold (\<lambda>(k, p) m. bt_insert k p m) ps (cat_policies c) \<and>
   cat_roles (replay_ops H c (map (\<lambda>(n, p). PutPolicy n p) ps)) = cat_roles c \<and>
   cat_attachments (replay_ops H c (map (\<lambda>(n, p). PutPolicy n p) ps)) = cat_attachments c"
  by (induction ps arbitrary: c) (auto simp: replay_ops_def)

lemma attach_sorted: "sorted (rs @ [r]) \<Longrightarrow> distinct (rs @ [r]) \<Longrightarrow> attach_to r rs = rs @ [r]"
  by (simp add: attach_to_def sorted_sort_id)

lemma attach_all_sorted:
  "sorted rs \<Longrightarrow> distinct rs \<Longrightarrow> foldl (\<lambda>e r. attach_to r e) [] rs = rs"
proof (induction rs rule: rev_induct)
  case (snoc r rs)
  then have "foldl (\<lambda>e r. attach_to r e) [] rs = rs"
    by (simp add: sorted_append)
  with snoc.prems attach_sorted [of rs r] show ?case by simp
qed simp

lemma replay_attach_one:
  assumes "bt_ok (cat_attachments c)"
  shows "cat_attachments (replay_ops H c (map (AttachRole p) rs)) =
      (if rs = [] then cat_attachments c
       else bt_insert (principal_hex H p)
         (foldl (\<lambda>e r. attach_to r e) (unwrap_or (bt_get (cat_attachments c) (principal_hex H p)) []) rs)
         (cat_attachments c)) \<and>
    cat_roles (replay_ops H c (map (AttachRole p) rs)) = cat_roles c \<and>
    cat_policies (replay_ops H c (map (AttachRole p) rs)) = cat_policies c"
  using assms
proof (induction rs arbitrary: c)
  case Nil
  then show ?case by (simp add: replay_ops_def)
next
  case (Cons r rs)
  have twice: "bt_insert k v (bt_insert k w m) = bt_insert k v m" if "bt_ok m" for k v w and m :: "(string, string list) btree"
    using that by (intro bt_eqI) (auto simp: keeps_ok btree_simps)
  have "replay_ops H c (map (AttachRole p) (r # rs)) =
      replay_ops H (catalog_apply H c (AttachRole p r) None) (map (AttachRole p) rs)"
    by (simp add: replay_ops_def)
  then show ?case
    using Cons.IH [of "catalog_apply H c (AttachRole p r) None"] Cons.prems
    by (auto simp: keeps_ok twice btree_simps unwrap_or_def)
qed

text \<open>The attachments as the map holds them, with the principal behind each hex key.\<close>

definition attach_entry_ops :: "hex_lib \<Rightarrow> string \<times> string list \<Rightarrow> catalog_op list" where
  "attach_entry_ops H e = (case principal_parse H (fst e) of
     Inl _ \<Rightarrow> [] | Inr p \<Rightarrow> map (AttachRole p) (snd e))"

lemma all_attachments_ops:
  "map (\<lambda>(p, r). AttachRole p r) (all_attachments H c) =
     concat (map (attach_entry_ops H) (cat_attachments c))"
proof -
  have "map (\<lambda>(p, r). AttachRole p r) (case principal_parse H h of Inl _ \<Rightarrow> [] | Inr p \<Rightarrow> map (Pair p) rs) =
      attach_entry_ops H (h, rs)" for h rs
    by (simp add: attach_entry_ops_def split: sum.split)
  then show ?thesis
    by (simp add: all_attachments_def map_concat comp_def case_prod_beta)
qed

lemma replay_ops_append: "replay_ops H c (xs @ ys) = replay_ops H (replay_ops H c xs) ys"
  by (simp add: replay_ops_def)

lemma replay_attach_entry:
  assumes H: "hex_lib_ok H" and e: "attachment_ok H h rs"
    and c: "bt_ok (cat_attachments c)" "bt_get (cat_attachments c) h = None"
  shows "cat_attachments (replay_ops H c (attach_entry_ops H (h, rs))) = bt_insert h rs (cat_attachments c) \<and>
    cat_roles (replay_ops H c (attach_entry_ops H (h, rs))) = cat_roles c \<and>
    cat_policies (replay_ops H c (attach_entry_ops H (h, rs))) = cat_policies c"
proof -
  obtain p where p: "principal_ok p" "principal_hex H p = h"
    using e unfolding attachment_ok_def by blast
  then have "attach_entry_ops H (h, rs) = map (AttachRole p) rs"
    using parse_principal_hex [OF H p(1)] by (simp add: attach_entry_ops_def)
  then show ?thesis
    using replay_attach_one [OF c(1), of H p rs] e p c(2)
    by (simp add: attachment_ok_def unwrap_or_def attach_all_sorted)
qed

lemma replay_attachments:
  assumes H: "hex_lib_ok H"
  shows "\<forall>(h, rs) \<in> set m. attachment_ok H h rs \<Longrightarrow> distinct (map fst m) \<Longrightarrow>
    \<forall>h \<in> fst ` set m. bt_get (cat_attachments c) h = None \<Longrightarrow> bt_ok (cat_attachments c) \<Longrightarrow>
    cat_attachments (replay_ops H c (concat (map (attach_entry_ops H) m))) =
      fold (\<lambda>(k, v) m. bt_insert k v m) m (cat_attachments c) \<and>
    cat_roles (replay_ops H c (concat (map (attach_entry_ops H) m))) = cat_roles c \<and>
    cat_policies (replay_ops H c (concat (map (attach_entry_ops H) m))) = cat_policies c"
proof (induction m arbitrary: c)
  case Nil
  then show ?case by (simp add: replay_ops_def)
next
  case (Cons e m)
  obtain h rs where e: "e = (h, rs)" by fastforce
  let ?c = "replay_ops H c (attach_entry_ops H (h, rs))"
  have one: "cat_attachments ?c = bt_insert h rs (cat_attachments c)" "cat_roles ?c = cat_roles c"
    "cat_policies ?c = cat_policies c"
    using replay_attach_entry [OF H, of h rs c] Cons.prems e by simp_all
  have "\<forall>h' \<in> fst ` set m. bt_get (cat_attachments ?c) h' = None"
    using Cons.prems(2,3) e by (force simp: one btree_simps)
  with Cons.IH [of ?c] Cons.prems one show ?case
    by (simp add: e replay_ops_append keeps_ok)
qed

lemma map_filter_lookup:
  assumes "distinct (map fst m)"
  shows "List.map_filter (\<lambda>k. map_option (f k) (map_of m k)) (map fst m) = map (\<lambda>(k, v). f k v) m"
proof -
  have *: "List.map_filter g (map fst m) = map (\<lambda>(k, v). f k v) m"
    if "\<forall>(k, v) \<in> set m. g k = Some (f k v)" for g
    using that by (induction m) (auto simp: List.map_filter_simps)
  show ?thesis
    by (rule *) (use assms in auto)
qed

lemma compact_ops_eq:
  assumes "catalog_inv H c"
  shows "compact_ops H c = map PutRole (map snd (cat_roles c)) @
    map (\<lambda>(n, p). PutPolicy n p) (cat_policies c) @
    concat (map (attach_entry_ops H) (cat_attachments c))"
proof -
  have d: "distinct (map fst (cat_roles c))" "distinct (map fst (cat_policies c))"
    using assms by (simp_all add: catalog_inv_def bt_ok_def strict_sorted_iff)
  show ?thesis
    using map_filter_lookup [OF d(1), of "\<lambda>_. PutRole"] map_filter_lookup [OF d(2), of PutPolicy]
    by (simp add: compact_ops_def get_role_def get_policy_def list_roles_def list_policies_def bt_keys_def
        bt_get_def all_attachments_ops comp_def case_prod_beta)
qed

lemma replay_compact_maps:
  assumes H: "hex_lib_ok H" and c: "catalog_inv H c"
  shows "same_maps (replay_ops H catalog_new (compact_ops H c)) c"
proof -
  have ok: "bt_ok (cat_roles c)" "bt_ok (cat_policies c)" "bt_ok (cat_attachments c)"
    using c by (simp_all add: catalog_inv_def)
  have "map (\<lambda>r. (role_name r, r)) (map snd (cat_roles c)) = cat_roles c"
    unfolding map_map
  proof (rule map_idI)
    fix e
    assume e: "e \<in> set (cat_roles c)"
    obtain k r where kr: "e = (k, r)" by fastforce
    have "bt_get (cat_roles c) k = Some r"
      using e kr bt_get_Some_set [OF ok(1), of k r] by simp
    then have "role_name r = k"
      using c unfolding catalog_inv_def by blast
    with kr show "((\<lambda>r. (role_name r, r)) \<circ> snd) e = e" by simp
  qed
  moreover have atts: "\<forall>(h, rs) \<in> set (cat_attachments c). attachment_ok H h rs"
    using c bt_get_Some_set [OF ok(3)] by (auto simp: catalog_inv_def)
  moreover have dist: "distinct (map fst (cat_attachments c))"
    using ok(3) by (simp add: bt_ok_def strict_sorted_iff)
  moreover define c1 where "c1 = replay_ops H catalog_new (map PutRole (map snd (cat_roles c)))"
  moreover define c2 where "c2 = replay_ops H c1 (map (\<lambda>(n, p). PutPolicy n p) (cat_policies c))"
  ultimately have "cat_roles c2 = cat_roles c \<and> cat_policies c2 = cat_policies c \<and> cat_attachments c2 = []"
    using ok bt_fold_insert_self [OF ok(1)] bt_fold_insert_self [OF ok(2)]
      replay_put_roles [of H catalog_new "map snd (cat_roles c)"]
      replay_put_policies [of H c1 "cat_policies c"]
    by (simp add: catalog_new_def)
  then show ?thesis
    using replay_attachments [OF H, of "cat_attachments c" c2] atts dist bt_fold_insert_self [OF ok(3)]
    unfolding compact_ops_eq [OF c] replay_ops_append same_maps_def c1_def [symmetric] c2_def [symmetric]
    by (simp add: btree_simps)
qed

section \<open>Compaction does not grow the log\<close>

definition catalog_weight :: "catalog \<Rightarrow> nat" where
  "catalog_weight c = length (cat_roles c) + length (cat_policies c) +
     (\<Sum>e \<leftarrow> cat_attachments c. length (snd e))"

lemma weight_insert:
  "bt_ok m \<Longrightarrow> (\<Sum>e \<leftarrow> bt_insert k v m. length (snd e)) + (case bt_get m k of None \<Rightarrow> 0 | Some w \<Rightarrow> length w) =
     (\<Sum>e \<leftarrow> m. length (snd e)) + length v"
proof (induction k v m rule: bt_insert.induct)
  case (1 k v)
  then show ?case by (simp add: bt_get_def)
next
  case (2 k v k' v' m)
  have "bt_get m k = None" if "k < k'"
    using 2(2) that by (auto simp: bt_ok_Cons bt_get_def map_of_eq_None_iff)
  with 2 show ?case by (auto simp: bt_ok_Cons bt_get_def)
qed

lemma weight_insert_le:
  assumes "bt_ok m" "length v \<le> Suc (length (unwrap_or (bt_get m k) []))"
  shows "(\<Sum>e \<leftarrow> bt_insert k v m. length (snd e)) \<le> Suc (\<Sum>e \<leftarrow> m. length (snd e))"
  using weight_insert [OF assms(1), of k v] assms(2)
  by (cases "bt_get m k") (simp_all add: unwrap_or_def)

lemma weight_filter_le: "(\<Sum>e \<leftarrow> filter p m. length (snd e)) \<le> (\<Sum>e \<leftarrow> m. length (snd e))"
  by (induction m) auto

lemma weight_retain_le:
  "(\<Sum>e \<leftarrow> bt_retain q (bt_map_values (filter p) m). length (snd e)) \<le> (\<Sum>e \<leftarrow> m. length (snd e))"
proof -
  have "(\<Sum>e \<leftarrow> bt_map_values (filter p) m. length (snd e)) \<le> (\<Sum>e \<leftarrow> m. length (snd e))"
    by (induction m) (auto simp: bt_map_values_def intro: add_mono)
  then show ?thesis
    unfolding bt_retain_def using weight_filter_le le_trans by blast
qed

lemma attach_to_length: "length (attach_to r rs) \<le> Suc (length rs)"
  by (simp add: attach_to_def)

lemma effect_weight:
  assumes "bt_ok (cat_roles c) \<and> bt_ok (cat_policies c) \<and> bt_ok (cat_attachments c)"
  shows "catalog_weight (catalog_effect H op c) \<le> Suc (catalog_weight c)"
proof -
  have ok: "bt_ok (cat_roles c)" "bt_ok (cat_policies c)" "bt_ok (cat_attachments c)"
    using assms by simp_all
  show ?thesis
  proof (cases op)
    case (RemoveRole name)
    show ?thesis
      using length_bt_remove_le [of name "cat_roles c"]
        weight_retain_le [of "\<lambda>_ roles. roles \<noteq> []" "\<lambda>r. r \<noteq> name" "cat_attachments c"]
      by (simp add: RemoveRole catalog_weight_def)
  next
    case (RemovePolicy name)
    show ?thesis
      using length_bt_remove_le [of name "cat_policies c"] by (simp add: RemovePolicy catalog_weight_def)
  next
    case (AttachRole p r)
    show ?thesis
      using weight_insert_le [OF ok(3) attach_to_length]
      by (simp add: AttachRole catalog_weight_def)
  next
    case (DetachRole p r)
    show ?thesis
    proof (cases "bt_get (cat_attachments c) (principal_hex H p)")
      case None
      then show ?thesis by (simp add: DetachRole)
    next
      case (Some rs)
      have "length (filter (\<lambda>x. x \<noteq> r) rs) \<le> Suc (length (unwrap_or (Some rs) []))"
        by (simp add: unwrap_or_def le_SucI)
      with Some weight_insert_le [OF ok(3), of "filter (\<lambda>x. x \<noteq> r) rs" "principal_hex H p"]
        weight_filter_le [of _ "cat_attachments c"]
      show ?thesis
        by (simp add: DetachRole catalog_weight_def Let_def bt_remove_def le_SucI)
    qed
  qed (use length_bt_insert [OF ok(1)] length_bt_insert [OF ok(2)] in \<open>auto simp: catalog_weight_def\<close>)
qed

lemma replay_weight:
  "catalog_weight (foldl (replay_entry H) catalog_new es) \<le> length es"
proof -
  define ok where "ok c \<longleftrightarrow> bt_ok (cat_roles c) \<and> bt_ok (cat_policies c) \<and> bt_ok (cat_attachments c)"
    for c :: catalog
  have step: "ok c \<Longrightarrow> ok (replay_entry H c e)" for c e
    using effect_maps_ok [of c H "fst e"] by (simp add: ok_def replay_entry_def)
  have w: "catalog_weight (replay_entry H c e) \<le> Suc (catalog_weight c)" if "ok c" for c e
    using effect_weight [of c H "fst e"] that by (simp add: ok_def replay_entry_def catalog_weight_def)
  have "ok c \<Longrightarrow> catalog_weight (foldl (replay_entry H) c es) \<le> catalog_weight c + length es" for c
  proof (induction es arbitrary: c)
    case (Cons e es)
    from Cons.IH [OF step [OF Cons.prems], of e] w [OF Cons.prems, of e] show ?case by simp
  qed simp
  from this [of catalog_new] show ?thesis
    by (simp add: ok_def catalog_new_def catalog_weight_def)
qed

lemma compact_ops_length:
  assumes H: "hex_lib_ok H" and c: "catalog_inv H c"
  shows "length (compact_ops H c) = catalog_weight c"
proof -
  have "length (attach_entry_ops H e) = length (snd e)" if "e \<in> set (cat_attachments c)" for e
  proof -
    obtain h rs where e: "e = (h, rs)" by fastforce
    have "attachment_ok H h rs"
      using that c bt_get_Some_set [of "cat_attachments c" h rs] by (simp add: e catalog_inv_def)
    then obtain p where "principal_ok p" "principal_hex H p = h"
      unfolding attachment_ok_def by blast
    then show ?thesis
      using parse_principal_hex [OF H] by (auto simp: e attach_entry_ops_def)
  qed
  then have "(\<Sum>e \<leftarrow> cat_attachments c. length (attach_entry_ops H e)) =
      (\<Sum>e \<leftarrow> cat_attachments c. length (snd e))"
    by (intro arg_cong [of _ _ sum_list] map_cong) simp_all
  then show ?thesis
    by (simp add: compact_ops_eq [OF c] catalog_weight_def length_concat comp_def)
qed

lemma same_maps_effective:
  "same_maps c d \<Longrightarrow> effective_grants H key c p = effective_grants H key d p"
proof -
  assume m: "same_maps c d"
  have "eff_roles key c g rns = eff_roles key d g rns" for g rns
    using m by (induction rns arbitrary: g) (auto simp: same_maps_def split: option.split
        intro!: arg_cong2 [of _ _ _ _ and_then])
  with m show ?thesis by (simp add: effective_grants_def roles_for_def same_maps_def)
qed

lemma replay_audit_bound: "length (cat_audit (replay_ops H catalog_new ops)) \<le> MAX_AUDIT_ENTRIES"
  by (induction ops rule: rev_induct) (simp_all add: replay_ops_def apply_audit_len, simp add: catalog_new_def)

definition compacted :: "hex_lib \<Rightarrow> catalog_store \<Rightarrow> catalog_store" where
  "compacted H st = st\<lparr>cs_log := compact_log H (cs_catalog st),
     cs_catalog := log_replay H (compact_log H (cs_catalog st))\<rparr>"

lemma compacted_sel [simp]:
  "cs_path (compacted H st) = cs_path st"
  "cs_catalog (compacted H st) = log_replay H (cs_log (compacted H st))"
  "cs_log (compacted H st) = compact_log H (cs_catalog st)"
  by (simp_all add: compacted_def)

lemma store_compact_commit:
  "catalog_store_compact H J pid F st fs =
     commit (atomic_write_json J pid F (cs_path st) (cs_log (compacted H st)) fs) st (compacted H st)"
  by (simp add: catalog_store_compact_def Let_def) (simp add: compacted_def)

lemma compacted_store:
  assumes "hex_lib_ok H" "store_inv H st"
  shows "store_inv H (compacted H st) \<and> same_maps (cs_catalog (compacted H st)) (cs_catalog st) \<and>
    log_len (cs_log (compacted H st)) \<le> log_len (cs_log st)"
proof -
  let ?log = "compact_log H (cs_catalog st)"
  have good: "catalog_good H (cs_catalog st)" and cinv: "catalog_inv H (cs_catalog st)"
    using assms(2) unfolding store_inv_def catalog_good_def by blast+
  have len: "log_len (cs_log st) \<le> MAX_CATALOG_OPS"
    using assms(2) by (simp add: store_inv_def)
  have shorter: "length (compact_ops H (cs_catalog st)) \<le> log_len (cs_log st)"
    using replay_weight [of H "log_entries (cs_log st)"] assms(2) compact_ops_length [OF assms(1) cinv]
    unfolding store_inv_def by (simp add: log_replay_foldl [OF len]) (simp add: log_len_def)
  have replay: "log_replay H ?log = replay_ops H catalog_new (compact_ops H (cs_catalog st))"
    using shorter len by (intro replay_compact) simp
  have same: "same_maps (log_replay H ?log) (cs_catalog st)"
    unfolding replay by (rule replay_compact_maps [OF assms(1) cinv])
  have "catalog_good H (log_replay H ?log)"
    using good same replay_audit_bound [of H] unfolding replay
    by (simp add: catalog_good_def catalog_inv_def attached_exist_def same_maps_def)
  then show ?thesis
    using same shorter len by (simp add: store_inv_def log_len_def compact_log_entries)
qed

text \<open>
  Property C20. Compaction keeps what the catalog holds and bounds the file: whatever I/O errors occur,
  the store stays consistent with its file, its roles, policies and attachments (and so every
  principal's effective grants) are unchanged, and the log has at most as many operations as before.
\<close>

theorem store_compact_preserves:
  assumes "json_law J" "hex_lib_ok H" "store_inv H st" "on_disk J st fs"
    and "catalog_store_compact H J pid F st fs = (Returned res, st', fs')"
  shows "store_inv H st' \<and> on_disk J st' fs' \<and> same_maps (cs_catalog st') (cs_catalog st) \<and>
    effective_grants H key (cs_catalog st') p = effective_grants H key (cs_catalog st) p \<and>
    log_len (cs_log st') \<le> log_len (cs_log st)"
proof -
  note compacted = compacted_store [OF assms(2,3)]
  have c: "commit (atomic_write_json J pid F (cs_path st) (cs_log (compacted H st)) fs) st (compacted H st) =
      (Returned res, st', fs')"
    using assms(5) unfolding store_compact_commit .
  have disk: "on_disk J st' fs'"
    using commit_disk [OF assms(1,4) compacted_sel(1) c] by simp
  have "st' = compacted H st \<or> st' = st"
    using commit_cases [OF c] by auto
  then show ?thesis
  proof
    assume "st' = compacted H st"
    with compacted disk show ?thesis
      using same_maps_effective by blast
  next
    assume "st' = st"
    with assms(3) disk show ?thesis by (simp add: same_maps_def)
  qed
qed

text \<open>
  The size limit is enforced on reading only: an operation whose log prints to more than
  \<open>MAX_STORE_BYTES\<close> bytes is written and reported as a success, and the file it leaves can never be
  opened again.
\<close>

lemma store_accepts_unreadable:
  assumes "catalog_store_apply H J pid F op actor st fs = (Returned (Inr ()), st', fs')"
    and "cs_path st = path_join dir ''catalog.json''"
    and "jf_print J (cs_log st') = Inr text" "length text > MAX_STORE_BYTES"
  shows "catalog_store_open H J R dir fs' = Inl (NodeError (StoreTooBig (length text))) \<or>
    (\<exists>e. rf_stat R = Some e \<and> catalog_store_open H J R dir fs' = Inl (NodeError (IoError e)))"
  using assms(1)
proof (cases rule: store_apply_cases)
  case refused
  then show ?thesis by simp
next
  case written
  then have st': "st' = applied H op actor st"
    and w: "atomic_write_json J pid F (cs_path st) (cs_log st') fs = (Returned (Inr ()), fs')"
    using commit_cases [OF written(3)] by simp_all
  have "fs' (path_key (cs_path st)) = Some text"
    using json_file.put_ok [OF w] assms(3) by (simp add: ok_def)
  then show ?thesis
    using assms(2,4)
    by (cases "rf_stat R") (simp_all add: catalog_store_open_def Let_def load_json_or_default_def result_simps)
qed

section \<open>A small store\<close>

definition demo_log :: catalog_log where
  "demo_log = \<lparr>log_entries = [(PutRole demo_role, None)]\<rparr>"

text \<open>A printer of the two logs of the example.\<close>

definition demo_json :: "catalog_log json_format" where
  "demo_json = \<lparr>
     jf_print = (\<lambda>l. if log_entries l = [] then Inr ''0''
       else if log_entries l = log_entries demo_log then Inr ''1'' else Inl ''unsupported''),
     jf_parse = (\<lambda>s. if s = ''0'' then Inr log_new else if s = ''1'' then Inr demo_log else Inl ''bad'')\<rparr>"

lemma demo_json_law: "json_law demo_json"
  by (auto simp: json_law_def demo_json_def log_new_def demo_log_def split: if_splits)

definition demo_store :: catalog_store where
  "demo_store = \<lparr>cs_path = path_join ''iam'' ''catalog.json'', cs_log = log_new, cs_catalog = catalog_new\<rparr>"

lemma demo_store_inv: "store_inv own_hex demo_store"
  by (simp add: store_inv_def demo_store_def catalog_new_good log_replay_def replay_through_def log_new_def
      log_len_def)

lemma demo_store_on_disk: "on_disk demo_json demo_store (\<lambda>_. None)"
  by (simp add: on_disk_def demo_store_def)

abbreviation demo_put :: "write_faults \<Rightarrow> unit store_result" where
  "demo_put F \<equiv> catalog_store_apply own_hex demo_json ''1'' F (PutRole demo_role) None demo_store (\<lambda>_. None)"

lemma demo_put_ok: "demo_put no_faults = (Returned (Inr ()), snd (demo_put no_faults))"
  by (rule prod_eqI) (code_simp, simp)

lemma store_apply_consistent_witness: "on_disk demo_json (fst (snd (demo_put no_faults))) (snd (snd (demo_put no_faults)))"
proof -
  have "demo_put no_faults =
      (Returned (Inr ()), fst (snd (demo_put no_faults)), snd (snd (demo_put no_faults)))"
    using demo_put_ok by simp
  from store_apply_consistent [OF demo_json_law own_hex_codec demo_store_inv demo_store_on_disk _ _ this]
  show ?thesis by simp
qed

definition demo_crash :: write_faults where
  "demo_crash = no_faults\<lparr>wf_rename := IoStops, wf_renamed := True\<rparr>"

theorem store_crash_recovery_witness:
  "catalog_store_open own_hex demo_json \<lparr>rf_stat = None, rf_read = None\<rparr> ''iam'' (snd (snd (demo_put demo_crash)))
     \<in> {Inr demo_store, Inr (applied own_hex (PutRole demo_role) None demo_store)}"
proof (rule store_crash_recovery [OF demo_json_law own_hex_codec demo_store_inv demo_store_on_disk])
  have "fst (demo_put demo_crash) = Stopped" by code_simp
  then show "demo_put demo_crash = (Stopped, fst (snd (demo_put demo_crash)), snd (snd (demo_put demo_crash)))"
    by (metis prod.collapse)
  have "snd (snd (demo_put demo_crash)) (path_key (cs_path demo_store)) = Some ''1''" by code_simp
  then show "pred_option (\<lambda>text. length text \<le> MAX_STORE_BYTES)
      (snd (snd (demo_put demo_crash)) (path_key (cs_path demo_store)))"
    by (simp add: MAX_STORE_BYTES_def)
qed (simp_all add: demo_store_def)

theorem store_compact_preserves_witness:
  "same_maps (cs_catalog (fst (snd (catalog_store_compact own_hex demo_json ''1'' no_faults demo_store (\<lambda>_. None)))))
     (cs_catalog demo_store)"
proof -
  let ?c = "catalog_store_compact own_hex demo_json ''1'' no_faults demo_store (\<lambda>_. None)"
  have "fst ?c = Returned (Inr ())" by code_simp
  then have "?c = (Returned (Inr ()), fst (snd ?c), snd (snd ?c))"
    by (metis prod.collapse)
  from store_compact_preserves [OF demo_json_law own_hex_codec demo_store_inv demo_store_on_disk this]
  show ?thesis by simp
qed

definition demo_long_json :: "catalog_log json_format" where
  "demo_long_json = \<lparr>jf_print = (\<lambda>_. Inr (replicate (Suc MAX_STORE_BYTES) (CHR ''x''))),
     jf_parse = (\<lambda>_. Inl ''bad'')\<rparr>"

lemma store_accepts_unreadable_witness:
  "\<exists>fs. catalog_store_open own_hex demo_long_json \<lparr>rf_stat = None, rf_read = None\<rparr> ''iam'' fs =
     Inl (NodeError (StoreTooBig (Suc MAX_STORE_BYTES)))"
proof -
  let ?c = "catalog_store_apply own_hex demo_long_json ''1'' no_faults (RemoveRole ''x'') None demo_store (\<lambda>_. None)"
  have "fst ?c = Returned (Inr ())"
    by (simp add: catalog_store_apply_def demo_store_def log_len_def log_new_def MAX_CATALOG_OPS_def commit_def
        atomic_write_json_def path_join_def sys_call_def no_faults_def demo_long_json_def rename_into_def Let_def)
  then have "?c = (Returned (Inr ()), fst (snd ?c), snd (snd ?c))"
    by (metis prod.collapse)
  from store_accepts_unreadable [OF this, of "''iam''" "replicate (Suc MAX_STORE_BYTES) (CHR ''x'')"
      "\<lparr>rf_stat = None, rf_read = None\<rparr>"]
  have "catalog_store_open own_hex demo_long_json \<lparr>rf_stat = None, rf_read = None\<rparr> ''iam'' (snd (snd ?c)) =
      Inl (NodeError (StoreTooBig (Suc MAX_STORE_BYTES)))"
    by (simp add: demo_store_def demo_long_json_def)
  then show ?thesis by blast
qed

end
