(* ===== verification/Wallet.thy ===== *)
theory Wallet
  imports CatalogStore
begin

text \<open>
  \<open>wallet.rs\<close>: the labelled store of held grant tokens. Adding checks the label, the token and the
  bounds, decodes the token, inserts the entry and then persists the whole map; the backing file is
  optional.
\<close>

definition MAX_WALLET_ENTRIES :: nat where
  "MAX_WALLET_ENTRIES = 10000"

definition MAX_TOKEN_BYTES :: nat where
  "MAX_TOKEN_BYTES = 256 * 1024"

definition MAX_LABEL_LEN :: nat where
  "MAX_LABEL_LEN = 256"

record wallet_entry =
  we_label :: string
  we_token :: string
  we_added_at :: u64
  we_note :: "string option"

type_synonym wallet_map = "(string, wallet_entry) btree"

record wallet =
  wa_entries :: wallet_map
  wa_path :: "path option"

text \<open>\<open>path\<close> is not serialized, so the file format is that of the map.\<close>

definition save_opt :: "'a json_format \<Rightarrow> string \<Rightarrow> write_faults \<Rightarrow> path option \<Rightarrow> 'a \<Rightarrow> fs \<Rightarrow> unit io_result" where
  "save_opt J pid F path v fs =
     (case path of Some p \<Rightarrow> atomic_write_json J pid F p v fs | None \<Rightarrow> (Returned (Inr ()), fs))"

definition wallet_open :: "wallet_map json_format \<Rightarrow> read_faults \<Rightarrow> string \<Rightarrow> fs \<Rightarrow> iam_error + wallet" where
  "wallet_open J R dir fs =
     (let path = path_join dir ''wallet.json'' in
      and_then (load_json_or_default J [] R path fs) (\<lambda>m. Inr \<lparr>wa_entries = m, wa_path = Some path\<rparr>))"

definition wallet_in_memory :: wallet where
  "wallet_in_memory = \<lparr>wa_entries = [], wa_path = None\<rparr>"

definition wallet_save :: "wallet_map json_format \<Rightarrow> string \<Rightarrow> write_faults \<Rightarrow> wallet \<Rightarrow> fs \<Rightarrow> unit io_result" where
  "wallet_save J pid F w fs = save_opt J pid F (wa_path w) (wa_entries w) fs"

definition wallet_len :: "wallet \<Rightarrow> nat" where
  "wallet_len w = length (wa_entries w)"

text \<open>The checks of \<open>add\<close>, in the order of the code.\<close>

definition wallet_add_checks :: "('i, 's) cap_lib \<Rightarrow> iam \<Rightarrow> string \<Rightarrow> string \<Rightarrow> wallet \<Rightarrow> iam_error + unit" where
  "wallet_add_checks L i label token w =
     (if trim label = [] then Inl (BadPolicy EmptyLabel)
      else if length label > MAX_LABEL_LEN then Inl (BadPolicy LabelTooLong)
      else if length token > MAX_TOKEN_BYTES then Inl (BadPolicy WalletTokenTooLong)
      else if bt_get (wa_entries w) label \<noteq> None then Inl (BadPolicy (DuplicateLabel label))
      else if length (wa_entries w) \<ge> MAX_WALLET_ENTRIES then Inl (BadPolicy WalletFull)
      else and_then (iam_decode L i token) (\<lambda>_. Inr ()))"

definition wallet_add :: "wallet_map json_format \<Rightarrow> ('i, 's) cap_lib \<Rightarrow> iam \<Rightarrow> string \<Rightarrow> write_faults \<Rightarrow>
    string \<Rightarrow> string \<Rightarrow> string option \<Rightarrow> u64 \<Rightarrow> wallet \<Rightarrow> fs \<Rightarrow> (iam_error + unit) outcome \<times> wallet \<times> fs" where
  "wallet_add J L i pid F label token note now w fs =
     (case wallet_add_checks L i label token w of
        Inl e \<Rightarrow> (Returned (Inl e), w, fs)
      | Inr _ \<Rightarrow>
          (let w' = w\<lparr>wa_entries := bt_insert label
               \<lparr>we_label = label, we_token = token, we_added_at = now, we_note = note\<rparr> (wa_entries w)\<rparr>;
               (r, fs') = wallet_save J pid F w' fs
           in (r, w', fs')))"

definition wallet_get :: "wallet \<Rightarrow> string \<Rightarrow> wallet_entry option" where
  "wallet_get w label = bt_get (wa_entries w) label"

definition wallet_token :: "wallet \<Rightarrow> string \<Rightarrow> string option" where
  "wallet_token w label = map_option we_token (bt_get (wa_entries w) label)"

definition wallet_list :: "wallet \<Rightarrow> wallet_entry list" where
  "wallet_list w = bt_values (wa_entries w)"

definition wallet_remove :: "wallet_map json_format \<Rightarrow> string \<Rightarrow> write_faults \<Rightarrow> string \<Rightarrow> wallet \<Rightarrow> fs \<Rightarrow>
    (iam_error + bool) outcome \<times> wallet \<times> fs" where
  "wallet_remove J pid F label w fs =
     (let removed = bt_get (wa_entries w) label \<noteq> None;
          w' = w\<lparr>wa_entries := bt_remove label (wa_entries w)\<rparr>
      in if removed then
           (case wallet_save J pid F w' fs of
              (Returned (Inl e), fs') \<Rightarrow> (Returned (Inl e), w', fs')
            | (Returned (Inr _), fs') \<Rightarrow> (Returned (Inr True), w', fs')
            | (Stopped, fs') \<Rightarrow> (Stopped, w', fs'))
         else (Returned (Inr False), w', fs))"

section \<open>What a wallet holds\<close>

definition wallet_entry_ok :: "('i, 's) cap_lib \<Rightarrow> iam \<Rightarrow> string \<Rightarrow> wallet_entry \<Rightarrow> bool" where
  "wallet_entry_ok L i label e \<longleftrightarrow> we_label e = label \<and> trim label \<noteq> [] \<and>
     length label \<le> MAX_LABEL_LEN \<and> length (we_token e) \<le> MAX_TOKEN_BYTES \<and>
     is_ok (iam_decode L i (we_token e))"

definition wallet_inv :: "('i, 's) cap_lib \<Rightarrow> iam \<Rightarrow> wallet \<Rightarrow> bool" where
  "wallet_inv L i w \<longleftrightarrow> bt_ok (wa_entries w) \<and> length (wa_entries w) \<le> MAX_WALLET_ENTRIES \<and>
     (\<forall>label e. bt_get (wa_entries w) label = Some e \<longrightarrow> wallet_entry_ok L i label e)"

lemma wallet_add_checks_Inr:
  "wallet_add_checks L i label token w = Inr u \<longleftrightarrow>
     trim label \<noteq> [] \<and> length label \<le> MAX_LABEL_LEN \<and> length token \<le> MAX_TOKEN_BYTES \<and>
     bt_get (wa_entries w) label = None \<and> length (wa_entries w) < MAX_WALLET_ENTRIES \<and>
     is_ok (iam_decode L i token)"
  by (auto simp: wallet_add_checks_def and_then_def is_ok_def not_less not_le split: sum.splits)

lemma wallet_add_inv:
  assumes "wallet_inv L i w" "wallet_add J L i pid F label token note now w fs = (r, w', fs')"
  shows "wallet_inv L i w'"
proof (cases "wallet_add_checks L i label token w")
  case (Inl e)
  with assms show ?thesis by (simp add: wallet_add_def)
next
  case (Inr u)
  then have w': "wa_entries w' = bt_insert label
       \<lparr>we_label = label, we_token = token, we_added_at = now, we_note = note\<rparr> (wa_entries w)"
    using assms(2) by (auto simp: wallet_add_def Let_def split: prod.splits)
  show ?thesis
    using assms(1) Inr unfolding wallet_inv_def w' wallet_add_checks_Inr
    by (auto simp: keeps_ok length_bt_insert btree_simps wallet_entry_ok_def)
qed

lemma wallet_remove_inv:
  assumes "wallet_inv L i w" "wallet_remove J pid F label w fs = (r, w', fs')"
  shows "wallet_inv L i w'"
proof -
  have "wa_entries w' = bt_remove label (wa_entries w)"
    using assms(2) by (auto simp: wallet_remove_def Let_def split: prod.splits outcome.splits sum.splits if_splits)
  with assms(1) show ?thesis
    using length_bt_remove_le [of label "wa_entries w"]
    by (auto simp: wallet_inv_def keeps_ok btree_simps)
qed

text \<open>The wallets that adding and removing reach from an empty one, failed saves included.\<close>

inductive wallet_reachable :: "('i, 's) cap_lib \<Rightarrow> iam \<Rightarrow> wallet \<Rightarrow> bool"
  for L :: "('i, 's) cap_lib" and i :: iam where
  wr_new: "wa_entries w = [] \<Longrightarrow> wallet_reachable L i w"
| wr_add: "wallet_reachable L i w \<Longrightarrow>
    wallet_add J L i pid F label token note now w fs = (r, w', fs') \<Longrightarrow> wallet_reachable L i w'"
| wr_remove: "wallet_reachable L i w \<Longrightarrow>
    wallet_remove J pid F label w fs = (r, w', fs') \<Longrightarrow> wallet_reachable L i w'"

text \<open>
  A wallet only ever holds usable grants: in every wallet that adding and removing can
  reach, under any I/O errors, each entry is stored under its own non-blank label within the length
  limit, its token is within the size limit and decodes, and there are at most
  \<open>MAX_WALLET_ENTRIES\<close> entries.
\<close>

lemma wallet_holds_usable:
  assumes "wallet_reachable L i w"
  shows "wallet_inv L i w"
  using assms
proof (induction rule: wallet_reachable.induct)
  case (wr_new w)
  then show ?case by (simp add: wallet_inv_def btree_simps)
next
  case (wr_add w J pid F label token nt now fs r w' fs')
  then show ?case using wallet_add_inv by blast
next
  case (wr_remove w J pid F label fs r w' fs')
  then show ?case using wallet_remove_inv by blast
qed

text \<open>
  A grant saved in a file-backed wallet survives: when adding returns success, the wallet
  that a later open reads has the new token under its label and every other label as before; when it
  returns an error, the file has not changed.
\<close>

lemma wallet_add_durable:
  assumes "json_law J" "wa_path w = Some (path_join dir ''wallet.json'')"
    and "wallet_add J L i pid F label token note now w fs = (Returned r, w', fs')"
    and "pred_option (\<lambda>text. length text \<le> MAX_STORE_BYTES)
           (fs' (path_key (path_join dir ''wallet.json'')))"
  shows "if is_ok r then
      wallet_open J \<lparr>rf_stat = None, rf_read = None\<rparr> dir fs' = Inr w' \<and>
      (\<forall>x. wallet_token w' x = (if x = label then Some token else wallet_token w x))
    else fs' (path_key (path_join dir ''wallet.json'')) = fs (path_key (path_join dir ''wallet.json''))"
proof (cases "wallet_add_checks L i label token w")
  case (Inl e)
  with assms(3) have "r = Inl e \<and> fs' = fs" by (simp add: wallet_add_def)
  then show ?thesis by simp
next
  case (Inr u)
  define w1 where "w1 = w\<lparr>wa_entries := bt_insert label
       \<lparr>we_label = label, we_token = token, we_added_at = now, we_note = note\<rparr> (wa_entries w)\<rparr>"
  have w: "atomic_write_json J pid F (path_join dir ''wallet.json'') (wa_entries w1) fs = (Returned r, fs')"
    and w': "w' = w1"
    using Inr assms(2,3)
    by (auto simp: wallet_add_def w1_def Let_def wallet_save_def save_opt_def split: prod.splits)
  show ?thesis
  proof (cases r)
    case (Inl e)
    with json_file.put_err [OF w [unfolded Inl]] show ?thesis by simp
  next
    case (Inr u)
    then have "atomic_write_json J pid F (path_join dir ''wallet.json'') (wa_entries w1) fs =
        (Returned (Inr ()), fs')"
      using w by simp
    from json_file.put_ok [OF this] obtain js where
      js: "fs' (path_key (path_join dir ''wallet.json'')) = Some js"
        "jf_print J (wa_entries w1) = Inr js"
      by (auto simp: ok_def split: sum.splits)
    have "jf_parse J js = Inr (wa_entries w1)"
      using assms(1) js(2) by (simp add: json_law_def)
    then have "wallet_open J \<lparr>rf_stat = None, rf_read = None\<rparr> dir fs' = Inr w1"
      using js(1) assms(2,4)
      by (simp add: wallet_open_def Let_def load_json_or_default_def result_simps w1_def)
    moreover have "wallet_token w1 x = (if x = label then Some token else wallet_token w x)" for x
      by (simp add: wallet_token_def w1_def btree_simps)
    ultimately show ?thesis using Inr w' by simp
  qed
qed

section \<open>A small wallet\<close>

definition demo_wallet_entry :: wallet_entry where
  "demo_wallet_entry = \<lparr>we_label = ''work'', we_token = ''##'', we_added_at = 5, we_note = None\<rparr>"

definition demo_wallet_json :: "wallet_map json_format" where
  "demo_wallet_json = \<lparr>
     jf_print = (\<lambda>m. if m = [] then Inr ''0''
       else if m = [(''work'', demo_wallet_entry)] then Inr ''1'' else Inl ''unsupported''),
     jf_parse = (\<lambda>s. if s = ''0'' then Inr [] else if s = ''1'' then Inr [(''work'', demo_wallet_entry)]
       else Inl ''bad'')\<rparr>"

definition demo_wallet :: wallet where
  "demo_wallet = \<lparr>wa_entries = [], wa_path = Some (path_join ''iam'' ''wallet.json'')\<rparr>"

abbreviation demo_wallet_add :: "(iam_error + unit) outcome \<times> wallet \<times> fs" where
  "demo_wallet_add \<equiv>
     wallet_add demo_wallet_json demo_L demo_iam ''1'' no_faults ''work'' ''##'' None 5 demo_wallet (\<lambda>_. None)"

lemma demo_wallet_add_eq:
  "demo_wallet_add = (Returned (Inr ()), fst (snd demo_wallet_add), snd (snd demo_wallet_add))"
proof -
  have "fst demo_wallet_add = Returned (Inr ())" by code_simp
  then show ?thesis by (metis prod.collapse)
qed

lemma wallet_holds_usable_witness: "wallet_inv demo_L demo_iam (fst (snd demo_wallet_add))"
  by (rule wallet_holds_usable, rule wr_add [OF wr_new demo_wallet_add_eq]) (simp add: demo_wallet_def)

lemma wallet_add_durable_witness:
  "wallet_open demo_wallet_json \<lparr>rf_stat = None, rf_read = None\<rparr> ''iam'' (snd (snd demo_wallet_add)) =
     Inr (fst (snd demo_wallet_add))"
proof -
  have J: "json_law demo_wallet_json"
    by (auto simp: json_law_def demo_wallet_json_def split: if_splits)
  have p: "wa_path demo_wallet = Some (path_join ''iam'' ''wallet.json'')"
    by (simp add: demo_wallet_def)
  have "snd (snd demo_wallet_add) (path_key (path_join ''iam'' ''wallet.json'')) = Some ''1''"
    by code_simp
  then show ?thesis
    using wallet_add_durable [OF J p demo_wallet_add_eq] by (simp add: MAX_STORE_BYTES_def)
qed

end
