(* ===== verification/Roots.thy ===== *)
theory Roots
  imports Wallet
begin

text \<open>
  \<open>roots.rs\<close>: the accepted root keys with their validity windows, and how verification uses the roots
  that are accepted at the time of the request.
\<close>

definition MAX_ROOTS :: nat where
  "MAX_ROOTS = 1024"

record root_entry =
  re_key :: principal
  re_label :: "string option"
  re_not_before :: u64
  re_not_after :: u64

type_synonym roots_map = "(string, root_entry) btree"

record roots =
  ro_roots :: roots_map
  ro_path :: "path option"

definition entry_accepted_at :: "root_entry \<Rightarrow> u64 \<Rightarrow> bool" where
  "entry_accepted_at e now =
     (if re_not_before e \<noteq> 0 \<and> now < re_not_before e then False
      else if re_not_after e \<noteq> 0 \<and> now > re_not_after e then False
      else True)"

definition roots_open :: "roots_map json_format \<Rightarrow> read_faults \<Rightarrow> string \<Rightarrow> fs \<Rightarrow> iam_error + roots" where
  "roots_open J R dir fs =
     (let path = path_join dir ''roots.json'' in
      and_then (load_json_or_default J [] R path fs) (\<lambda>m. Inr \<lparr>ro_roots = m, ro_path = Some path\<rparr>))"

definition roots_in_memory :: roots where
  "roots_in_memory = \<lparr>ro_roots = [], ro_path = None\<rparr>"

definition roots_save :: "roots_map json_format \<Rightarrow> string \<Rightarrow> write_faults \<Rightarrow> roots \<Rightarrow> fs \<Rightarrow> unit io_result" where
  "roots_save J pid F r fs = save_opt J pid F (ro_path r) (ro_roots r) fs"

definition roots_add :: "hex_lib \<Rightarrow> roots_map json_format \<Rightarrow> string \<Rightarrow> write_faults \<Rightarrow> principal \<Rightarrow>
    string option \<Rightarrow> u64 \<Rightarrow> u64 \<Rightarrow> roots \<Rightarrow> fs \<Rightarrow> (iam_error + unit) outcome \<times> roots \<times> fs" where
  "roots_add H J pid F key label nb na r fs =
     (if nb \<noteq> 0 \<and> na \<noteq> 0 \<and> na < nb then (Returned (Inl (BadPolicy EmptyWindow)), r, fs)
      else if bt_get (ro_roots r) (principal_hex H key) = None \<and> length (ro_roots r) \<ge> MAX_ROOTS
      then (Returned (Inl (BadPolicy RootsFull)), r, fs)
      else
        (let r' = r\<lparr>ro_roots := bt_insert (principal_hex H key)
               \<lparr>re_key = key, re_label = label, re_not_before = nb, re_not_after = na\<rparr> (ro_roots r)\<rparr>;
             (res, fs') = roots_save J pid F r' fs
         in (res, r', fs')))"

text \<open>The result of a change that saves: the code's \<open>self.save()?; Ok(true)\<close>.\<close>

definition saved_true :: "unit io_result \<Rightarrow> roots \<Rightarrow> (iam_error + bool) outcome \<times> roots \<times> fs" where
  "saved_true w r =
     (case w of
        (Returned (Inl e), fs) \<Rightarrow> (Returned (Inl e), r, fs)
      | (Returned (Inr _), fs) \<Rightarrow> (Returned (Inr True), r, fs)
      | (Stopped, fs) \<Rightarrow> (Stopped, r, fs))"

definition roots_retire :: "hex_lib \<Rightarrow> roots_map json_format \<Rightarrow> string \<Rightarrow> write_faults \<Rightarrow> principal \<Rightarrow>
    u64 \<Rightarrow> roots \<Rightarrow> fs \<Rightarrow> (iam_error + bool) outcome \<times> roots \<times> fs" where
  "roots_retire H J pid F key at r fs =
     (case bt_get (ro_roots r) (principal_hex H key) of
        Some _ \<Rightarrow>
          (let r' = r\<lparr>ro_roots := bt_modify (principal_hex H key) (\<lambda>e. e\<lparr>re_not_after := at\<rparr>) (ro_roots r)\<rparr>
           in saved_true (roots_save J pid F r' fs) r')
      | None \<Rightarrow> (Returned (Inr False), r, fs))"

definition roots_remove :: "hex_lib \<Rightarrow> roots_map json_format \<Rightarrow> string \<Rightarrow> write_faults \<Rightarrow> principal \<Rightarrow>
    roots \<Rightarrow> fs \<Rightarrow> (iam_error + bool) outcome \<times> roots \<times> fs" where
  "roots_remove H J pid F key r fs =
     (let removed = bt_get (ro_roots r) (principal_hex H key) \<noteq> None;
          r' = r\<lparr>ro_roots := bt_remove (principal_hex H key) (ro_roots r)\<rparr>
      in if removed then saved_true (roots_save J pid F r' fs) r'
         else (Returned (Inr False), r', fs))"

definition roots_all :: "roots \<Rightarrow> root_entry list" where
  "roots_all r = bt_values (ro_roots r)"

definition accepted_at :: "roots \<Rightarrow> u64 \<Rightarrow> node_id list" where
  "accepted_at r now =
     map (\<lambda>e. principal_node_id (re_key e)) (filter (\<lambda>e. entry_accepted_at e now) (bt_values (ro_roots r)))"

definition is_accepted :: "roots \<Rightarrow> node_id \<Rightarrow> u64 \<Rightarrow> bool" where
  "is_accepted r key now \<longleftrightarrow>
     list_ex (\<lambda>e. principal_node_id (re_key e) = key \<and> entry_accepted_at e now) (bt_values (ro_roots r))"

section \<open>Windows\<close>

definition roots_inv :: "hex_lib \<Rightarrow> roots \<Rightarrow> bool" where
  "roots_inv H r \<longleftrightarrow> bt_ok (ro_roots r) \<and> length (ro_roots r) \<le> MAX_ROOTS \<and>
     (\<forall>k e. bt_get (ro_roots r) k = Some e \<longrightarrow> k = principal_hex H (re_key e))"

lemma is_accepted_iff: "is_accepted r key now \<longleftrightarrow> key \<in> set (accepted_at r now)"
  by (auto simp: is_accepted_def accepted_at_def list_ex_iff)

lemma accepted_iff:
  assumes "hex_lib_ok H" "roots_inv H r"
  shows "principal_node_id p \<in> set (accepted_at r now) \<longleftrightarrow>
    (\<exists>e. bt_get (ro_roots r) (principal_hex H p) = Some e \<and> entry_accepted_at e now)"
proof -
  have ok: "bt_ok (ro_roots r)" using assms(2) by (simp add: roots_inv_def)
  have "principal_node_id p \<in> set (accepted_at r now) \<longleftrightarrow>
      (\<exists>e \<in> set (bt_values (ro_roots r)). entry_accepted_at e now \<and>
        principal_node_id (re_key e) = principal_node_id p)"
    unfolding accepted_at_def by force
  then have "principal_node_id p \<in> set (accepted_at r now) \<longleftrightarrow>
      (\<exists>k e. bt_get (ro_roots r) k = Some e \<and> entry_accepted_at e now \<and>
        principal_node_id (re_key e) = principal_node_id p)"
    unfolding Bex_def bt_values_get [OF ok] by blast
  moreover have "k = principal_hex H p"
    if "bt_get (ro_roots r) k = Some e" "principal_node_id (re_key e) = principal_node_id p" for k e
    using that assms(2) principal.expand [of "re_key e" p] unfolding roots_inv_def by metis
  moreover have "principal_node_id (re_key e) = principal_node_id p"
    if "bt_get (ro_roots r) (principal_hex H p) = Some e" for e
  proof -
    have "principal_hex H p = principal_hex H (re_key e)"
      using that assms(2) unfolding roots_inv_def by blast
    then show ?thesis using principal_hex_inj [OF assms(1)] by metis
  qed
  ultimately show ?thesis by metis
qed

lemma roots_add_entries:
  assumes "roots_add H J pid F key label nb na r fs = (Returned (Inr ()), r', fs')"
  shows "ro_roots r' = bt_insert (principal_hex H key)
      \<lparr>re_key = key, re_label = label, re_not_before = nb, re_not_after = na\<rparr> (ro_roots r) \<and>
    (bt_get (ro_roots r) (principal_hex H key) \<noteq> None \<or> length (ro_roots r) < MAX_ROOTS) \<and>
    \<not> (nb \<noteq> 0 \<and> na \<noteq> 0 \<and> na < nb)"
  using assms by (auto simp: roots_add_def Let_def not_le split: if_splits prod.splits)

lemma roots_retire_entries:
  assumes "roots_retire H J pid F key at r fs = (Returned (Inr True), r', fs')"
  shows "ro_roots r' = bt_modify (principal_hex H key) (\<lambda>e. e\<lparr>re_not_after := at\<rparr>) (ro_roots r) \<and>
    bt_get (ro_roots r) (principal_hex H key) \<noteq> None"
  using assms by (auto simp: roots_retire_def saved_true_def Let_def
      split: option.splits prod.splits outcome.splits sum.splits)

lemma roots_add_inv:
  assumes "roots_inv H r" "roots_add H J pid F key label nb na r fs = (res, r', fs')"
  shows "roots_inv H r'"
proof -
  have "r' = r \<or> (ro_roots r' = bt_insert (principal_hex H key)
        \<lparr>re_key = key, re_label = label, re_not_before = nb, re_not_after = na\<rparr> (ro_roots r) \<and>
      (bt_get (ro_roots r) (principal_hex H key) \<noteq> None \<or> length (ro_roots r) < MAX_ROOTS))"
    using assms(2) by (auto simp: roots_add_def Let_def not_le split: if_splits prod.splits)
  with assms(1) show ?thesis
    by (auto simp: roots_inv_def keeps_ok length_bt_insert btree_simps split: if_splits)
qed

lemma roots_retire_inv:
  assumes "roots_inv H r" "roots_retire H J pid F key at r fs = (res, r', fs')"
  shows "roots_inv H r'"
proof -
  have "r' = r \<or> ro_roots r' = bt_modify (principal_hex H key) (\<lambda>e. e\<lparr>re_not_after := at\<rparr>) (ro_roots r)"
    using assms(2) by (auto simp: roots_retire_def saved_true_def Let_def
        split: option.splits prod.splits outcome.splits sum.splits)
  moreover have "length (bt_modify k f m) = length m" for k f and m :: roots_map
    by (simp add: bt_modify_def)
  ultimately show ?thesis
    using assms(1) by (auto simp: roots_inv_def keeps_ok btree_simps split: if_splits)
qed

text \<open>
  Root rotation: once a root has been added with a window, it is accepted exactly inside
  that window (zero meaning no bound on that side); retiring it at a later time stops its acceptance
  after that time and leaves it as it was before; other roots are not affected by either.
\<close>

lemma roots_windows:
  assumes "hex_lib_ok H" "roots_inv H r"
    and "roots_add H J pid F key label nb na r fs = (Returned (Inr ()), r1, fs1)"
    and "roots_retire H J pid F key at r1 fs1 = (Returned (Inr True), r2, fs2)" "at \<noteq> 0"
  shows "is_accepted r1 (principal_node_id q) now =
      (if q = key then (nb = 0 \<or> nb \<le> now) \<and> (na = 0 \<or> now \<le> na)
       else is_accepted r (principal_node_id q) now) \<and>
    is_accepted r2 (principal_node_id q) now =
      (if q = key then (nb = 0 \<or> nb \<le> now) \<and> now \<le> at
       else is_accepted r (principal_node_id q) now)"
proof -
  have inv1: "roots_inv H r1" by (rule roots_add_inv [OF assms(2,3)])
  have inv2: "roots_inv H r2" by (rule roots_retire_inv [OF inv1 assms(4)])
  note entries = roots_add_entries [OF assms(3)] roots_retire_entries [OF assms(4)]
  note hex = principal_hex_inj [OF assms(1), of q key]
  show ?thesis
    unfolding is_accepted_iff accepted_iff [OF assms(1,2)] accepted_iff [OF assms(1) inv1]
      accepted_iff [OF assms(1) inv2]
    using entries hex assms(5)
    by (auto simp: btree_simps entry_accepted_at_def not_less not_le)
qed

text \<open>
  Retiring a root at time zero does not retire it: the entry's upper bound becomes "never",
  so a root whose window had already closed is accepted again.
\<close>

lemma retire_at_zero_reopens:
  assumes "hex_lib_ok H" "roots_inv H r"
    and "roots_retire H J pid F key 0 r fs = (Returned (Inr True), r', fs')"
    and "bt_get (ro_roots r) (principal_hex H key) = Some e" "re_not_before e \<le> now"
  shows "is_accepted r' (principal_node_id key) now"
proof -
  have inv: "roots_inv H r'" by (rule roots_retire_inv [OF assms(2,3)])
  show ?thesis
    unfolding is_accepted_iff accepted_iff [OF assms(1) inv]
    using roots_retire_entries [OF assms(3)] assms(4,5)
    by (auto simp: btree_simps entry_accepted_at_def)
qed

text \<open>
  Verification honours exactly the roots in force: with the roots accepted at the time of
  the request, a decodable chain whose root issuer is neither the verifying node, nor among the
  service's own roots, nor a root inside its window is denied.
\<close>

lemma verify_needs_accepted_root:
  assumes "authorize_law L K"
    and "guarded_decode L i token = Inr chain"
    and "\<not> is_accepted r (cap_issuer (lib_cap L (hd chain))) now"
    and "cap_issuer (lib_cap L (hd chain)) \<noteq> self"
    and "cap_issuer (lib_cap L (hd chain)) \<notin> set (iam_roots i)"
  shows "\<exists>e. verify L (with_accepted_roots i (accepted_at r now)) self tags now requester action token
    revoked = Inl (Denied e)"
proof -
  let ?i = "with_accepted_roots i (accepted_at r now)"
  have roots: "set (iam_roots ?i) = set (iam_roots i) \<union> set (accepted_at r now)"
    by (simp add: with_accepted_roots_def)
  have dec: "guarded_decode L ?i token = Inr chain"
    using assms(2) by (simp add: guarded_decode_Inr with_accepted_roots_def)
  have "\<not> documented_ok L K self (iam_roots ?i) tags now (principal_node_id requester) action chain revoked"
    using assms(3-5) roots by (auto simp: documented_ok_def is_accepted_iff)
  then have "\<not> is_ok (lib_authorize L self (iam_roots ?i) tags now (principal_node_id requester) action
      chain revoked)"
    using assms(1) by (simp add: authorize_law_def)
  with dec show ?thesis
    by (auto simp: verify_def result_simps is_ok_def split: sum.splits)
qed

section \<open>Small root sets\<close>

abbreviation demo_roots_json :: "roots_map json_format" where
  "demo_roots_json \<equiv> \<lparr>jf_print = (\<lambda>_. Inl ''unused''), jf_parse = (\<lambda>_. Inl ''unused'')\<rparr>"

definition demo_roots :: roots where
  "demo_roots = \<lparr>ro_roots = [(principal_hex own_hex (Principal (demo_node 1)),
     \<lparr>re_key = Principal (demo_node 1), re_label = None, re_not_before = 100, re_not_after = 200\<rparr>)],
     ro_path = None\<rparr>"

lemma demo_roots_added:
  "roots_add own_hex demo_roots_json ''1'' no_faults (Principal (demo_node 1)) None 100 200 roots_in_memory fs =
     (Returned (Inr ()), demo_roots, fs)"
  by (simp add: roots_add_def roots_in_memory_def btree_simps MAX_ROOTS_def roots_save_def save_opt_def
      demo_roots_def)

lemma demo_roots_inv: "roots_inv own_hex roots_in_memory" "roots_inv own_hex demo_roots"
proof -
  show "roots_inv own_hex roots_in_memory"
    by (simp add: roots_inv_def roots_in_memory_def btree_simps)
  from roots_add_inv [OF this demo_roots_added] show "roots_inv own_hex demo_roots" .
qed

lemma demo_roots_retired:
  "roots_retire own_hex demo_roots_json ''1'' no_faults (Principal (demo_node 1)) at demo_roots fs =
     (Returned (Inr True), fst (snd (roots_retire own_hex demo_roots_json ''1'' no_faults
       (Principal (demo_node 1)) at demo_roots fs)), fs)"
  by (simp add: roots_retire_def demo_roots_def bt_get_def roots_save_def save_opt_def saved_true_def Let_def)

lemma roots_windows_witness:
  "is_accepted demo_roots (demo_node 1) 150 \<and>
   \<not> is_accepted (fst (snd (roots_retire own_hex demo_roots_json ''1'' no_faults
       (Principal (demo_node 1)) 120 demo_roots (\<lambda>_. None)))) (demo_node 1) 150"
  using roots_windows [OF own_hex_codec demo_roots_inv(1) demo_roots_added demo_roots_retired,
      where at = 120 and now = 150 and q = "Principal (demo_node 1)" and fs = "\<lambda>_. None"]
  by simp

lemma retire_at_zero_reopens_witness:
  "is_accepted (fst (snd (roots_retire own_hex demo_roots_json ''1'' no_faults
       (Principal (demo_node 1)) 0 demo_roots (\<lambda>_. None)))) (demo_node 1) 999"
proof -
  have "bt_get (ro_roots demo_roots) (principal_hex own_hex (Principal (demo_node 1))) =
     Some \<lparr>re_key = Principal (demo_node 1), re_label = None, re_not_before = 100, re_not_after = 200\<rparr>"
    by (simp add: demo_roots_def bt_get_def)
  from retire_at_zero_reopens [OF own_hex_codec demo_roots_inv(2) demo_roots_retired this, of 999]
  show ?thesis by simp
qed

lemma verify_needs_accepted_root_witness:
  "\<exists>e. verify demo_L (with_accepted_roots demo_iam (accepted_at demo_roots 999)) (demo_node 9) [] 999
     (Principal (demo_node 3)) ''s:r'' (gr_token demo_child) (\<lambda>_ _. False) = Inl (Denied e)"
proof (rule verify_needs_accepted_root [OF demo_authorize_law demo_child_decodes])
  show "\<not> is_accepted demo_roots (cap_issuer (lib_cap demo_L (hd (gr_chain demo_child)))) 999"
    by code_simp
  show "cap_issuer (lib_cap demo_L (hd (gr_chain demo_child))) \<noteq> demo_node 9"
    by code_simp
  show "cap_issuer (lib_cap demo_L (hd (gr_chain demo_child))) \<notin> set (iam_roots demo_iam)"
    by code_simp
qed

end
