(* ===== verification/Revocation.thy ===== *)
theory Revocation
  imports Roots
begin

text \<open>
  \<open>revocation.rs\<close>: the revoked \<open>(issuer, nonce)\<close> set, the cached last-known-good snapshot with its
  freshness window, and the policy of \<open>main.rs\<close> for a verifier that cannot reach the node. What the
  node answers is an argument.
\<close>

record revocation_set =
  rv_revoked :: "(node_id \<times> u64) set"

definition rv_empty :: revocation_set where
  "rv_empty = \<lparr>rv_revoked = {}\<rparr>"

definition rv_from_pairs :: "(node_id \<times> u64) list \<Rightarrow> revocation_set" where
  "rv_from_pairs pairs = \<lparr>rv_revoked = set pairs\<rparr>"

fun rv_insert_pairs :: "hex_lib \<Rightarrow> (node_id \<times> u64) set \<Rightarrow> (string \<times> u64) list \<Rightarrow> (node_id \<times> u64) set" where
  "rv_insert_pairs H revoked [] = revoked"
| "rv_insert_pairs H revoked ((issuer_hex, nonce) # rest) =
     rv_insert_pairs H
       (case hx_decode H (trim issuer_hex) of
          None \<Rightarrow> revoked
        | Some bytes \<Rightarrow> if length bytes = 32 then insert (bytes, nonce) revoked else revoked) rest"

definition rv_from_hex_pairs :: "hex_lib \<Rightarrow> (string \<times> u64) list \<Rightarrow> revocation_set" where
  "rv_from_hex_pairs H pairs = \<lparr>rv_revoked = rv_insert_pairs H {} pairs\<rparr>"

type_synonym node_answer = "string + (string \<times> u64) list"

definition rv_fetch :: "hex_lib \<Rightarrow> node_answer \<Rightarrow> iam_error + revocation_set" where
  "rv_fetch H answer =
     and_then (map_err (\<lambda>e. NodeError (FetchFailed e)) answer) (\<lambda>pairs. Inr (rv_from_hex_pairs H pairs))"

definition is_revoked :: "revocation_set \<Rightarrow> node_id \<Rightarrow> u64 \<Rightarrow> bool" where
  "is_revoked rv issuer nonce \<longleftrightarrow> (issuer, nonce) \<in> rv_revoked rv"

definition rv_predicate :: "revocation_set \<Rightarrow> node_id \<Rightarrow> u64 \<Rightarrow> bool" where
  "rv_predicate rv = (\<lambda>issuer nonce. is_revoked rv issuer nonce)"

datatype revocation_policy = FailOpen | FailClosed

record cached_revocations =
  ca_pairs :: "(string \<times> u64) list"
  ca_fetched_at :: u64
  ca_ttl_secs :: u64

definition cached_default :: cached_revocations where
  "cached_default = \<lparr>ca_pairs = [], ca_fetched_at = 0, ca_ttl_secs = 0\<rparr>"

definition cached_load :: "cached_revocations json_format \<Rightarrow> read_faults \<Rightarrow> path \<Rightarrow> u64 \<Rightarrow> fs \<Rightarrow>
    iam_error + cached_revocations" where
  "cached_load J R p ttl fs =
     and_then (load_json_or_default J cached_default R p fs) (\<lambda>c. Inr (c\<lparr>ca_ttl_secs := ttl\<rparr>))"

definition cached_set :: "hex_lib \<Rightarrow> cached_revocations \<Rightarrow> revocation_set" where
  "cached_set H c = rv_from_hex_pairs H (ca_pairs c)"

definition is_fresh :: "cached_revocations \<Rightarrow> u64 \<Rightarrow> bool" where
  "is_fresh c now =
     (if ca_fetched_at c = 0 then False
      else if ca_ttl_secs c = 0 then True
      else saturating_sub_u64 now (ca_fetched_at c) \<le> ca_ttl_secs c)"

definition cached_refresh :: "cached_revocations json_format \<Rightarrow> string \<Rightarrow> write_faults \<Rightarrow> node_answer \<Rightarrow>
    u64 \<Rightarrow> path option \<Rightarrow> cached_revocations \<Rightarrow> fs \<Rightarrow> (iam_error + unit) outcome \<times> cached_revocations \<times> fs" where
  "cached_refresh J pid F answer now p c fs =
     (case answer of
        Inl e \<Rightarrow> (Returned (Inl (NodeError (FetchFailed e))), c, fs)
      | Inr pairs \<Rightarrow>
          (let c' = c\<lparr>ca_pairs := pairs, ca_fetched_at := now\<rparr> in
           case p of
             None \<Rightarrow> (Returned (Inr ()), c', fs)
           | Some p \<Rightarrow> (case atomic_write_json J pid F p c' fs of (r, fs') \<Rightarrow> (r, c', fs'))))"

text \<open>\<open>resolve_revocation\<close> of \<open>main.rs\<close>, with the flags of \<open>verify\<close> as arguments.\<close>

definition resolve_revocation :: "hex_lib \<Rightarrow> cached_revocations json_format \<Rightarrow> string \<Rightarrow> write_faults \<Rightarrow>
    read_faults \<Rightarrow> (iam_error + string) \<Rightarrow> node_answer \<Rightarrow> bool \<Rightarrow> bool \<Rightarrow> u64 \<Rightarrow> u64 \<Rightarrow> fs \<Rightarrow>
    (iam_error + revocation_set) outcome \<times> fs" where
  "resolve_revocation H J pid F R dir answer no_check fail_closed ttl now fs =
     (if no_check then (Returned (Inr rv_empty), fs)
      else
        (let policy = (if fail_closed then FailClosed else FailOpen) in
         case dir of
           Inl e \<Rightarrow> (Returned (Inl e), fs)
         | Inr d \<Rightarrow>
             (let cache_path = path_join d ''revocation-cache.json'' in
              case cached_load J R cache_path ttl fs of
                Inl e \<Rightarrow> (Returned (Inl e), fs)
              | Inr cached0 \<Rightarrow>
                  (case cached_refresh J pid F answer now (Some cache_path) cached0 fs of
                     (Stopped, cached, fs') \<Rightarrow> (Stopped, fs')
                   | (Returned (Inr _), cached, fs') \<Rightarrow> (Returned (Inr (cached_set H cached)), fs')
                   | (Returned (Inl e), cached, fs') \<Rightarrow>
                       (case policy of
                          FailOpen \<Rightarrow> (Returned (Inr (cached_set H cached)), fs')
                        | FailClosed \<Rightarrow>
                            if is_fresh cached now then (Returned (Inr (cached_set H cached)), fs')
                            else (Returned (Inl e), fs'))))))"

text \<open>\<open>POST /capabilities/revoke\<close>: the request the client sends and how it reads the answer.\<close>

record http_request =
  rq_url :: string
  rq_body :: json
  rq_bearer :: "string option"

datatype http_answer =
    SendError string
  | Status bool "string + string" "string + string option"

fun trim_end_matches :: "char \<Rightarrow> string \<Rightarrow> string" where
  "trim_end_matches c [] = []"
| "trim_end_matches c (x # xs) =
     (let r = trim_end_matches c xs in if r = [] \<and> x = c then [] else x # r)"

definition revoke_request :: "string \<Rightarrow> string option \<Rightarrow> u64 \<Rightarrow> http_request" where
  "revoke_request base_url api_token nonce =
     \<lparr>rq_url = trim_end_matches (CHR ''/'') base_url @ ''/capabilities/revoke'',
      rq_body = json_obj [(''nonce'', json_of_u64 nonce)],
      rq_bearer = (case map_option trim api_token of
         None \<Rightarrow> None | Some t \<Rightarrow> if t = [] then None else Some t)\<rparr>"

definition submit_revoke :: "(http_request \<Rightarrow> http_answer) \<Rightarrow> string \<Rightarrow> string option \<Rightarrow> u64 \<Rightarrow>
    iam_error + string" where
  "submit_revoke send base_url api_token nonce =
     (case send (revoke_request base_url api_token nonce) of
        SendError e \<Rightarrow> Inl (NodeError (FetchFailed e))
      | Status success body tx \<Rightarrow>
          if \<not> success then
            Inl (NodeError (FetchFailed (case body of Inl e \<Rightarrow> e | Inr b \<Rightarrow> b)))
          else (case tx of
             Inl e \<Rightarrow> Inl (NodeError (FetchFailed e))
           | Inr t \<Rightarrow> Inr (unwrap_or t [])))"

section \<open>What the verifier enforces\<close>

lemma rv_insert_pairs_set:
  "rv_insert_pairs H S pairs =
     S \<union> {(b, n). length b = 32 \<and> (\<exists>h. (h, n) \<in> set pairs \<and> hx_decode H (trim h) = Some b)}"
proof (induction H S pairs rule: rv_insert_pairs.induct)
  case (2 H S issuer_hex nonce rest)
  show ?case
    unfolding rv_insert_pairs.simps 2 by (cases "hx_decode H (trim issuer_hex)") auto
qed simp

lemma is_revoked_hex_pairs:
  "is_revoked (rv_from_hex_pairs H pairs) b n \<longleftrightarrow>
     length b = 32 \<and> (\<exists>h. (h, n) \<in> set pairs \<and> hx_decode H (trim h) = Some b)"
  by (auto simp: is_revoked_def rv_from_hex_pairs_def rv_insert_pairs_set)

lemma is_revoked_listed:
  assumes "hex_lib_ok H" "node_id_ok b" "(hx_encode H b, n) \<in> set pairs"
  shows "is_revoked (rv_from_hex_pairs H pairs) b n"
  using assms hex_codec.dec_enc [OF assms(1)] hex_codec.hc_trim [OF assms(1)]
  unfolding is_revoked_hex_pairs node_id_ok_def by metis

lemma is_fresh_iff:
  "is_fresh c now \<longleftrightarrow> ca_fetched_at c \<noteq> 0 \<and>
     (ca_ttl_secs c = 0 \<or> unat now \<le> unat (ca_fetched_at c) + unat (ca_ttl_secs c))"
  by (auto simp: is_fresh_def word_le_nat_alt saturating_sub_u64_max)

lemma cached_refresh_result:
  assumes "cached_refresh J pid F answer now p c fs = (r, c', fs')"
  shows "(case answer of
      Inl e \<Rightarrow> c' = c \<and> fs' = fs \<and> r = Returned (Inl (NodeError (FetchFailed e)))
    | Inr pairs \<Rightarrow> c' = c\<lparr>ca_pairs := pairs, ca_fetched_at := now\<rparr>)"
  using assms by (auto simp: cached_refresh_def Let_def split: sum.splits option.splits prod.splits)

lemma resolve_cases:
  assumes "resolve_revocation H J pid F R dir answer False fail_closed ttl now fs = (Returned (Inr rv), fs')"
  obtains d c0 c r where "dir = Inr d" "cached_load J R (path_join d ''revocation-cache.json'') ttl fs = Inr c0"
    and "cached_refresh J pid F answer now (Some (path_join d ''revocation-cache.json'')) c0 fs = (Returned r, c, fs')"
    and "rv = cached_set H c" and "fail_closed \<Longrightarrow> is_ok r \<or> is_fresh c now"
proof -
  obtain d where d: "dir = Inr d"
    using assms by (cases dir) (simp_all add: resolve_revocation_def)
  let ?p = "path_join d ''revocation-cache.json''"
  obtain c0 where c0: "cached_load J R ?p ttl fs = Inr c0"
    using assms d by (cases "cached_load J R ?p ttl fs") (simp_all add: resolve_revocation_def Let_def)
  obtain o1 c fs1 where ref: "cached_refresh J pid F answer now (Some ?p) c0 fs = (o1, c, fs1)"
    by (rule prod_cases3)
  have "\<exists>r. o1 = Returned r \<and> fs1 = fs' \<and> rv = cached_set H c \<and> (fail_closed \<longrightarrow> is_ok r \<or> is_fresh c now)"
    using assms d c0 ref
    by (auto simp: resolve_revocation_def Let_def split: outcome.splits sum.splits if_splits
        revocation_policy.splits)
  then show thesis using that d c0 ref by blast
qed

text \<open>
  Revocation reaches the verifier: when the node answers with a list that contains a link
  of the chain, then every verification with the set that \<open>resolve_revocation\<close> returns denies the token,
  under either policy and whatever happens to the cache file.
\<close>

lemma revoked_link_denied:
  assumes "hex_lib_ok H" "authorize_law L K"
    and "resolve_revocation H J pid F R dir (Inr pairs) False fail_closed ttl now fs =
      (Returned (Inr rv), fs')"
    and "guarded_decode L i token = Inr chain" "s \<in> set chain"
    and "node_id_ok (cap_issuer (lib_cap L s))"
    and "(hx_encode H (cap_issuer (lib_cap L s)), cap_nonce (lib_cap L s)) \<in> set pairs"
  shows "\<exists>e. verify L i self tags t requester action token (rv_predicate rv) = Inl (Denied e)"
proof -
  obtain c0 c r d where c: "cached_refresh J pid F (Inr pairs) now
      (Some (path_join d ''revocation-cache.json'')) c0 fs = (Returned r, c, fs')"
    and rv: "rv = cached_set H c"
    using assms(3) by (rule resolve_cases) blast
  have "rv = rv_from_hex_pairs H pairs"
    using cached_refresh_result [OF c] rv by (simp add: cached_set_def)
  then have "is_revoked rv (cap_issuer (lib_cap L s)) (cap_nonce (lib_cap L s))"
    using is_revoked_listed [OF assms(1,6,7)] by simp
  then have dead: "\<not> link_live (lib_cap L s) t (rv_predicate rv)"
    by (simp add: link_live_def rv_predicate_def)
  then have "\<not> documented_ok L K self (iam_roots i) tags t (principal_node_id requester) action chain
      (rv_predicate rv)"
    using assms(5) by (auto simp: documented_ok_def)
  then have "\<not> is_ok (lib_authorize L self (iam_roots i) tags t (principal_node_id requester) action
      chain (rv_predicate rv))"
    using assms(2) by (simp add: authorize_law_def)
  with assms(4) show ?thesis
    by (auto simp: verify_def result_simps is_ok_def split: sum.splits)
qed

text \<open>
  Property C37. Fail closed means closed: without an answer from the node, \<open>resolve_revocation\<close> under
  \<open>--fail-closed\<close> returns a set only if the cache file holds a snapshot that was fetched and whose age
  is within the freshness window, and then returns exactly that snapshot; otherwise it is an error.
\<close>

theorem fail_closed_needs_fresh:
  assumes "resolve_revocation H J pid F R dir (Inl e) False True ttl now fs = (Returned res, fs')"
  shows "case res of
      Inl _ \<Rightarrow> True
    | Inr rv \<Rightarrow> (\<exists>d c. dir = Inr d \<and>
        load_json_or_default J cached_default R (path_join d ''revocation-cache.json'') fs = Inr c \<and>
        rv = rv_from_hex_pairs H (ca_pairs c) \<and> ca_fetched_at c \<noteq> 0 \<and>
        (ttl = 0 \<or> unat now \<le> unat (ca_fetched_at c) + unat ttl))"
proof (cases res)
  case (Inr rv)
  from assms [unfolded Inr] obtain d c0 c r where d: "dir = Inr d"
    and load: "cached_load J R (path_join d ''revocation-cache.json'') ttl fs = Inr c0"
    and ref: "cached_refresh J pid F (Inl e) now (Some (path_join d ''revocation-cache.json'')) c0 fs =
      (Returned r, c, fs')"
    and rv: "rv = cached_set H c" and fresh: "is_ok r \<or> is_fresh c now"
    by (rule resolve_cases) blast
  have "c = c0" "\<not> is_ok r"
    using cached_refresh_result [OF ref] by auto
  moreover obtain c1 where
    "load_json_or_default J cached_default R (path_join d ''revocation-cache.json'') fs = Inr c1"
    "c0 = c1\<lparr>ca_ttl_secs := ttl\<rparr>"
    using load by (auto simp: cached_load_def and_then_Inr)
  ultimately show ?thesis
    using d rv fresh Inr by (auto simp: is_fresh_iff cached_set_def)
qed simp

text \<open>
  The contrast: under the default policy an unreachable node and a missing cache give the empty set.
\<close>

lemma fail_open_may_be_empty:
  "resolve_revocation H J pid F \<lparr>rf_stat = None, rf_read = None\<rparr> (Inr d) (Inl e) False False ttl now
     (\<lambda>_. None) = (Returned (Inr rv_empty), \<lambda>_. None)"
  by (simp add: resolve_revocation_def cached_load_def load_json_or_default_def result_simps
      cached_refresh_def cached_set_def cached_default_def rv_from_hex_pairs_def rv_empty_def Let_def)

section \<open>A small cache\<close>

definition demo_cache :: cached_revocations where
  "demo_cache = \<lparr>ca_pairs = [(hx_encode own_hex (demo_node 1), 7)], ca_fetched_at = 100, ca_ttl_secs = 0\<rparr>"

definition demo_cache_json :: "cached_revocations json_format" where
  "demo_cache_json = \<lparr>jf_print = (\<lambda>_. Inr ''c''), jf_parse = (\<lambda>_. Inr demo_cache)\<rparr>"

abbreviation demo_resolve :: "node_answer \<Rightarrow> (iam_error + revocation_set) outcome \<times> fs" where
  "demo_resolve answer \<equiv> resolve_revocation own_hex demo_cache_json ''1'' no_faults
     \<lparr>rf_stat = None, rf_read = None\<rparr> (Inr ''iam'') answer False True 60 150 (\<lambda>_. Some ''c'')"

lemma demo_resolve_ok:
  "demo_resolve answer = (Returned (Inr (rv_from_hex_pairs own_hex (ca_pairs demo_cache))), snd (demo_resolve answer))"
  if "answer \<in> {Inl ''down'', Inr (ca_pairs demo_cache)}"
  using that
  by (auto simp: resolve_revocation_def cached_load_def load_json_or_default_def result_simps Let_def
      demo_cache_json_def cached_refresh_def atomic_write_json_def path_join_def sys_call_def no_faults_def
      rename_into_def cached_set_def is_fresh_def demo_cache_def MAX_STORE_BYTES_def saturating_sub_u64_def)

lemma revoked_link_denied_witness:
  "\<exists>e. verify demo_L demo_iam (demo_node 1) [] 5 (Principal (demo_node 3)) ''s:r'' (gr_token demo_child)
     (rv_predicate (rv_from_hex_pairs own_hex (ca_pairs demo_cache))) = Inl (Denied e)"
proof (rule revoked_link_denied [OF own_hex_codec demo_authorize_law demo_resolve_ok demo_child_decodes])
  show "hd (gr_chain demo_child) \<in> set (gr_chain demo_child)"
    by (simp add: demo_child_def demo_root_def)
  have c: "lib_cap demo_L (hd (gr_chain demo_child)) = hd (gr_chain demo_root)"
    by (simp add: demo_lib_def demo_base_def demo_child_def demo_root_def)
  show "node_id_ok (cap_issuer (lib_cap demo_L (hd (gr_chain demo_child))))"
    unfolding c by (simp add: demo_root_def demo_issue_def demo_node_def node_id_ok_def)
  show "(hx_encode own_hex (cap_issuer (lib_cap demo_L (hd (gr_chain demo_child)))),
      cap_nonce (lib_cap demo_L (hd (gr_chain demo_child)))) \<in> set (ca_pairs demo_cache)"
    unfolding c by (simp add: demo_root_def demo_issue_def demo_cache_def)
qed simp

theorem fail_closed_needs_fresh_witness:
  "\<exists>c. load_json_or_default demo_cache_json cached_default \<lparr>rf_stat = None, rf_read = None\<rparr>
     (path_join ''iam'' ''revocation-cache.json'') (\<lambda>_. Some ''c'') = Inr c \<and> ca_fetched_at c \<noteq> 0"
  using fail_closed_needs_fresh [OF demo_resolve_ok [of "Inl ''down''"]] by auto

end
