(* ===== verification/AuditLog.thy ===== *)
theory AuditLog
  imports Revocation "HOL-Library.While_Combinator"
begin

text \<open>
  \<open>audit.rs\<close>: the access audit log of the mesh key/value store, a bounded ring of events and a
  counter per actor and target. A poisoned lock, which drops the record, is not modelled.
\<close>

datatype access_action = KvRead | KvWrite | KvDelete

record event =
  ev_at :: u64
  ev_actor :: string
  ev_action :: access_action
  ev_target :: string
  ev_ns :: string
  ev_allowed :: bool

record counter =
  ct_allowed :: u64
  ct_denied :: u64
  ct_last_at :: u64

definition counter_default :: counter where
  "counter_default = \<lparr>ct_allowed = 0, ct_denied = 0, ct_last_at = 0\<rparr>"

definition MAX_EVENTS :: nat where
  "MAX_EVENTS = 4096"

record audit =
  au_ns :: string
  au_events :: "event list"
  au_counters :: "string \<times> string \<Rightarrow> counter option"

definition audit_new :: "string \<Rightarrow> audit" where
  "audit_new ns = \<lparr>au_ns = ns, au_events = [], au_counters = (\<lambda>_. None)\<rparr>"

text \<open>\<open>while events.len() > MAX_EVENTS { pop_front() }\<close>\<close>

function pop_overflow :: "'a list \<Rightarrow> 'a list" where
  "pop_overflow xs = (if length xs > MAX_EVENTS then pop_overflow (tl xs) else xs)"
  by auto
termination
  by (relation "measure length") (auto simp: MAX_EVENTS_def)

declare pop_overflow.simps [simp del]

definition bump :: "bool \<Rightarrow> u64 \<Rightarrow> counter \<Rightarrow> counter" where
  "bump allowed at c =
     (if allowed then c\<lparr>ct_allowed := ct_allowed c + 1, ct_last_at := at\<rparr>
      else c\<lparr>ct_denied := ct_denied c + 1, ct_last_at := at\<rparr>)"

definition audit_record ::
  "u64 \<Rightarrow> string \<Rightarrow> access_action \<Rightarrow> string \<Rightarrow> bool \<Rightarrow> audit \<Rightarrow> event \<times> audit" where
  "audit_record now actor action target allowed a =
     (let ev = \<lparr>ev_at = now, ev_actor = actor, ev_action = action, ev_target = target,
                 ev_ns = au_ns a, ev_allowed = allowed\<rparr>;
          c = bump allowed now (unwrap_or (au_counters a (actor, target)) counter_default)
      in (ev, a\<lparr>au_counters := (au_counters a)((actor, target) \<mapsto> c),
                au_events := pop_overflow (au_events a @ [ev])\<rparr>))"

definition audit_recent :: "nat \<Rightarrow> audit \<Rightarrow> event list" where
  "audit_recent limit a = rev (take limit (rev (au_events a)))"

section \<open>The ring and the counters\<close>

lemma pop_overflow_eq: "pop_overflow xs = drop_overflow MAX_EVENTS xs"
proof (induction xs rule: pop_overflow.induct)
  case (1 xs)
  show ?case
  proof (cases "length xs > MAX_EVENTS")
    case True
    then obtain y ys where xs: "xs = y # ys" by (cases xs) auto
    from True 1 show ?thesis
      by (subst pop_overflow.simps) (auto simp: xs drop_overflow_def Suc_diff_le not_less_eq)
  next
    case False
    then show ?thesis by (subst pop_overflow.simps) (simp add: drop_overflow_def)
  qed
qed

type_synonym access = "u64 \<times> string \<times> access_action \<times> string \<times> bool"

definition record_access :: "audit \<Rightarrow> access \<Rightarrow> audit" where
  "record_access a x = (case x of (now, actor, action, target, allowed) \<Rightarrow>
     snd (audit_record now actor action target allowed a))"

definition access_event :: "string \<Rightarrow> access \<Rightarrow> event" where
  "access_event ns x = (case x of (now, actor, action, target, allowed) \<Rightarrow>
     \<lparr>ev_at = now, ev_actor = actor, ev_action = action, ev_target = target, ev_ns = ns,
      ev_allowed = allowed\<rparr>)"

fun access_key :: "access \<Rightarrow> string \<times> string" where
  "access_key (now, actor, action, target, allowed) = (actor, target)"

fun access_allowed :: "access \<Rightarrow> bool" where
  "access_allowed (now, actor, action, target, allowed) = allowed"

lemma record_access_sel:
  "au_ns (record_access a x) = au_ns a"
  "au_events (record_access a x) = drop_overflow MAX_EVENTS (au_events a @ [access_event (au_ns a) x])"
  "au_counters (record_access a x) = (au_counters a)(access_key x \<mapsto>
     bump (access_allowed x) (fst x) (unwrap_or (au_counters a (access_key x)) counter_default))"
  by (cases x; simp add: record_access_def audit_record_def Let_def access_event_def pop_overflow_eq)+

lemma foldl_record_ns: "au_ns (foldl record_access (audit_new ns) xs) = ns"
  by (induction xs rule: rev_induct) (simp_all add: record_access_sel(1), simp add: audit_new_def)

lemma trim_loop:
  "while_option (\<lambda>ys. length ys > n) tl xs = Some (drop_overflow n xs)"
proof (induction xs)
  case Nil
  then show ?case by (subst while_option_unfold) (simp add: drop_overflow_def)
next
  case (Cons x xs)
  then show ?case
    by (subst while_option_unfold) (auto simp: drop_overflow_def Suc_diff_le not_less_eq)
qed

text \<open>
  Property C39. Recording ends and the audit log forgets no access. After any sequence of accesses the
  ring holds the newest \<open>MAX_EVENTS\<close> of them in order; recording one more runs the trimming loop, as a
  loop that might run for ever, to an end, with the ring of the new log as what it leaves; and the counter
  of an actor and target has counted every allowed and every denied access of that pair, also those
  that the ring has dropped.
\<close>

theorem audit_log_complete:
  "au_events (foldl record_access (audit_new ns) xs) = drop_overflow MAX_EVENTS (map (access_event ns) xs) \<and>
   while_option (\<lambda>evs. length evs > MAX_EVENTS) tl
     (au_events (foldl record_access (audit_new ns) xs) @ [access_event ns x]) =
     Some (au_events (record_access (foldl record_access (audit_new ns) xs) x)) \<and>
   (let ys = filter (\<lambda>x. access_key x = k) xs;
        c = unwrap_or (au_counters (foldl record_access (audit_new ns) xs) k) counter_default
    in ct_allowed c = of_nat (length (filter access_allowed ys)) \<and>
       ct_denied c = of_nat (length (filter (\<lambda>x. \<not> access_allowed x) ys)))"
proof (intro conjI)
  show "au_events (foldl record_access (audit_new ns) xs) = drop_overflow MAX_EVENTS (map (access_event ns) xs)"
    by (induction xs rule: rev_induct)
      (simp_all add: record_access_sel foldl_record_ns drop_overflow_snoc, simp add: audit_new_def drop_overflow_def)
  show "while_option (\<lambda>evs. length evs > MAX_EVENTS) tl
     (au_events (foldl record_access (audit_new ns) xs) @ [access_event ns x]) =
     Some (au_events (record_access (foldl record_access (audit_new ns) xs) x))"
    by (simp add: trim_loop record_access_sel foldl_record_ns)
  show "let ys = filter (\<lambda>x. access_key x = k) xs;
        c = unwrap_or (au_counters (foldl record_access (audit_new ns) xs) k) counter_default
    in ct_allowed c = of_nat (length (filter access_allowed ys)) \<and>
       ct_denied c = of_nat (length (filter (\<lambda>x. \<not> access_allowed x) ys))"
    by (induction xs rule: rev_induct)
      (auto simp: record_access_sel Let_def bump_def unwrap_or_def audit_new_def counter_default_def)
qed

end
