(* ===== verification/AuthKv.thy ===== *)
theory AuthKv
  imports AuditLog
begin

text \<open>
  \<open>authkv.rs\<close>: the authenticated key/value store of one namespace. A request is decoded, authorized
  by the sensitivity of its key and the capability chain it presents, audited, and run against a
  last-writer-wins map whose writes go through the replicated log.
\<close>

definition ABILITY_KV_WRITE :: string where
  "ABILITY_KV_WRITE = ''kv:write''"

definition ABILITY_KV_READ :: string where
  "ABILITY_KV_READ = ''kv:read''"

definition is_sensitive_key :: "string \<Rightarrow> bool" where
  "is_sensitive_key key \<longleftrightarrow> key = ''meta'' \<or> starts_with key ''s.'' \<or> starts_with key ''d.'' \<or>
     starts_with key ''g.''"

definition kv_topic :: "string \<Rightarrow> string" where
  "kv_topic ns = ''ce-kv/'' @ ns @ ''/1''"

definition kv_collection :: "string \<Rightarrow> string" where
  "kv_collection ns = ''ce-kv/'' @ ns"

definition kv_service :: "string \<Rightarrow> string" where
  "kv_service ns = ''ce-kv-'' @ ns"

section \<open>The replicated map\<close>

type_synonym kv_map = "(string, json) btree"

datatype kv_op = KvPut string json | KvDel string

fun kv_apply :: "kv_op \<Rightarrow> kv_map \<Rightarrow> kv_map" where
  "kv_apply (KvPut key value) m = bt_insert key value m"
| "kv_apply (KvDel key) m = bt_remove key m"

text \<open>
  \<open>Replicated::propose\<close> of \<open>ce_coord\<close> at the writer. A proposal that succeeds has been applied; one
  that fails has not.
\<close>

type_synonym propose = "kv_op \<Rightarrow> kv_map \<Rightarrow> (string + unit) \<times> kv_map"

definition propose_law :: "propose \<Rightarrow> bool" where
  "propose_law pr \<longleftrightarrow> (\<forall>op m. case pr op m of
     (Inr _, m') \<Rightarrow> m' = kv_apply op m | (Inl _, m') \<Rightarrow> m' = m)"

section \<open>Requests\<close>

datatype kv_req =
    ReqGet string string
  | ReqPut string json string
  | ReqDel string string
  | ReqList string nat string

text \<open>
  What \<open>serde\<close> derives for the tagged enum: the fields in order, \<open>caps\<close>, \<open>prefix\<close> and \<open>limit\<close> with
  their defaults when absent. \<open>None\<close> is a shape error.
\<close>

definition field_str :: "json \<Rightarrow> string \<Rightarrow> string option" where
  "field_str v k = Option.bind (json_get v k) as_str"

definition field_str_default :: "json \<Rightarrow> string \<Rightarrow> string option" where
  "field_str_default v k = (case json_get v k of None \<Rightarrow> Some [] | Some x \<Rightarrow> as_str x)"

definition field_usize_default :: "json \<Rightarrow> string \<Rightarrow> nat option" where
  "field_usize_default v k =
     (case json_get v k of None \<Rightarrow> Some 0 | Some x \<Rightarrow> map_option unat (as_u64 x))"

definition kv_req_of_json :: "json \<Rightarrow> kv_req option" where
  "kv_req_of_json v = Option.bind (field_str v ''op'') (\<lambda>op.
     if op = ''get'' then
       Option.bind (field_str v ''key'') (\<lambda>key.
       Option.bind (field_str_default v ''caps'') (\<lambda>caps. Some (ReqGet key caps)))
     else if op = ''put'' then
       Option.bind (field_str v ''key'') (\<lambda>key.
       Option.bind (json_get v ''value'') (\<lambda>value.
       Option.bind (field_str_default v ''caps'') (\<lambda>caps. Some (ReqPut key value caps))))
     else if op = ''del'' then
       Option.bind (field_str v ''key'') (\<lambda>key.
       Option.bind (field_str_default v ''caps'') (\<lambda>caps. Some (ReqDel key caps)))
     else if op = ''list'' then
       Option.bind (field_str_default v ''prefix'') (\<lambda>pre.
       Option.bind (field_usize_default v ''limit'') (\<lambda>limit.
       Option.bind (field_str_default v ''caps'') (\<lambda>caps. Some (ReqList pre limit caps))))
     else None)"

text \<open>
  The payload of a request or a reply, as the bytes that \<open>serde_json\<close> prints and parses; \<open>w_error\<close> is
  the text of a shape error, \<open>w_message\<close> that of an error of the service.
\<close>

record 'w wire =
  w_print :: "json \<Rightarrow> 'w"
  w_parse :: "'w \<Rightarrow> string + json"
  w_error :: "json \<Rightarrow> string"
  w_message :: "iam_error \<Rightarrow> string"

definition error_reply :: "string \<Rightarrow> json" where
  "error_reply e = json_obj [(''error'', JStr e)]"

definition ok_reply :: json where
  "ok_reply = json_obj [(''ok'', JBool True)]"

section \<open>The server\<close>

record authkv =
  ak_ns :: string
  ak_self_hex :: string
  ak_self_id :: node_id
  ak_map :: kv_map
  ak_iam :: iam
  ak_audit :: audit
  ak_enforce_write :: bool
  ak_enforce_read :: bool
  ak_revoked :: "node_id \<Rightarrow> u64 \<Rightarrow> bool"

definition parse_node_id :: "hex_lib \<Rightarrow> string \<Rightarrow> node_id option" where
  "parse_node_id H s =
     Option.bind (hx_decode H (trim s)) (\<lambda>b. if length b = 32 then Some b else None)"

text \<open>The node id of the coordinator and the map its log replays to come from \<open>ce_coord\<close>.\<close>

definition authkv_open :: "hex_lib \<Rightarrow> string \<Rightarrow> (string + kv_map) \<Rightarrow> string \<Rightarrow> iam \<Rightarrow> string + authkv" where
  "authkv_open H coord_node_id writer ns iam =
     and_then (ok_or (parse_node_id H coord_node_id) (''local node id is not 64-hex: '' @ coord_node_id))
       (\<lambda>self_id.
     and_then writer (\<lambda>m.
     Inr \<lparr>ak_ns = ns, ak_self_hex = coord_node_id, ak_self_id = self_id, ak_map = m, ak_iam = iam,
          ak_audit = audit_new ns, ak_enforce_write = False, ak_enforce_read = False,
          ak_revoked = (\<lambda>_ _. False)\<rparr>))"

definition authkv_enforcing :: "bool \<Rightarrow> bool \<Rightarrow> authkv \<Rightarrow> authkv" where
  "authkv_enforcing write read a = a\<lparr>ak_enforce_write := write, ak_enforce_read := read\<rparr>"

definition authkv_with_revocation :: "(node_id \<Rightarrow> u64 \<Rightarrow> bool) \<Rightarrow> authkv \<Rightarrow> authkv" where
  "authkv_with_revocation f a = a\<lparr>ak_revoked := f\<rparr>"

text \<open>The parameters of a request: the codecs, the capability library, the wire and the clock.\<close>

record ('i, 's, 'w) kv_env =
  ke_hex :: hex_lib
  ke_lib :: "('i, 's) cap_lib"
  ke_wire :: "'w wire"
  ke_now :: u64
  ke_propose :: propose

definition kv_authorize :: "('i, 's, 'w) kv_env \<Rightarrow> authkv \<Rightarrow> string \<Rightarrow> string \<Rightarrow> string \<Rightarrow> string + unit" where
  "kv_authorize E a sender caps ability =
     and_then (map_err (\<lambda>_. ''sender '' @ sender @ '' is not a verifiable node id'')
         (principal_parse (ke_hex E) sender)) (\<lambda>requester.
     map_err (w_message (ke_wire E))
       (verify (ke_lib E) (ak_iam a) (ak_self_id a) [] (ke_now E) requester ability caps (ak_revoked a)))"

definition write_allowed :: "('i, 's, 'w) kv_env \<Rightarrow> authkv \<Rightarrow> string \<Rightarrow> string \<Rightarrow> string + unit" where
  "write_allowed E a sender caps =
     (if sender = ak_self_hex a then Inr ()
      else if \<not> ak_enforce_write a then Inr ()
      else kv_authorize E a sender caps ABILITY_KV_WRITE)"

definition read_allowed :: "('i, 's, 'w) kv_env \<Rightarrow> authkv \<Rightarrow> string \<Rightarrow> string \<Rightarrow> string + unit" where
  "read_allowed E a sender caps =
     (if sender = ak_self_hex a then Inr ()
      else if \<not> ak_enforce_read a then Inr ()
      else kv_authorize E a sender caps ABILITY_KV_READ)"

definition kv_audit :: "('i, 's, 'w) kv_env \<Rightarrow> string \<Rightarrow> access_action \<Rightarrow> string \<Rightarrow> bool \<Rightarrow> authkv \<Rightarrow> authkv" where
  "kv_audit E sender action target allowed a =
     a\<lparr>ak_audit := snd (audit_record (ke_now E) sender action target allowed (ak_audit a))\<rparr>"

text \<open>The write half of \<open>put\<close> and \<open>del\<close>, after the gate.\<close>

definition kv_write :: "('i, 's, 'w) kv_env \<Rightarrow> string \<Rightarrow> access_action \<Rightarrow> string \<Rightarrow> kv_op \<Rightarrow> string \<Rightarrow>
    authkv \<Rightarrow> json \<times> authkv" where
  "kv_write E sender action key op failed a =
     (let a1 = (if is_sensitive_key key then kv_audit E sender action key True a else a) in
      case ke_propose E op (ak_map a1) of
        (Inr _, m) \<Rightarrow> (ok_reply, a1\<lparr>ak_map := m\<rparr>)
      | (Inl e, m) \<Rightarrow> (error_reply (failed @ e), a1\<lparr>ak_map := m\<rparr>))"

definition kv_items :: "string \<Rightarrow> nat \<Rightarrow> kv_map \<Rightarrow> json list" where
  "kv_items pre cap m =
     map (\<lambda>(k, v). json_obj [(''key'', JStr k), (''value'', v)])
       (take cap (filter (\<lambda>(k, v). starts_with k pre) m))"

fun kv_handle :: "('i, 's, 'w) kv_env \<Rightarrow> string \<Rightarrow> kv_req \<Rightarrow> authkv \<Rightarrow> json \<times> authkv" where
  "kv_handle E sender (ReqGet key caps) a =
     (let value = (\<lambda>a. json_obj [(''value'', unwrap_or (bt_get (ak_map a) key) JNull)]) in
      if is_sensitive_key key then
        (case read_allowed E a sender caps of
           Inl reason \<Rightarrow> (error_reply (''kv read denied: '' @ reason), kv_audit E sender KvRead key False a)
         | Inr _ \<Rightarrow> (let a1 = kv_audit E sender KvRead key True a in (value a1, a1)))
      else (value a, a))"
| "kv_handle E sender (ReqPut key v caps) a =
     (case write_allowed E a sender caps of
        Inl reason \<Rightarrow> (error_reply (''kv write denied: '' @ reason), kv_audit E sender KvWrite key False a)
      | Inr _ \<Rightarrow> kv_write E sender KvWrite key (KvPut key v) ''put failed: '' a)"
| "kv_handle E sender (ReqDel key caps) a =
     (case write_allowed E a sender caps of
        Inl reason \<Rightarrow> (error_reply (''kv delete denied: '' @ reason), kv_audit E sender KvDelete key False a)
      | Inr _ \<Rightarrow> kv_write E sender KvDelete key (KvDel key) ''del failed: '' a)"
| "kv_handle E sender (ReqList pre limit caps) a =
     (let touches_sensitive = pre = [] \<or> is_sensitive_key pre;
          items = (\<lambda>a. json_obj [(''items'',
            JArr (kv_items pre (if limit = 0 then 1000 else limit) (ak_map a)))]) in
      if touches_sensitive then
        (case read_allowed E a sender caps of
           Inl reason \<Rightarrow> (error_reply (''kv list denied: '' @ reason),
             kv_audit E sender KvRead (pre @ ''*'') False a)
         | Inr _ \<Rightarrow> (items a, a))
      else (items a, a))"

definition handle_request :: "('i, 's, 'w) kv_env \<Rightarrow> string \<Rightarrow> 'w \<Rightarrow> authkv \<Rightarrow> 'w \<times> authkv" where
  "handle_request E sender payload a =
     (case w_parse (ke_wire E) payload of
        Inl e \<Rightarrow> (w_print (ke_wire E) (error_reply (''bad kv request: '' @ e)), a)
      | Inr v \<Rightarrow>
          (case kv_req_of_json v of
             None \<Rightarrow> (w_print (ke_wire E) (error_reply (''bad kv request: '' @ w_error (ke_wire E) v)), a)
           | Some req \<Rightarrow>
               (case kv_handle E sender req a of (resp, a') \<Rightarrow> (w_print (ke_wire E) resp, a'))))"

section \<open>The gates\<close>

text \<open>The capability check a remote peer has to pass.\<close>

definition kv_holds :: "('i, 's, 'w) kv_env \<Rightarrow> authkv \<Rightarrow> string \<Rightarrow> string \<Rightarrow> string \<Rightarrow> bool" where
  "kv_holds E a sender caps ability \<longleftrightarrow> (\<exists>p. principal_parse (ke_hex E) sender = Inr p \<and>
     verify (ke_lib E) (ak_iam a) (ak_self_id a) [] (ke_now E) p ability caps (ak_revoked a) = Inr ())"

lemma kv_authorize_Inr: "kv_authorize E a sender caps ability = Inr u \<longleftrightarrow> kv_holds E a sender caps ability"
  by (auto simp: kv_authorize_def kv_holds_def and_then_Inr)

lemma write_allowed_Inr:
  "write_allowed E a sender caps = Inr u \<longleftrightarrow>
     sender = ak_self_hex a \<or> \<not> ak_enforce_write a \<or> kv_holds E a sender caps ABILITY_KV_WRITE"
  by (auto simp: write_allowed_def kv_authorize_Inr)

lemma read_allowed_Inr:
  "read_allowed E a sender caps = Inr u \<longleftrightarrow>
     sender = ak_self_hex a \<or> \<not> ak_enforce_read a \<or> kv_holds E a sender caps ABILITY_KV_READ"
  by (auto simp: read_allowed_def kv_authorize_Inr)

lemma kv_audit_sel [simp]:
  "ak_map (kv_audit E f act t al a) = ak_map a"
  "ak_enforce_write (kv_audit E f act t al a) = ak_enforce_write a"
  "ak_enforce_read (kv_audit E f act t al a) = ak_enforce_read a"
  "ak_self_hex (kv_audit E f act t al a) = ak_self_hex a"
  by (simp_all add: kv_audit_def)

lemma kv_write_map:
  "propose_law (ke_propose E) \<Longrightarrow> kv_write E sender act key op failed a = (r, a') \<Longrightarrow>
   ak_map a' = ak_map a \<or> ak_map a' = kv_apply op (ak_map a)"
  unfolding propose_law_def
  by (drule spec [of _ op], drule spec [of _ "ak_map a"])
    (auto simp: kv_write_def Let_def split: prod.splits sum.splits if_splits)

fun req_caps :: "kv_req \<Rightarrow> string" where
  "req_caps (ReqGet _ caps) = caps"
| "req_caps (ReqPut _ _ caps) = caps"
| "req_caps (ReqDel _ caps) = caps"
| "req_caps (ReqList _ _ caps) = caps"

text \<open>
  Writes are gated: with write enforcement on, a request from a remote peer changes the
  map only if the presented chain verifies for \<open>kv:write\<close> and that peer, and the change is then the
  put or delete it asked for.
\<close>

lemma authkv_write_gate:
  assumes "propose_law (ke_propose E)" "ak_enforce_write a" "sender \<noteq> ak_self_hex a"
    and "kv_handle E sender req a = (reply, a')" "ak_map a' \<noteq> ak_map a"
  shows "kv_holds E a sender (req_caps req) ABILITY_KV_WRITE \<and>
    ((\<exists>key v caps. req = ReqPut key v caps \<and> ak_map a' = bt_insert key v (ak_map a)) \<or>
     (\<exists>key caps. req = ReqDel key caps \<and> ak_map a' = bt_remove key (ak_map a)))"
proof (cases req)
  case (ReqGet key caps)
  then show ?thesis
    using assms(4,5) by (auto simp: Let_def split: if_splits sum.splits)
next
  case (ReqPut key v caps)
  show ?thesis
  proof (cases "write_allowed E a sender caps")
    case (Inl e)
    with ReqPut assms(4,5) show ?thesis by auto
  next
    case (Inr u)
    then have w: "kv_write E sender KvWrite key (KvPut key v) ''put failed: '' a = (reply, a')"
      using ReqPut assms(4) by simp
    show ?thesis
      using kv_write_map [OF assms(1) w] Inr write_allowed_Inr [of E a sender caps u] assms(2,3,5) ReqPut
      by simp
  qed
next
  case (ReqDel key caps)
  show ?thesis
  proof (cases "write_allowed E a sender caps")
    case (Inl e)
    with ReqDel assms(4,5) show ?thesis by auto
  next
    case (Inr u)
    then have w: "kv_write E sender KvDelete key (KvDel key) ''del failed: '' a = (reply, a')"
      using ReqDel assms(4) by simp
    show ?thesis
      using kv_write_map [OF assms(1) w] Inr write_allowed_Inr [of E a sender caps u] assms(2,3,5) ReqDel
      by simp
  qed
next
  case (ReqList pre limit caps)
  then show ?thesis
    using assms(4,5) by (auto simp: Let_def split: if_splits sum.splits)
qed

definition touches_sensitive :: "string \<Rightarrow> bool" where
  "touches_sensitive pre \<longleftrightarrow> pre = [] \<or> is_sensitive_key pre"

fun req_gated :: "kv_req \<Rightarrow> bool" where
  "req_gated (ReqGet key _) = is_sensitive_key key"
| "req_gated (ReqList pre _ _) = touches_sensitive pre"
| "req_gated _ = False"

text \<open>
  Property C24. Gated reads leak nothing: with read enforcement on, the reply to a remote peer that
  reads a sensitive key, or lists the empty or a sensitive prefix, without a chain that verifies for
  \<open>kv:read\<close> is the same whatever the map holds, and the map stays as it is.
\<close>

theorem authkv_read_gate:
  assumes "ak_enforce_read a" "sender \<noteq> ak_self_hex a" "req_gated req"
    and "\<not> kv_holds E a sender (req_caps req) ABILITY_KV_READ"
  shows "fst (kv_handle E sender req (a\<lparr>ak_map := m\<rparr>)) = fst (kv_handle E sender req a) \<and>
    ak_map (snd (kv_handle E sender req a)) = ak_map a"
proof -
  have other: "read_allowed E (a\<lparr>ak_map := m\<rparr>) sender caps = read_allowed E a sender caps" for caps
    by (simp add: read_allowed_def kv_authorize_def)
  have denied: "\<exists>e. read_allowed E a sender (req_caps req) = Inl e"
    using assms(1,2,4) read_allowed_Inr [of E a sender "req_caps req"]
    by (cases "read_allowed E a sender (req_caps req)") auto
  show ?thesis
    using assms(3) denied other
    by (cases req) (auto simp: Let_def touches_sensitive_def)
qed

lemma starts_with_Cons: "starts_with (x # xs) (y # ys) \<longleftrightarrow> x = y \<and> starts_with xs ys"
  by (auto simp: starts_with_def)

lemma starts_with_empty: "starts_with [] p \<longleftrightarrow> p = []"
  by (simp add: starts_with_def)

lemmas starts_with_simps = starts_with_Cons starts_with_empty

lemma prefix_cases2:
  assumes "starts_with key [c, CHR ''.'']" "starts_with key pre"
  shows "pre = [] \<or> pre = [c] \<or> starts_with pre [c, CHR ''.'']"
  using assms
  by (cases pre; cases "tl pre") (auto simp: starts_with_def prefix_def)

text \<open>
  The gate on listing misses exactly six prefixes: a prefix reaches some sensitive key
  although the gate does not ask for \<open>kv:read\<close> if and only if it is one of \<open>s\<close>, \<open>d\<close>, \<open>g\<close>, \<open>m\<close>,
  \<open>me\<close> and \<open>met\<close>.
\<close>

lemma list_gate_exact:
  "(\<exists>key. is_sensitive_key key \<and> starts_with key pre) \<and> \<not> req_gated (ReqList pre limit caps) \<longleftrightarrow>
     pre \<in> {''s'', ''d'', ''g'', ''m'', ''me'', ''met''}"
proof
  assume l: "(\<exists>key. is_sensitive_key key \<and> starts_with key pre) \<and> \<not> req_gated (ReqList pre limit caps)"
  then obtain key where key: "is_sensitive_key key" "starts_with key pre" by blast
  have pre: "pre \<noteq> []" "\<not> is_sensitive_key pre"
    using l by (simp_all add: touches_sensitive_def)
  have "pre \<in> {''m'', ''me'', ''met'', ''meta''}" if "key = ''meta''"
    using key(2) that pre(1) by (auto simp: starts_with_def prefix_Cons)
  moreover have "pre = [c]" if "starts_with key [c, CHR ''.'']" "c \<in> {CHR ''s'', CHR ''d'', CHR ''g''}" for c
    using prefix_cases2 [OF that(1) key(2)] pre that(2) by (auto simp: is_sensitive_key_def)
  ultimately show "pre \<in> {''s'', ''d'', ''g'', ''m'', ''me'', ''met''}"
    using key(1) pre(2) unfolding is_sensitive_key_def by auto
next
  assume r: "pre \<in> {''s'', ''d'', ''g'', ''m'', ''me'', ''met''}"
  have "\<exists>key. is_sensitive_key key \<and> starts_with key pre"
  proof (cases "pre \<in> {''m'', ''me'', ''met''}")
    case True
    then have "is_sensitive_key ''meta'' \<and> starts_with ''meta'' pre"
      by (auto simp: is_sensitive_key_def starts_with_simps)
    then show ?thesis by blast
  next
    case False
    then have "is_sensitive_key (pre @ ''.'') \<and> starts_with (pre @ ''.'') pre"
      using r by (auto simp: is_sensitive_key_def starts_with_simps)
    then show ?thesis by blast
  qed
  moreover have "\<not> is_sensitive_key pre" "pre \<noteq> []"
    using r by (auto simp: is_sensitive_key_def starts_with_simps)
  ultimately show "(\<exists>key. is_sensitive_key key \<and> starts_with key pre) \<and>
      \<not> req_gated (ReqList pre limit caps)"
    by (simp add: touches_sensitive_def)
qed

text \<open>
  Through one of those prefixes a remote peer without any capability lists the secret
  records of a store that enforces reads, and the access is not audited.
\<close>

lemma list_prefix_bypass:
  assumes "bt_get (ak_map a) key = Some v" "starts_with key ''s.''" "length (ak_map a) \<le> 1000"
    and "bt_ok (ak_map a)"
  shows "\<exists>items. kv_handle E sender (ReqList ''s'' 0 caps) a = (json_obj [(''items'', JArr items)], a) \<and>
    json_obj [(''key'', JStr key), (''value'', v)] \<in> set items"
proof -
  have gate: "\<not> (''s'' = [] \<or> is_sensitive_key ''s'')"
    by (simp add: is_sensitive_key_def starts_with_simps)
  have "starts_with key ''s''"
    by (rule starts_with_trans [OF assms(2)]) (simp add: starts_with_simps)
  moreover have "(key, v) \<in> set (ak_map a)"
    using assms(1,4) by (simp add: bt_get_Some_set)
  moreover have "length (filter (\<lambda>(k, v). starts_with k ''s'') (ak_map a)) \<le> 1000"
    using assms(3) length_filter_le le_trans by blast
  ultimately have "json_obj [(''key'', JStr key), (''value'', v)] \<in> set (kv_items ''s'' 1000 (ak_map a))"
    by (force simp: kv_items_def)
  with gate show ?thesis
    by (intro exI [of _ "kv_items ''s'' 1000 (ak_map a)"]) (simp add: Let_def)
qed

section \<open>A small server\<close>

definition demo_wire :: "json wire" where
  "demo_wire = \<lparr>w_print = (\<lambda>v. v), w_parse = Inr, w_error = (\<lambda>_. ''shape''), w_message = (\<lambda>_. ''denied'')\<rparr>"

definition demo_propose :: propose where
  "demo_propose op m = (Inr (), kv_apply op m)"

definition demo_env :: "(node_id, capability, json) kv_env" where
  "demo_env = \<lparr>ke_hex = own_hex, ke_lib = demo_L, ke_wire = demo_wire, ke_now = 5, ke_propose = demo_propose\<rparr>"

definition demo_kv :: authkv where
  "demo_kv = \<lparr>ak_ns = ''v'', ak_self_hex = hx_encode own_hex (demo_node 1), ak_self_id = demo_node 1,
     ak_map = [(''s.key'', JStr ''x'')], ak_iam = demo_iam, ak_audit = audit_new ''v'',
     ak_enforce_write = True, ak_enforce_read = True, ak_revoked = (\<lambda>_ _. False)\<rparr>"

lemma demo_propose_law: "propose_law (ke_propose demo_env)"
  by (simp add: propose_law_def demo_env_def demo_propose_def)

definition kv_token_chain :: "capability list" where
  "kv_token_chain = [demo_issue (demo_node 1) (demo_node 2) [''kv:write''] RAny
     (to_caveats default_conditions) 3 None]"

definition demo_kv_env :: "(node_id, capability, json) kv_env" where
  "demo_kv_env = demo_env\<lparr>ke_lib := demo_lib kv_token_chain\<rparr>"

abbreviation demo_kv_put :: "json \<times> authkv" where
  "demo_kv_put \<equiv> kv_handle demo_kv_env (hx_encode own_hex (demo_node 2))
     (ReqPut ''s.new'' (JStr ''y'') ''#'') demo_kv"

lemma authkv_write_gate_witness:
  "kv_holds demo_kv_env demo_kv (hx_encode own_hex (demo_node 2)) ''#'' ABILITY_KV_WRITE"
proof -
  have law: "propose_law (ke_propose demo_kv_env)"
    by (simp add: propose_law_def demo_kv_env_def demo_env_def demo_propose_def)
  have e: "ak_enforce_write demo_kv" by (simp add: demo_kv_def)
  have n: "hx_encode own_hex (demo_node 2) \<noteq> ak_self_hex demo_kv" by code_simp
  have c: "ak_map (snd demo_kv_put) \<noteq> ak_map demo_kv" by code_simp
  show ?thesis
    using authkv_write_gate [OF law e n _ c, of "ReqPut ''s.new'' (JStr ''y'') ''#''" "fst demo_kv_put"]
    by simp
qed

theorem authkv_read_gate_witness:
  "fst (kv_handle demo_env (hx_encode own_hex (demo_node 2)) (ReqGet ''s.key'' []) (demo_kv\<lparr>ak_map := []\<rparr>)) =
   fst (kv_handle demo_env (hx_encode own_hex (demo_node 2)) (ReqGet ''s.key'' []) demo_kv)"
proof (rule authkv_read_gate [THEN conjunct1])
  show "\<not> kv_holds demo_env demo_kv (hx_encode own_hex (demo_node 2)) (req_caps (ReqGet ''s.key'' [])) ABILITY_KV_READ"
  proof -
    have "\<not> is_ok (read_allowed demo_env demo_kv (hx_encode own_hex (demo_node 2)) [])"
      by code_simp
    then have "read_allowed demo_env demo_kv (hx_encode own_hex (demo_node 2)) [] \<noteq> Inr ()"
      by auto
    then show ?thesis
      by (simp add: read_allowed_Inr)
  qed
  show "hx_encode own_hex (demo_node 2) \<noteq> ak_self_hex demo_kv" by code_simp
qed (simp_all add: demo_kv_def is_sensitive_key_def starts_with_simps)

lemma list_prefix_bypass_witness:
  "\<exists>items. kv_handle demo_env ''x'' (ReqList ''s'' 0 []) demo_kv = (json_obj [(''items'', JArr items)], demo_kv) \<and>
     json_obj [(''key'', JStr ''s.key''), (''value'', JStr ''x'')] \<in> set items"
  by (rule list_prefix_bypass)
    (simp_all add: demo_kv_def bt_get_def starts_with_simps bt_ok_Cons)

end
