(* ===== verification/KvStore.thy ===== *)
theory KvStore
  imports AuthKv
begin

text \<open>
  The vault's \<open>Store\<close> trait of \<open>secrets.rs\<close> as an interface, and \<open>MemStore\<close>, which provides it. What
  a client may rely on is stated over the abstract view of the store, a partial map from keys to JSON
  records: an operation that fails leaves the view as it was or has taken effect, and a listing is
  complete up to the thousand entries that the mesh protocol asks for.
\<close>

record 'st store_ops =
  so_get :: "string \<Rightarrow> ('st, string, json option) act"
  so_put :: "string \<Rightarrow> json \<Rightarrow> ('st, string, unit) act"
  so_del :: "string \<Rightarrow> ('st, string, unit) act"
  so_list :: "string \<Rightarrow> ('st, string, (string \<times> json) list) act"

type_synonym kv_view = "string \<Rightarrow> json option"

definition took_effect :: "string + 'a \<Rightarrow> kv_view \<Rightarrow> kv_view \<Rightarrow> kv_view \<Rightarrow> bool" where
  "took_effect r new old v \<longleftrightarrow> v = new \<or> (\<not> is_ok r \<and> v = old)"

locale kv_store =
  fixes S :: "'st store_ops"
    and ok :: "'st \<Rightarrow> bool"
    and view :: "'st \<Rightarrow> kv_view"
  assumes get_law: "ok s \<Longrightarrow> so_get S k s = (r, s') \<Longrightarrow>
      ok s' \<and> view s' = view s \<and> (is_ok r \<longrightarrow> r = Inr (view s k))"
    and put_law: "ok s \<Longrightarrow> v \<noteq> JNull \<Longrightarrow> so_put S k v s = (ru, s') \<Longrightarrow>
      ok s' \<and> took_effect ru ((view s)(k \<mapsto> v)) (view s) (view s')"
    and del_law: "ok s \<Longrightarrow> so_del S k s = (ru, s') \<Longrightarrow>
      ok s' \<and> took_effect ru ((view s)(k := None)) (view s) (view s')"
    and list_law: "ok s \<Longrightarrow> so_list S p s = (rl, s') \<Longrightarrow>
      ok s' \<and> view s' = view s \<and>
      (\<forall>es. rl = Inr es \<longrightarrow> distinct (map fst es) \<and>
         (\<forall>k v. (k, v) \<in> set es \<longrightarrow> starts_with k p \<and> view s k = Some v) \<and>
         (length es < 1000 \<longrightarrow> (\<forall>k v. starts_with k p \<longrightarrow> view s k = Some v \<longrightarrow> (k, v) \<in> set es)))"
begin

lemma put_Inr: "ok s \<Longrightarrow> v \<noteq> JNull \<Longrightarrow> so_put S k v s = (Inr u, s') \<Longrightarrow> ok s' \<and> view s' = (view s)(k \<mapsto> v)"
  using put_law by (fastforce simp: took_effect_def)

lemma del_Inr: "ok s \<Longrightarrow> so_del S k s = (Inr u, s') \<Longrightarrow> ok s' \<and> view s' = (view s)(k := None)"
  using del_law by (fastforce simp: took_effect_def)

lemma get_Inr: "ok s \<Longrightarrow> so_get S k s = (Inr v, s') \<Longrightarrow> ok s' \<and> view s' = view s \<and> v = view s k"
  using get_law by fastforce

text \<open>Reading back what was written, whatever happened to other keys in between.\<close>

lemma put_then_get:
  assumes "ok s" "v \<noteq> JNull" "so_put S k v s = (Inr u, s1)" "so_get S k s1 = (Inr r, s2)"
  shows "r = Some v"
  using get_Inr [of s1 k r s2] put_Inr [OF assms(1-3)] assms(4) by simp

end

text \<open>A store that never fails: what it is asked is what it does.\<close>

locale kv_total = kv_store S ok view
  for S :: "'st store_ops" and ok :: "'st \<Rightarrow> bool" and view :: "'st \<Rightarrow> kv_view" +
  assumes get_total: "ok s \<Longrightarrow> \<exists>s'. so_get S k s = (Inr (view s k), s')"
    and put_total: "ok s \<Longrightarrow> v \<noteq> JNull \<Longrightarrow> \<exists>s'. so_put S k v s = (Inr (), s')"
    and del_total: "ok s \<Longrightarrow> \<exists>s'. so_del S k s = (Inr (), s')"
begin

lemma get_run: "ok s \<Longrightarrow> \<exists>s'. so_get S k s = (Inr (view s k), s') \<and> ok s' \<and> view s' = view s"
  using get_total get_Inr by blast

lemma put_run: "ok s \<Longrightarrow> v \<noteq> JNull \<Longrightarrow> \<exists>s'. so_put S k v s = (Inr (), s') \<and> ok s' \<and> view s' = (view s)(k \<mapsto> v)"
  using put_total put_Inr by blast

lemma del_run: "ok s \<Longrightarrow> \<exists>s'. so_del S k s = (Inr (), s') \<and> ok s' \<and> view s' = (view s)(k := None)"
  using del_total del_Inr by blast

end

section \<open>The in-memory store\<close>

definition mem_get :: "string \<Rightarrow> (kv_map, string, json option) act" where
  "mem_get key m = (Inr (bt_get m key), m)"

definition mem_put :: "string \<Rightarrow> json \<Rightarrow> (kv_map, string, unit) act" where
  "mem_put key value m = (Inr (), bt_insert key value m)"

definition mem_del :: "string \<Rightarrow> (kv_map, string, unit) act" where
  "mem_del key m = (Inr (), bt_remove key m)"

definition mem_list :: "string \<Rightarrow> (kv_map, string, (string \<times> json) list) act" where
  "mem_list pre m = (Inr (bt_range_prefix pre m), m)"

definition mem_store :: "kv_map store_ops" where
  "mem_store = \<lparr>so_get = mem_get, so_put = mem_put, so_del = mem_del, so_list = mem_list\<rparr>"

definition map_ok :: "kv_map \<Rightarrow> bool" where
  "map_ok m \<longleftrightarrow> bt_ok m \<and> (\<forall>k. bt_get m k \<noteq> Some JNull)"

lemma map_ok_insert: "map_ok m \<Longrightarrow> v \<noteq> JNull \<Longrightarrow> map_ok (bt_insert k v m)"
  by (simp add: map_ok_def keeps_ok btree_simps)

lemma map_ok_remove: "map_ok m \<Longrightarrow> map_ok (bt_remove k m)"
  by (simp add: map_ok_def keeps_ok btree_simps)

lemma bt_get_insert_fun: "bt_get (bt_insert k v m) = (bt_get m)(k \<mapsto> v)"
  by (auto simp: btree_simps)

lemma bt_get_remove_fun: "bt_get (bt_remove k m) = (bt_get m)(k := None)"
  by (auto simp: btree_simps)

lemma bt_ok_distinct: "bt_ok m \<Longrightarrow> distinct (map fst m)"
  by (simp add: bt_ok_def strict_sorted_iff)

lemma mem_list_entries:
  assumes "bt_ok m"
  shows "(k, v) \<in> set (bt_range_prefix p m) \<longleftrightarrow> starts_with k p \<and> bt_get m k = Some v"
    and "distinct (map fst (bt_range_prefix p m))"
  using bt_get_Some_set [OF assms] bt_ok_distinct [OF bt_ok_filter [OF assms]]
  by (auto simp: bt_range_prefix_filter [OF assms])

interpretation mem: kv_total mem_store map_ok bt_get
proof unfold_locales
  fix s r s' k
  assume "map_ok s" "so_get mem_store k s = (r, s')"
  then show "map_ok s' \<and> bt_get s' = bt_get s \<and> (is_ok r \<longrightarrow> r = Inr (bt_get s k))"
    by (auto simp: mem_store_def mem_get_def)
next
  fix s v k ru s'
  assume "map_ok s" "v \<noteq> JNull" "so_put mem_store k v s = (ru, s')"
  then show "map_ok s' \<and> took_effect ru ((bt_get s)(k \<mapsto> v)) (bt_get s) (bt_get s')"
    by (auto simp: mem_store_def mem_put_def took_effect_def map_ok_insert bt_get_insert_fun)
next
  fix s k ru s'
  assume "map_ok s" "so_del mem_store k s = (ru, s')"
  then show "map_ok s' \<and> took_effect ru ((bt_get s)(k := None)) (bt_get s) (bt_get s')"
    by (auto simp: mem_store_def mem_del_def took_effect_def map_ok_remove bt_get_remove_fun)
next
  fix s p rl s'
  assume "map_ok s" "so_list mem_store p s = (rl, s')"
  then show "map_ok s' \<and> bt_get s' = bt_get s \<and>
      (\<forall>es. rl = Inr es \<longrightarrow> distinct (map fst es) \<and>
         (\<forall>k v. (k, v) \<in> set es \<longrightarrow> starts_with k p \<and> bt_get s k = Some v) \<and>
         (length es < 1000 \<longrightarrow> (\<forall>k v. starts_with k p \<longrightarrow> bt_get s k = Some v \<longrightarrow> (k, v) \<in> set es)))"
    using mem_list_entries [of s] by (auto simp: mem_store_def mem_list_def map_ok_def)
qed (simp_all add: mem_store_def mem_get_def mem_put_def mem_del_def)

end
