(* ===== verification/MeshKv.thy ===== *)
theory MeshKv
  imports KvStore
begin

text \<open>
  \<open>kv_store.rs\<close>: the vault's store over the mesh. Every operation is a JSON request to the node that
  serves the namespace, sent through the local node's HTTP API, and its reply decoded. Composed with
  the server of \<open>authkv.rs\<close> it provides the interface of the vault's store.
\<close>

definition CE_NET_RELAY :: string where
  "CE_NET_RELAY = ''21f5c206ffbf88d7bebdf9078d687e30be5b9a3c6e7ac752e018a559faf171d4''"

record mesh_client =
  mc_node_url :: string
  mc_topic :: string
  mc_service :: string
  mc_token :: "string option"
  mc_caps :: "string option"
  mc_env_relay :: "string option"

record 'net mesh_state =
  ms_to_node :: "string option"
  ms_net :: 'net

text \<open>
  The local node's HTTP API: the answer to a discovery query, and to a mesh request, whose body
  carries the payload and whose reply may carry one.
\<close>

record 'w mesh_body =
  mb_to :: string
  mb_topic :: string
  mb_payload :: 'w
  mb_timeout_ms :: nat

datatype 'w mesh_reply =
    SendFailed string
  | HttpStatus nat
  | HttpReply "string + 'w option"

record ('w, 'net) node_api =
  na_discover :: "string \<Rightarrow> string option \<Rightarrow> 'net \<Rightarrow> json option \<times> 'net"
  na_request :: "string \<Rightarrow> 'w mesh_body \<Rightarrow> string option \<Rightarrow> 'net \<Rightarrow> 'w mesh_reply \<times> 'net"

definition non_blank :: "string option \<Rightarrow> string option" where
  "non_blank m = (case m of None \<Rightarrow> None | Some s \<Rightarrow> if trim s = [] then None else Some s)"

text \<open>The environment variables are arguments.\<close>

definition mesh_connect :: "string option \<Rightarrow> string option \<Rightarrow> string \<Rightarrow> string \<Rightarrow> string option \<Rightarrow> 'net \<Rightarrow>
    mesh_client \<times> 'net mesh_state" where
  "mesh_connect env_kv_node env_relay ns node_url token net =
     (\<lparr>mc_node_url = node_url, mc_topic = ''ce-kv/'' @ ns @ ''/1'', mc_service = ''ce-kv-'' @ ns,
       mc_token = token, mc_caps = None, mc_env_relay = env_relay\<rparr>,
      \<lparr>ms_to_node = non_blank env_kv_node, ms_net = net\<rparr>)"

definition mesh_with_caps :: "string \<Rightarrow> mesh_client \<Rightarrow> mesh_client" where
  "mesh_with_caps caps c = c\<lparr>mc_caps := (if trim caps = [] then None else Some caps)\<rparr>"

definition auth_header :: "mesh_client \<Rightarrow> string option" where
  "auth_header c =
     (case mc_token c of
        Some t \<Rightarrow> if t \<noteq> [] \<and> starts_with (mc_node_url c) ''http://'' then Some (''Bearer '' @ t) else None
      | None \<Rightarrow> None)"

fun usable_id :: "json \<Rightarrow> string option" where
  "usable_id (JStr s) = (if s \<noteq> [] then Some s else None)"
| "usable_id (JObj m) =
     (let x = (case json_get (JObj m) ''node_id'' of Some v \<Rightarrow> Some v | None \<Rightarrow> json_get (JObj m) ''id'') in
      case Option.bind x as_str of None \<Rightarrow> None | Some s \<Rightarrow> if s \<noteq> [] then Some s else None)"
| "usable_id _ = None"

fun find_map :: "('a \<Rightarrow> 'b option) \<Rightarrow> 'a list \<Rightarrow> 'b option" where
  "find_map f [] = None"
| "find_map f (x # xs) = (case f x of Some y \<Rightarrow> Some y | None \<Rightarrow> find_map f xs)"

definition first_node_id :: "json \<Rightarrow> string option" where
  "first_node_id j =
     Option.bind
       (case as_array j of
          Some a \<Rightarrow> Some a
        | None \<Rightarrow> find_map (\<lambda>k. Option.bind (json_get j k) as_array) [''providers'', ''nodes'', ''node_ids''])
       (find_map usable_id)"

definition resolve_node :: "('w, 'net) node_api \<Rightarrow> mesh_client \<Rightarrow> ('net mesh_state, string, string) act" where
  "resolve_node A c st =
     (case ms_to_node st of
        Some n \<Rightarrow> (Inr n, st)
      | None \<Rightarrow>
          (let (answer, net) = na_discover A (mc_node_url c @ ''/discovery/find/'' @ mc_service c)
                 (auth_header c) (ms_net st);
               node = unwrap_or (Option.bind answer first_node_id)
                 (unwrap_or (non_blank (mc_env_relay c)) CE_NET_RELAY)
           in (Inr node, \<lparr>ms_to_node = Some node, ms_net = net\<rparr>)))"

definition attach_caps :: "string option \<Rightarrow> json \<Rightarrow> json" where
  "attach_caps caps request =
     (case (caps, request) of
        (Some cs, JObj m) \<Rightarrow> JObj (bt_insert ''caps'' (JStr cs) m)
      | _ \<Rightarrow> request)"

definition mesh_error :: "json \<Rightarrow> string \<Rightarrow> string" where
  "mesh_error request e =
     ''mesh kv '' @ unwrap_or (Option.bind (json_get request ''op'') as_str) ''?'' @ '': '' @ e"

definition mesh_call :: "'w wire \<Rightarrow> ('w, 'net) node_api \<Rightarrow> mesh_client \<Rightarrow> json \<Rightarrow>
    ('net mesh_state, string, json) act" where
  "mesh_call W A c request0 =
     act_then (resolve_node A c) (\<lambda>to st.
       let request = attach_caps (mc_caps c) request0;
           body = \<lparr>mb_to = to, mb_topic = mc_topic c, mb_payload = w_print W request, mb_timeout_ms = 8000\<rparr>;
           (reply, net) = na_request A (mc_node_url c @ ''/mesh/request'') body (auth_header c) (ms_net st);
           st' = st\<lparr>ms_net := net\<rparr>
       in case reply of
            SendFailed e \<Rightarrow> (Inl (mesh_error request (''request failed'' @ e)), st')
          | HttpStatus n \<Rightarrow> (Inl (mesh_error request ''HTTP''), st')
          | HttpReply (Inl e) \<Rightarrow> (Inl (''decode /mesh/request reply'' @ e), st')
          | HttpReply (Inr None) \<Rightarrow> (Inl (mesh_error request ''empty reply''), st')
          | HttpReply (Inr (Some raw)) \<Rightarrow>
              (case w_parse W raw of
                 Inl e \<Rightarrow> (Inl (''parse kv reply'' @ e), st')
               | Inr out \<Rightarrow>
                   (case Option.bind (json_get out ''error'') as_str of
                      Some err \<Rightarrow> (Inl (mesh_error request err), st')
                    | None \<Rightarrow> (Inr out, st'))))"

definition mesh_get :: "'w wire \<Rightarrow> ('w, 'net) node_api \<Rightarrow> mesh_client \<Rightarrow> string \<Rightarrow>
    ('net mesh_state, string, json option) act" where
  "mesh_get W A c key =
     act_then (mesh_call W A c (json_obj [(''op'', JStr ''get''), (''key'', JStr key)])) (\<lambda>out.
       act_ret (case json_get out ''value'' of
         None \<Rightarrow> None | Some v \<Rightarrow> if v = JNull then None else Some v))"

definition mesh_put :: "'w wire \<Rightarrow> ('w, 'net) node_api \<Rightarrow> mesh_client \<Rightarrow> string \<Rightarrow> json \<Rightarrow>
    ('net mesh_state, string, unit) act" where
  "mesh_put W A c key value =
     act_then (mesh_call W A c (json_obj [(''op'', JStr ''put''), (''key'', JStr key), (''value'', value)]))
       (\<lambda>_. act_ret ())"

definition mesh_del :: "'w wire \<Rightarrow> ('w, 'net) node_api \<Rightarrow> mesh_client \<Rightarrow> string \<Rightarrow>
    ('net mesh_state, string, unit) act" where
  "mesh_del W A c key =
     act_then (mesh_call W A c (json_obj [(''op'', JStr ''del''), (''key'', JStr key)])) (\<lambda>_. act_ret ())"

definition list_entry :: "json \<Rightarrow> (string \<times> json) option" where
  "list_entry e =
     Option.bind (json_get e ''key'') (\<lambda>k. Option.bind (as_str k) (\<lambda>key.
       Some (key, unwrap_or (json_get e ''value'') JNull)))"

definition mesh_list :: "'w wire \<Rightarrow> ('w, 'net) node_api \<Rightarrow> mesh_client \<Rightarrow> string \<Rightarrow>
    ('net mesh_state, string, (string \<times> json) list) act" where
  "mesh_list W A c pre =
     act_then (mesh_call W A c (json_obj [(''op'', JStr ''list''), (''prefix'', JStr pre),
         (''limit'', JInt 1000)])) (\<lambda>out.
       act_ret (List.map_filter list_entry
         (unwrap_or (Option.bind (json_get out ''items'') as_array) [])))"

definition mesh_store :: "'w wire \<Rightarrow> ('w, 'net) node_api \<Rightarrow> mesh_client \<Rightarrow> 'net mesh_state store_ops" where
  "mesh_store W A c = \<lparr>so_get = mesh_get W A c, so_put = mesh_put W A c, so_del = mesh_del W A c,
     so_list = mesh_list W A c\<rparr>"

section \<open>The node that serves the namespace\<close>

text \<open>
  The mesh between client and server: the request reaches the server as the sender \<open>me\<close>, or it is
  lost before or after the server handles it, as \<open>fate\<close> decides from the server's state.
\<close>

datatype fate = Delivered | LostRequest | LostReply

definition kv_node :: "('i, 's, 'w) kv_env \<Rightarrow> string \<Rightarrow> (authkv \<Rightarrow> fate) \<Rightarrow> (authkv \<Rightarrow> json option) \<Rightarrow>
    ('w, authkv) node_api" where
  "kv_node E me fate discovery = \<lparr>
     na_discover = (\<lambda>url auth a. (discovery a, a)),
     na_request = (\<lambda>url body auth a.
       case fate a of
         Delivered \<Rightarrow> (case handle_request E me (mb_payload body) a of
           (w, a') \<Rightarrow> (HttpReply (Inr (Some w)), a'))
       | LostRequest \<Rightarrow> (SendFailed ''timeout'', a)
       | LostReply \<Rightarrow> (SendFailed ''timeout'', snd (handle_request E me (mb_payload body) a)))\<rparr>"

definition wire_law :: "'w wire \<Rightarrow> bool" where
  "wire_law W \<longleftrightarrow> (\<forall>v. w_parse W (w_print W v) = Inr v)"

text \<open>The server lets the client through: it is the writer itself, or holds both abilities.\<close>

definition admitted :: "('i, 's, 'w) kv_env \<Rightarrow> string \<Rightarrow> string \<Rightarrow> authkv \<Rightarrow> bool" where
  "admitted E me caps a \<longleftrightarrow>
     is_ok (read_allowed E a me caps) \<and> is_ok (write_allowed E a me caps)"

definition mesh_ok :: "('i, 's, 'w) kv_env \<Rightarrow> string \<Rightarrow> mesh_client \<Rightarrow> authkv mesh_state \<Rightarrow> bool" where
  "mesh_ok E me c st \<longleftrightarrow> wire_law (ke_wire E) \<and> propose_law (ke_propose E) \<and>
     admitted E me (unwrap_or (mc_caps c) []) (ms_net st) \<and> map_ok (ak_map (ms_net st))"

definition mesh_view :: "authkv mesh_state \<Rightarrow> kv_view" where
  "mesh_view st = bt_get (ak_map (ms_net st))"

text \<open>What a request does to the part of the server that admission depends on: nothing.\<close>

definition same_gate :: "authkv \<Rightarrow> authkv \<Rightarrow> bool" where
  "same_gate a a' \<longleftrightarrow> ak_self_hex a' = ak_self_hex a \<and> ak_self_id a' = ak_self_id a \<and>
     ak_iam a' = ak_iam a \<and> ak_enforce_write a' = ak_enforce_write a \<and>
     ak_enforce_read a' = ak_enforce_read a \<and> ak_revoked a' = ak_revoked a"

lemma same_gate_admitted: "same_gate a a' \<Longrightarrow> admitted E me caps a' = admitted E me caps a"
  by (simp add: same_gate_def admitted_def read_allowed_def write_allowed_def kv_authorize_def)

lemma same_gate_audit: "same_gate a (kv_audit E f act t al a)"
  by (simp add: same_gate_def kv_audit_def)

lemma same_gate_refl: "same_gate a a"
  by (simp add: same_gate_def)

lemma same_gate_map: "same_gate a a' \<Longrightarrow> same_gate a (a'\<lparr>ak_map := m\<rparr>)"
  by (simp add: same_gate_def)

lemma kv_write_effect:
  assumes "propose_law (ke_propose E)" "kv_write E f act key op failed a = (r, a')"
  shows "same_gate a a' \<and>
    ((r = ok_reply \<and> ak_map a' = kv_apply op (ak_map a)) \<or> ((\<exists>e. r = error_reply e) \<and> ak_map a' = ak_map a))"
proof -
  let ?a = "if is_sensitive_key key then kv_audit E f act key True a else a"
  obtain res m where pr: "ke_propose E op (ak_map a) = (res, m)" by fastforce
  have m: "case res of Inr _ \<Rightarrow> m = kv_apply op (ak_map a) | Inl _ \<Rightarrow> m = ak_map a"
    using assms(1) [unfolded propose_law_def, rule_format, where op = op and m = "ak_map a"] unfolding pr
    by (simp split: sum.splits)
  have g: "same_gate a ?a" "ak_map ?a = ak_map a"
    by (simp_all add: same_gate_audit same_gate_refl)
  have "a' = ?a\<lparr>ak_map := m\<rparr> \<and> (r = (case res of Inr _ \<Rightarrow> ok_reply | Inl e \<Rightarrow> error_reply (failed @ e)))"
    using assms(2) unfolding kv_write_def Let_def g(2) pr by (cases res) auto
  with m same_gate_map [OF g(1), of m] show ?thesis
    by (cases res) auto
qed

text \<open>The codec: a request arrives as the client meant it.\<close>

lemma json_get_attach: "json_get (attach_caps caps (json_obj kvs)) k =
    (case caps of Some cs \<Rightarrow> if k = ''caps'' then Some (JStr cs) else json_get (json_obj kvs) k
     | None \<Rightarrow> json_get (json_obj kvs) k)"
  by (simp add: attach_caps_def json_obj_def btree_simps split: option.splits)

lemma request_caps: "\<forall>e \<in> set kvs. fst e \<noteq> ''caps'' \<Longrightarrow>
    field_str_default (attach_caps caps (json_obj kvs)) ''caps'' = Some (unwrap_or caps [])"
  by (cases caps) (fastforce simp: field_str_default_def json_get_attach json_get_obj unwrap_or_def
      split: option.splits dest!: map_of_SomeD)+

lemma get_arrives:
  "kv_req_of_json (attach_caps caps (json_obj [(''op'', JStr ''get''), (''key'', JStr key)])) =
     Some (ReqGet key (unwrap_or caps []))" (is "kv_req_of_json ?v = _")
proof -
  have "field_str ?v ''op'' = Some ''get''" "field_str ?v ''key'' = Some key"
    by (cases caps; simp add: field_str_def json_get_attach json_get_obj)+
  moreover have "field_str_default ?v ''caps'' = Some (unwrap_or caps [])"
    by (rule request_caps) simp
  ultimately show ?thesis by (simp add: kv_req_of_json_def)
qed

lemma put_arrives:
  "kv_req_of_json (attach_caps caps (json_obj [(''op'', JStr ''put''), (''key'', JStr key), (''value'', v)])) =
     Some (ReqPut key v (unwrap_or caps []))" (is "kv_req_of_json ?v = _")
proof -
  have "field_str ?v ''op'' = Some ''put''" "field_str ?v ''key'' = Some key" "json_get ?v ''value'' = Some v"
    by (cases caps; simp add: field_str_def json_get_attach json_get_obj)+
  moreover have "field_str_default ?v ''caps'' = Some (unwrap_or caps [])"
    by (rule request_caps) simp
  ultimately show ?thesis by (simp add: kv_req_of_json_def)
qed

lemma del_arrives:
  "kv_req_of_json (attach_caps caps (json_obj [(''op'', JStr ''del''), (''key'', JStr key)])) =
     Some (ReqDel key (unwrap_or caps []))" (is "kv_req_of_json ?v = _")
proof -
  have "field_str ?v ''op'' = Some ''del''" "field_str ?v ''key'' = Some key"
    by (cases caps; simp add: field_str_def json_get_attach json_get_obj)+
  moreover have "field_str_default ?v ''caps'' = Some (unwrap_or caps [])"
    by (rule request_caps) simp
  ultimately show ?thesis by (simp add: kv_req_of_json_def)
qed

lemma list_arrives:
  "kv_req_of_json (attach_caps caps (json_obj [(''op'', JStr ''list''), (''prefix'', JStr p),
     (''limit'', JInt 1000)])) = Some (ReqList p 1000 (unwrap_or caps []))" (is "kv_req_of_json ?v = _")
proof -
  have "field_str ?v ''op'' = Some ''list''" "field_str_default ?v ''prefix'' = Some p"
    "field_usize_default ?v ''limit'' = Some 1000"
    by (cases caps; simp add: field_str_def field_str_default_def field_usize_default_def
        json_get_attach json_get_obj)+
  moreover have "field_str_default ?v ''caps'' = Some (unwrap_or caps [])"
    by (rule request_caps) simp
  ultimately show ?thesis by (simp add: kv_req_of_json_def)
qed

definition error_text :: "json \<Rightarrow> string option" where
  "error_text out = Option.bind (json_get out ''error'') as_str"

lemma error_text_reply [simp]:
  "error_text (error_reply e) = Some e" "error_text ok_reply = None"
  "error_text (json_obj [(''value'', v)]) = None" "error_text (json_obj [(''items'', v)]) = None"
  by (simp_all add: error_text_def error_reply_def ok_reply_def json_get_obj)

text \<open>
  A call either succeeds with the server's reply, or fails with the request not handled, or fails
  although it was.
\<close>

lemma mesh_call_node:
  assumes "wire_law (ke_wire E)" "kv_req_of_json (attach_caps (mc_caps c) req) = Some q"
    and "kv_handle E me q (ms_net st) = (resp, a')"
    and "mesh_call (ke_wire E) (kv_node E me fate disc) c req st = (r, st')"
  shows "(r = Inr resp \<and> ms_net st' = a' \<and> error_text resp = None) \<or>
    ((\<exists>e. r = Inl e) \<and> (ms_net st' = a' \<or> ms_net st' = ms_net st))"
proof -
  obtain to where "resolve_node (kv_node E me fate disc) c st =
      (Inr to, st\<lparr>ms_to_node := ms_to_node (snd (resolve_node (kv_node E me fate disc) c st))\<rparr>)"
    by (cases "ms_to_node st") (simp_all add: resolve_node_def kv_node_def Let_def)
  then obtain st1 where r: "resolve_node (kv_node E me fate disc) c st = (Inr to, st1)"
    "ms_net st1 = ms_net st" by fastforce
  have h: "handle_request E me (w_print (ke_wire E) (attach_caps (mc_caps c) req)) (ms_net st) =
      (w_print (ke_wire E) resp, a')"
    using assms(1-3) by (simp add: handle_request_def wire_law_def)
  show ?thesis
  proof (cases "fate (ms_net st)")
    case Delivered
    then show ?thesis
      using assms(1,4) r h
      by (auto simp: mesh_call_def act_then_def kv_node_def wire_law_def error_text_def Let_def
          split: option.splits)
  next
    case LostRequest
    then show ?thesis
      using assms(1,4) r h by (auto simp: mesh_call_def act_then_def kv_node_def Let_def)
  next
    case LostReply
    then show ?thesis
      using assms(1,4) r h by (auto simp: mesh_call_def act_then_def kv_node_def Let_def)
  qed
qed

section \<open>The mesh provides the vault's store\<close>

lemma admitted_get:
  assumes "admitted E me caps a"
  shows "\<exists>a'. kv_handle E me (ReqGet key caps) a =
      (json_obj [(''value'', unwrap_or (bt_get (ak_map a) key) JNull)], a') \<and> same_gate a a' \<and> ak_map a' = ak_map a"
proof (cases "read_allowed E a me caps")
  case (Inl e)
  with assms show ?thesis by (simp add: admitted_def)
next
  case (Inr u)
  then show ?thesis
    by (cases "is_sensitive_key key") (simp_all add: Let_def same_gate_audit same_gate_refl)
qed

lemma admitted_write:
  assumes "admitted E me caps a" "propose_law (ke_propose E)"
    and "(q = ReqPut key v caps \<and> op = KvPut key v) \<or> (q = ReqDel key caps \<and> op = KvDel key)"
    and "kv_handle E me q a = (r, a')"
  shows "same_gate a a' \<and> ((r = ok_reply \<and> ak_map a' = kv_apply op (ak_map a)) \<or>
      ((\<exists>e. r = error_reply e) \<and> ak_map a' = ak_map a))"
proof (cases "write_allowed E a me caps")
  case (Inl e)
  with assms(1) show ?thesis by (simp add: admitted_def)
next
  case (Inr u)
  with assms(3,4) have "\<exists>act failed. kv_write E me act key op failed a = (r, a')"
    by (auto, blast+)
  then show ?thesis using kv_write_effect [OF assms(2)] by blast
qed

lemma admitted_list:
  assumes "admitted E me caps a"
  shows "\<exists>a'. kv_handle E me (ReqList p 1000 caps) a = (json_obj [(''items'', JArr (kv_items p 1000 (ak_map a)))], a') \<and>
    same_gate a a' \<and> ak_map a' = ak_map a"
proof (cases "read_allowed E a me caps")
  case (Inl e)
  with assms show ?thesis by (simp add: admitted_def)
next
  case (Inr u)
  then show ?thesis by (auto simp: Let_def same_gate_refl)
qed

lemma list_entries: "List.map_filter list_entry (kv_items p n m) = take n (filter (\<lambda>(k, v). starts_with k p) m)"
proof -
  have "list_entry (json_obj [(''key'', JStr k), (''value'', v)]) = Some (k, v)" for k v
    by (simp add: list_entry_def json_get_obj unwrap_or_def)
  then have "List.map_filter list_entry (map (\<lambda>(k, v). json_obj [(''key'', JStr k), (''value'', v)]) es) = es" for es
    by (induction es) (auto simp: List.map_filter_simps)
  then show ?thesis by (simp add: kv_items_def)
qed

lemma mesh_ok_step:
  assumes "mesh_ok E me c st" "same_gate (ms_net st) a'" "map_ok (ak_map a')"
    and "ms_net st' = a' \<or> ms_net st' = ms_net st"
  shows "mesh_ok E me c st'"
  using assms same_gate_admitted [OF assms(2)] by (auto simp: mesh_ok_def)

lemmas mesh_parts = mesh_ok_def [THEN iffD1, THEN conjunct1]
  mesh_ok_def [THEN iffD1, THEN conjunct2, THEN conjunct1]
  mesh_ok_def [THEN iffD1, THEN conjunct2, THEN conjunct2, THEN conjunct1]
  mesh_ok_def [THEN iffD1, THEN conjunct2, THEN conjunct2, THEN conjunct2]

lemma mesh_get_effect:
  assumes "mesh_ok E me c st" "mesh_get (ke_wire E) (kv_node E me fate disc) c key st = (r, st')"
  shows "mesh_ok E me c st' \<and> mesh_view st' = mesh_view st \<and> (is_ok r \<longrightarrow> r = Inr (mesh_view st key))"
proof -
  let ?a = "ms_net st"
  let ?req = "json_obj [(''op'', JStr ''get''), (''key'', JStr key)]"
  let ?resp = "json_obj [(''value'', unwrap_or (bt_get (ak_map ?a) key) JNull)]"
  obtain a' where h: "kv_handle E me (ReqGet key (unwrap_or (mc_caps c) [])) ?a = (?resp, a')"
    "same_gate ?a a'" "ak_map a' = ak_map ?a"
    using admitted_get [OF mesh_parts(3) [OF assms(1)]] by blast
  obtain r1 where c: "mesh_call (ke_wire E) (kv_node E me fate disc) c ?req st = (r1, st')"
    "r = (case r1 of Inl e \<Rightarrow> Inl e | Inr out \<Rightarrow> Inr (case json_get out ''value'' of
         None \<Rightarrow> None | Some v \<Rightarrow> if v = JNull then None else Some v))"
    using assms(2) by (auto simp: mesh_get_def act_then_def split: prod.splits sum.splits)
  note out = mesh_call_node [OF mesh_parts(1) [OF assms(1)] get_arrives h(1) c(1)]
  have nz: "bt_get (ak_map ?a) key \<noteq> Some JNull"
    using mesh_parts(4) [OF assms(1)] by (simp add: map_ok_def)
  have "mesh_ok E me c st'"
    using mesh_ok_step [OF assms(1) h(2)] out mesh_parts(4) [OF assms(1)] h(3) by metis
  moreover have "mesh_view st' = mesh_view st"
    using out h(3) by (auto simp: mesh_view_def)
  moreover have "is_ok r \<longrightarrow> r = Inr (mesh_view st key)"
    using out c(2) nz by (auto simp: mesh_view_def json_get_obj unwrap_or_def split: option.splits)
  ultimately show ?thesis by simp
qed

lemma mesh_write_effect:
  assumes "mesh_ok E me c st" "map_ok (kv_apply op (ak_map (ms_net st)))"
    and "kv_req_of_json (attach_caps (mc_caps c) req) = Some q"
    and "(q = ReqPut key v caps \<and> op = KvPut key v) \<or> (q = ReqDel key caps \<and> op = KvDel key)"
    and "caps = unwrap_or (mc_caps c) []"
    and "act_then (mesh_call (ke_wire E) (kv_node E me fate disc) c req) (\<lambda>_. act_ret ()) st = (r, st')"
  shows "mesh_ok E me c st' \<and> took_effect r (bt_get (kv_apply op (ak_map (ms_net st)))) (mesh_view st) (mesh_view st')"
proof -
  let ?a = "ms_net st"
  obtain resp a' where h: "kv_handle E me q ?a = (resp, a')" by fastforce
  have adm: "admitted E me caps ?a"
    using mesh_parts(3) [OF assms(1)] assms(5) by simp
  note w = admitted_write [OF adm mesh_parts(2) [OF assms(1)] assms(4) h]
  obtain r1 where c: "mesh_call (ke_wire E) (kv_node E me fate disc) c req st = (r1, st')"
    "r = (case r1 of Inl e \<Rightarrow> Inl e | Inr _ \<Rightarrow> Inr ())"
    using assms(6) by (auto simp: act_then_def split: prod.splits sum.splits)
  note out = mesh_call_node [OF mesh_parts(1) [OF assms(1)] assms(3) h c(1)]
  have "map_ok (ak_map a')"
    using w assms(2) mesh_parts(4) [OF assms(1)] by auto
  then have "mesh_ok E me c st'"
    using mesh_ok_step [OF assms(1)] w out by blast
  moreover have "took_effect r (bt_get (kv_apply op (ak_map ?a))) (mesh_view st) (mesh_view st')"
    using out w c(2) by (auto simp: took_effect_def mesh_view_def)
  ultimately show ?thesis by simp
qed

lemma mesh_list_effect:
  assumes "mesh_ok E me c st" "mesh_list (ke_wire E) (kv_node E me fate disc) c p st = (r, st')"
  shows "mesh_ok E me c st' \<and> mesh_view st' = mesh_view st \<and>
    (is_ok r \<longrightarrow> r = Inr (take 1000 (filter (\<lambda>(k, v). starts_with k p) (ak_map (ms_net st)))))"
proof -
  let ?a = "ms_net st"
  let ?req = "json_obj [(''op'', JStr ''list''), (''prefix'', JStr p), (''limit'', JInt 1000)]"
  obtain a' where h: "kv_handle E me (ReqList p 1000 (unwrap_or (mc_caps c) [])) ?a =
      (json_obj [(''items'', JArr (kv_items p 1000 (ak_map ?a)))], a')"
    "same_gate ?a a'" "ak_map a' = ak_map ?a"
    using admitted_list [OF mesh_parts(3) [OF assms(1)]] by blast
  obtain r1 where c: "mesh_call (ke_wire E) (kv_node E me fate disc) c ?req st = (r1, st')"
    "r = (case r1 of Inl e \<Rightarrow> Inl e | Inr out \<Rightarrow> Inr (List.map_filter list_entry
         (unwrap_or (Option.bind (json_get out ''items'') as_array) [])))"
    using assms(2) by (auto simp: mesh_list_def act_then_def split: prod.splits sum.splits)
  note out = mesh_call_node [OF mesh_parts(1) [OF assms(1)] list_arrives h(1) c(1)]
  have "mesh_ok E me c st'"
    using mesh_ok_step [OF assms(1) h(2)] out mesh_parts(4) [OF assms(1)] h(3) by metis
  moreover have "mesh_view st' = mesh_view st"
    using out h(3) by (auto simp: mesh_view_def)
  moreover have "is_ok r \<longrightarrow> r = Inr (take 1000 (filter (\<lambda>(k, v). starts_with k p) (ak_map ?a)))"
    using out c(2) by (auto simp: json_get_obj list_entries unwrap_or_def)
  ultimately show ?thesis by simp
qed

lemma listed_entries:
  assumes "bt_ok m" "es = take n (filter (\<lambda>(k, v). starts_with k p) m)"
  shows "distinct (map fst es)"
    and "(k, v) \<in> set es \<Longrightarrow> starts_with k p \<and> bt_get m k = Some v"
    and "length es < n \<Longrightarrow> starts_with k p \<Longrightarrow> bt_get m k = Some v \<Longrightarrow> (k, v) \<in> set es"
proof -
  show "distinct (map fst es)"
    using bt_ok_distinct [OF bt_ok_filter [OF assms(1)]] assms(2) by (simp add: distinct_take take_map [symmetric])
  show "(k, v) \<in> set es \<Longrightarrow> starts_with k p \<and> bt_get m k = Some v"
    using bt_get_Some_set [OF assms(1)] assms(2) by (auto dest!: in_set_takeD)
  show "length es < n \<Longrightarrow> starts_with k p \<Longrightarrow> bt_get m k = Some v \<Longrightarrow> (k, v) \<in> set es"
    using bt_get_Some_set [OF assms(1)] assms(2) by (auto simp: min_def split: if_splits)
qed

interpretation mesh: kv_store "mesh_store (ke_wire E) (kv_node E me fate disc) c" "mesh_ok E me c" mesh_view
  for E me fate disc c
proof unfold_locales
  fix s r s' k
  assume "mesh_ok E me c s" "so_get (mesh_store (ke_wire E) (kv_node E me fate disc) c) k s = (r, s')"
  then show "mesh_ok E me c s' \<and> mesh_view s' = mesh_view s \<and> (is_ok r \<longrightarrow> r = Inr (mesh_view s k))"
    by (intro mesh_get_effect) (simp_all add: mesh_store_def)
next
  fix s v k ru s'
  assume a: "mesh_ok E me c s" "v \<noteq> JNull"
    "so_put (mesh_store (ke_wire E) (kv_node E me fate disc) c) k v s = (ru, s')"
  then show "mesh_ok E me c s' \<and> took_effect ru ((mesh_view s)(k \<mapsto> v)) (mesh_view s) (mesh_view s')"
    using mesh_write_effect [OF a(1) _ put_arrives, where op = "KvPut k v" and r = ru and st' = s']
      map_ok_insert [OF mesh_parts(4) [OF a(1)] a(2), of k]
    by (simp add: mesh_store_def mesh_put_def mesh_view_def bt_get_insert_fun)
next
  fix s k ru s'
  assume a: "mesh_ok E me c s" "so_del (mesh_store (ke_wire E) (kv_node E me fate disc) c) k s = (ru, s')"
  then show "mesh_ok E me c s' \<and> took_effect ru ((mesh_view s)(k := None)) (mesh_view s) (mesh_view s')"
    using mesh_write_effect [OF a(1) _ del_arrives, where op = "KvDel k" and r = ru and st' = s']
      map_ok_remove [OF mesh_parts(4) [OF a(1)], of k]
    by (simp add: mesh_store_def mesh_del_def mesh_view_def bt_get_remove_fun)
next
  fix s p rl s'
  assume a: "mesh_ok E me c s" "so_list (mesh_store (ke_wire E) (kv_node E me fate disc) c) p s = (rl, s')"
  have m: "bt_ok (ak_map (ms_net s))"
    using mesh_parts(4) [OF a(1)] by (simp add: map_ok_def)
  have e: "mesh_ok E me c s' \<and> mesh_view s' = mesh_view s \<and>
    (is_ok rl \<longrightarrow> rl = Inr (take 1000 (filter (\<lambda>(k, v). starts_with k p) (ak_map (ms_net s)))))"
    using a by (intro mesh_list_effect) (simp_all add: mesh_store_def)
  show "mesh_ok E me c s' \<and> mesh_view s' = mesh_view s \<and>
      (\<forall>es. rl = Inr es \<longrightarrow> distinct (map fst es) \<and>
         (\<forall>k v. (k, v) \<in> set es \<longrightarrow> starts_with k p \<and> mesh_view s k = Some v) \<and>
         (length es < 1000 \<longrightarrow> (\<forall>k v. starts_with k p \<longrightarrow> mesh_view s k = Some v \<longrightarrow> (k, v) \<in> set es)))"
  proof (intro conjI allI impI)
    show "mesh_ok E me c s'" "mesh_view s' = mesh_view s"
      using e by simp_all
    fix es assume "rl = Inr es"
    then have es: "es = take 1000 (filter (\<lambda>(k, v). starts_with k p) (ak_map (ms_net s)))"
      using e by simp
    show "distinct (map fst es)"
      by (rule listed_entries(1) [OF m es])
    show "starts_with k p" "mesh_view s k = Some v" if "(k, v) \<in> set es" for k v
      using listed_entries(2) [OF m es that] by (simp_all add: mesh_view_def)
    show "(k, v) \<in> set es" if "length es < 1000" "starts_with k p" "mesh_view s k = Some v" for k v
      by (rule listed_entries(3) [OF m es that(1,2) that(3) [unfolded mesh_view_def]])
  qed
qed

text \<open>
  The vault's store over the mesh keeps the contract of the store: for a client that the
  serving node admits, whatever requests and replies the mesh loses, a put that reports success is
  read back by the next get that succeeds, and one that reports failure has either stored the value
  or left the stored map alone. Admission survives both.
\<close>

lemma mesh_put_then_get:
  assumes "mesh_ok E me c st" "v \<noteq> JNull"
    and "mesh_put (ke_wire E) (kv_node E me fate disc) c key v st = (ru, st1)"
    and "mesh_get (ke_wire E) (kv_node E me fate disc) c key st1 = (rg, st2)"
  shows "mesh_ok E me c st2 \<and>
    (is_ok ru \<and> is_ok rg \<longrightarrow> rg = Inr (Some v)) \<and>
    (\<not> is_ok ru \<longrightarrow> ak_map (ms_net st1) = ak_map (ms_net st) \<or>
       ak_map (ms_net st1) = bt_insert key v (ak_map (ms_net st)))"
proof -
  have p: "so_put (mesh_store (ke_wire E) (kv_node E me fate disc) c) key v st = (ru, st1)"
    and g: "so_get (mesh_store (ke_wire E) (kv_node E me fate disc) c) key st1 = (rg, st2)"
    using assms(3,4) by (simp_all add: mesh_store_def)
  have ok1: "mesh_ok E me c st1"
    and eff: "took_effect ru ((mesh_view st)(key \<mapsto> v)) (mesh_view st) (mesh_view st1)"
    using mesh.put_law [OF assms(1,2) p] by simp_all
  have get: "mesh_ok E me c st2" "is_ok rg \<longrightarrow> rg = Inr (mesh_view st1 key)"
    using mesh.get_law [OF ok1 g] by simp_all
  have "bt_ok (ak_map (ms_net st))" "bt_ok (ak_map (ms_net st1))"
    using mesh_parts(4) [OF assms(1)] mesh_parts(4) [OF ok1] by (simp_all add: map_ok_def)
  then have "\<not> is_ok ru \<longrightarrow> ak_map (ms_net st1) = ak_map (ms_net st) \<or>
       ak_map (ms_net st1) = bt_insert key v (ak_map (ms_net st))"
    using eff unfolding took_effect_def mesh_view_def
    by (metis bt_eqI bt_get_insert_fun keeps_ok(1))
  moreover have "is_ok ru \<and> is_ok rg \<longrightarrow> rg = Inr (Some v)"
    using get(2) eff by (auto simp: took_effect_def)
  ultimately show ?thesis using get(1) by blast
qed

text \<open>
  A listing over the mesh that succeeds is the first thousand entries of the prefix in
  key order, without any sign that it was cut: a record beyond them is in the store but not in the
  listing.
\<close>

lemma mesh_list_cut:
  assumes "mesh_ok E me c st"
    and "mesh_list (ke_wire E) (kv_node E me fate disc) c p st = (Inr es, st')"
  shows "es = take 1000 (bt_range_prefix p (ak_map (ms_net st)))"
proof -
  have "bt_ok (ak_map (ms_net st))"
    using mesh_parts(4) [OF assms(1)] by (simp add: map_ok_def)
  then have "bt_range_prefix p (ak_map (ms_net st)) = filter (\<lambda>(k, v). starts_with k p) (ak_map (ms_net st))"
    by (simp add: bt_range_prefix_filter case_prod_beta')
  with mesh_list_effect [OF assms] show ?thesis by simp
qed

section \<open>A small mesh\<close>

definition demo_mesh_env :: "(node_id, capability, json) kv_env" where
  "demo_mesh_env = demo_env\<lparr>ke_lib := demo_lib [demo_issue (demo_node 1) (demo_node 2)
     [''kv:read'', ''kv:write''] RAny (to_caveats default_conditions) 3 None]\<rparr>"

definition demo_peer :: string where
  "demo_peer = hx_encode own_hex (demo_node 2)"

definition demo_client :: mesh_client where
  "demo_client = fst (mesh_connect None None ''v'' ''http://localhost:1'' None ())\<lparr>mc_caps := Some ''#''\<rparr>"

definition demo_mesh_state :: "authkv mesh_state" where
  "demo_mesh_state = \<lparr>ms_to_node = None, ms_net = demo_kv\<rparr>"

text \<open>The reply to the first write is lost.\<close>

definition demo_fate :: "authkv \<Rightarrow> fate" where
  "demo_fate a = (if length (ak_map a) = 1 then LostReply else Delivered)"

definition demo_net :: "(json, authkv) node_api" where
  "demo_net = kv_node demo_mesh_env demo_peer demo_fate (\<lambda>_. None)"

lemma demo_mesh_ok: "mesh_ok demo_mesh_env demo_peer demo_client demo_mesh_state"
proof -
  have "admitted demo_mesh_env demo_peer (unwrap_or (mc_caps demo_client) []) (ms_net demo_mesh_state)"
    by code_simp
  moreover have "propose_law (ke_propose demo_mesh_env)"
    using demo_propose_law by (simp add: demo_mesh_env_def)
  moreover have "wire_law (ke_wire demo_mesh_env)"
    by (simp add: wire_law_def demo_mesh_env_def demo_env_def demo_wire_def)
  moreover have "map_ok (ak_map (ms_net demo_mesh_state))"
    by (simp add: map_ok_def demo_mesh_state_def demo_kv_def bt_ok_Cons bt_get_def)
  ultimately show ?thesis by (simp add: mesh_ok_def)
qed

definition demo_mesh_put :: "(string + unit) \<times> authkv mesh_state" where
  "demo_mesh_put = mesh_put (ke_wire demo_mesh_env) demo_net demo_client ''s.new'' (JStr ''y'') demo_mesh_state"

definition demo_mesh_get :: "(string + json option) \<times> authkv mesh_state" where
  "demo_mesh_get = mesh_get (ke_wire demo_mesh_env) demo_net demo_client ''s.new'' (snd demo_mesh_put)"

lemma mesh_put_then_get_witness:
  "\<not> is_ok (fst demo_mesh_put) \<and> fst demo_mesh_get = Inr (Some (JStr ''y'')) \<and>
   ak_map (ms_net (snd demo_mesh_put)) = bt_insert ''s.new'' (JStr ''y'') (ak_map (ms_net demo_mesh_state))"
proof -
  have p: "\<not> is_ok (fst demo_mesh_put)" by code_simp
  have n: "ak_map (ms_net (snd demo_mesh_put)) \<noteq> ak_map (ms_net demo_mesh_state)" by code_simp
  have g: "fst demo_mesh_get = Inr (Some (JStr ''y''))" by code_simp
  show ?thesis
    using mesh_put_then_get [OF demo_mesh_ok, of "JStr ''y''" demo_fate "\<lambda>_. None" "''s.new''"
      "fst demo_mesh_put" "snd demo_mesh_put" "fst demo_mesh_get" "snd demo_mesh_get"] p n g
    by (simp add: demo_mesh_put_def demo_mesh_get_def demo_net_def)
qed

definition demo_mesh_list :: "(string + (string \<times> json) list) \<times> authkv mesh_state" where
  "demo_mesh_list = mesh_list (ke_wire demo_mesh_env)
     (kv_node demo_mesh_env demo_peer (\<lambda>_. Delivered) (\<lambda>_. None)) demo_client ''s.'' demo_mesh_state"

lemma mesh_list_cut_witness:
  "fst demo_mesh_list = Inr [(''s.key'', JStr ''x'')] \<and>
   take 1000 (bt_range_prefix ''s.'' (ak_map (ms_net demo_mesh_state))) = [(''s.key'', JStr ''x'')]"
proof -
  have l: "fst demo_mesh_list = Inr [(''s.key'', JStr ''x'')]" by code_simp
  then have "demo_mesh_list = (Inr [(''s.key'', JStr ''x'')], snd demo_mesh_list)"
    by (metis prod.collapse)
  from mesh_list_cut [OF demo_mesh_ok this [unfolded demo_mesh_list_def]] l
  show ?thesis by simp
qed

end
