(* ===== verification/Device.thy ===== *)
theory Device
  imports MeshKv
begin

text \<open>
  \<open>device.rs\<close> of \<open>ce-iam-core\<close>: the persisted registry of operator devices. Every operation is a
  critical section on the map, followed, when it changed something, by a save of the map to disk. The
  two halves are separate definitions because the lock is not held across them.
\<close>

definition ROLE_ADMIN :: string where
  "ROLE_ADMIN = ''admin''"

definition ROLE_PENDING :: string where
  "ROLE_PENDING = ''pending''"

record device =
  dv_pub :: string
  dv_role :: string
  dv_label :: string
  dv_added_ts :: u64
  dv_node_id :: string

type_synonym dev_map = "(string, device) btree"

record dev_store =
  ds_path :: path
  ds_map :: dev_map

datatype revoke_outcome = Removed | NotFound | LastAdmin

type_synonym 'a dev_result = "(string + 'a) outcome \<times> dev_store \<times> fs"

section \<open>Saving\<close>

text \<open>One system call of the save, as in \<open>store.rs\<close> but with the errors of this crate.\<close>

definition dev_call :: "io \<Rightarrow> fs \<Rightarrow> fs \<Rightarrow> (fs \<Rightarrow> (string + 'a) outcome \<times> fs) \<Rightarrow> (string + 'a) outcome \<times> fs" where
  "dev_call io undone done_fs k =
     (case io of
        IoOk \<Rightarrow> k done_fs
      | IoFails e \<Rightarrow> (Returned (Inl e), undone)
      | IoStops \<Rightarrow> (Stopped, undone))"

text \<open>A system call whose error the program ignores.\<close>

definition dev_call_ignored :: "io \<Rightarrow> fs \<Rightarrow> (fs \<Rightarrow> (string + 'a) outcome \<times> fs) \<Rightarrow> (string + 'a) outcome \<times> fs" where
  "dev_call_ignored io fs k = (case io of IoStops \<Rightarrow> (Stopped, fs) | _ \<Rightarrow> k fs)"

text \<open>\<open>path.with_extension("json.tmp")\<close> of the path \<open>devices.json\<close>.\<close>

definition dev_path :: "string \<Rightarrow> path" where
  "dev_path dir = path_join dir ''devices.json''"

definition dev_tmp :: "path \<Rightarrow> file_key" where
  "dev_tmp p = (fst (path_key p), ''devices.json.tmp'')"

definition dev_persist :: "dev_map json_format \<Rightarrow> write_faults \<Rightarrow> path \<Rightarrow> dev_map \<Rightarrow> fs \<Rightarrow>
    (string + unit) outcome \<times> fs" where
  "dev_persist J F p m fs =
     (case jf_print J m of
        Inl e \<Rightarrow> (Returned (Inl (''serialize devices'' @ e)), fs)
      | Inr bytes \<Rightarrow>
          dev_call (wf_create F) fs (fs(dev_tmp p := Some [])) (\<lambda>fs.
          dev_call (wf_write F) (fs(dev_tmp p := Some (take (wf_written F) bytes)))
            (fs(dev_tmp p := Some bytes)) (\<lambda>fs.
          dev_call_ignored (wf_flush F) fs (\<lambda>fs.
          dev_call_ignored (wf_sync F) fs (\<lambda>fs.
          dev_call (wf_rename F)
            (if wf_rename F = IoStops \<and> wf_renamed F
             then fs(path_key p := Some bytes, dev_tmp p := None) else fs)
            (fs(path_key p := Some bytes, dev_tmp p := None)) (\<lambda>fs. (Returned (Inr ()), fs)))))))"

text \<open>\<open>self.persist()?\<close> before the answer is returned; memory has changed by then.\<close>

definition and_persist :: "dev_map json_format \<Rightarrow> write_faults \<Rightarrow> bool \<Rightarrow> 'a \<Rightarrow> dev_store \<Rightarrow> fs \<Rightarrow> 'a dev_result" where
  "and_persist J F changed x st fs =
     (if \<not> changed then (Returned (Inr x), st, fs)
      else case dev_persist J F (ds_path st) (ds_map st) fs of
        (Returned (Inr _), fs') \<Rightarrow> (Returned (Inr x), st, fs')
      | (Returned (Inl e), fs') \<Rightarrow> (Returned (Inl e), st, fs')
      | (Stopped, fs') \<Rightarrow> (Stopped, st, fs'))"

section \<open>Operations\<close>

definition is_admin_dev :: "device \<Rightarrow> bool" where
  "is_admin_dev d \<longleftrightarrow> dv_role d = ROLE_ADMIN"

definition seed_device :: "u64 \<Rightarrow> string \<times> string \<Rightarrow> dev_map \<times> bool \<Rightarrow> dev_map \<times> bool" where
  "seed_device now e mc =
     (if bt_get (fst mc) (fst e) \<noteq> None then mc
      else (bt_insert (fst e) \<lparr>dv_pub = snd e, dv_role = ROLE_ADMIN, dv_label = ''env-seed'',
          dv_added_ts = now, dv_node_id = []\<rparr> (fst mc), True))"

text \<open>Replaying the existing file; \<open>path.exists()\<close> is false when the file cannot be examined.\<close>

definition dev_load :: "dev_map json_format \<Rightarrow> read_faults \<Rightarrow> path \<Rightarrow> fs \<Rightarrow> string + dev_map" where
  "dev_load J R p fs =
     (case (rf_stat R, fs (path_key p)) of
        (None, Some raw) \<Rightarrow>
          (case rf_read R of
             Some e \<Rightarrow> Inl e
           | None \<Rightarrow> if trim raw = [] then Inr [] else jf_parse J raw)
      | _ \<Rightarrow> Inr [])"

definition dev_open :: "dev_map json_format \<Rightarrow> read_faults \<Rightarrow> write_faults \<Rightarrow> u64 \<Rightarrow> string \<Rightarrow>
    (string \<times> string) list \<Rightarrow> fs \<Rightarrow> (string + dev_store) outcome \<times> fs" where
  "dev_open J R F now dir seed fs =
     dev_call (wf_mkdir F) fs fs (\<lambda>fs.
       case dev_load J R (dev_path dir) fs of
         Inl e \<Rightarrow> (Returned (Inl e), fs)
       | Inr m0 \<Rightarrow>
           (let (m, changed) = fold (seed_device now) seed (m0, False);
                (r, st, fs') = and_persist J F changed () \<lparr>ds_path = dev_path dir, ds_map = m\<rparr> fs
            in (case r of
                  Returned (Inr _) \<Rightarrow> Returned (Inr st)
                | Returned (Inl e) \<Rightarrow> Returned (Inl e)
                | Stopped \<Rightarrow> Stopped, fs')))"

definition admin_count :: "dev_map \<Rightarrow> nat" where
  "admin_count m = length (filter is_admin_dev (bt_values m))"

definition has_admins :: "dev_map \<Rightarrow> bool" where
  "has_admins m \<longleftrightarrow> admin_count m > 0"

definition role_of :: "dev_map \<Rightarrow> string \<Rightarrow> string" where
  "role_of m device_id =
     (case map_option dv_role (bt_get m device_id) of
        Some r \<Rightarrow> if r = ROLE_ADMIN then ROLE_ADMIN else if r = ROLE_PENDING then ROLE_PENDING else ''none''
      | None \<Rightarrow> ''none'')"

definition is_admin :: "dev_map \<Rightarrow> string \<Rightarrow> bool" where
  "is_admin m device_id \<longleftrightarrow> role_of m device_id = ROLE_ADMIN"

definition dev_list :: "dev_map \<Rightarrow> (string \<times> device) list" where
  "dev_list m = m"

definition node_id_of :: "dev_map \<Rightarrow> string \<Rightarrow> string option" where
  "node_id_of m device_id =
     (case map_option dv_node_id (bt_get m device_id) of
        Some s \<Rightarrow> if s \<noteq> [] then Some s else None
      | None \<Rightarrow> None)"

definition pub_of :: "dev_map \<Rightarrow> string \<Rightarrow> string option" where
  "pub_of m device_id = map_option dv_pub (bt_get m device_id)"

definition claim_locked :: "u64 \<Rightarrow> string \<Rightarrow> string \<Rightarrow> string \<Rightarrow> dev_map \<Rightarrow> bool \<times> dev_map" where
  "claim_locked now device_id pub_b64 node_id m =
     (if list_ex is_admin_dev (bt_values m) then (False, m)
      else (True, bt_insert device_id \<lparr>dv_pub = pub_b64, dv_role = ROLE_ADMIN, dv_label = ''claimed'',
          dv_added_ts = now, dv_node_id = node_id\<rparr> m))"

definition dev_claim :: "dev_map json_format \<Rightarrow> write_faults \<Rightarrow> u64 \<Rightarrow> string \<Rightarrow> string \<Rightarrow> string \<Rightarrow>
    dev_store \<Rightarrow> fs \<Rightarrow> bool dev_result" where
  "dev_claim J F now device_id pub_b64 node_id st fs =
     (case claim_locked now device_id pub_b64 node_id (ds_map st) of
        (claimed, m) \<Rightarrow> and_persist J F claimed claimed (st\<lparr>ds_map := m\<rparr>) fs)"

definition request_locked :: "u64 \<Rightarrow> string \<Rightarrow> string \<Rightarrow> string \<Rightarrow> string \<Rightarrow> dev_map \<Rightarrow> string \<times> dev_map" where
  "request_locked now device_id pub_b64 node_id label m =
     (case bt_get m device_id of
        Some d \<Rightarrow>
          if dv_role d = ROLE_ADMIN then
            (ROLE_ADMIN, bt_modify device_id
              (\<lambda>d. if node_id \<noteq> [] then d\<lparr>dv_node_id := node_id\<rparr> else d) m)
          else
            (ROLE_PENDING, bt_modify device_id (\<lambda>d.
               let d = d\<lparr>dv_pub := pub_b64\<rparr>;
                   d = (if label \<noteq> [] then d\<lparr>dv_label := label\<rparr> else d);
                   d = (if node_id \<noteq> [] then d\<lparr>dv_node_id := node_id\<rparr> else d)
               in d) m)
      | None \<Rightarrow>
          (ROLE_PENDING, bt_insert device_id \<lparr>dv_pub = pub_b64, dv_role = ROLE_PENDING, dv_label = label,
             dv_added_ts = now, dv_node_id = node_id\<rparr> m))"

definition dev_request :: "dev_map json_format \<Rightarrow> write_faults \<Rightarrow> u64 \<Rightarrow> string \<Rightarrow> string \<Rightarrow> string \<Rightarrow> string \<Rightarrow>
    dev_store \<Rightarrow> fs \<Rightarrow> string dev_result" where
  "dev_request J F now device_id pub_b64 node_id label st fs =
     (case request_locked now device_id pub_b64 node_id label (ds_map st) of
        (role, m) \<Rightarrow> and_persist J F True role (st\<lparr>ds_map := m\<rparr>) fs)"

definition set_node_id_locked :: "string \<Rightarrow> string \<Rightarrow> dev_map \<Rightarrow> bool \<times> dev_map" where
  "set_node_id_locked device_id node_id m =
     (case bt_get m device_id of
        Some _ \<Rightarrow> (True, bt_modify device_id (\<lambda>d. d\<lparr>dv_node_id := node_id\<rparr>) m)
      | None \<Rightarrow> (False, m))"

definition dev_set_node_id :: "dev_map json_format \<Rightarrow> write_faults \<Rightarrow> string \<Rightarrow> string \<Rightarrow>
    dev_store \<Rightarrow> fs \<Rightarrow> bool dev_result" where
  "dev_set_node_id J F device_id node_id st fs =
     (case set_node_id_locked device_id node_id (ds_map st) of
        (updated, m) \<Rightarrow> and_persist J F updated updated (st\<lparr>ds_map := m\<rparr>) fs)"

definition approve_locked :: "string \<Rightarrow> dev_map \<Rightarrow> bool \<times> dev_map" where
  "approve_locked device_id m =
     (case bt_get m device_id of
        Some d \<Rightarrow>
          if dv_role d = ROLE_PENDING then (True, bt_modify device_id (\<lambda>d. d\<lparr>dv_role := ROLE_ADMIN\<rparr>) m)
          else (False, m)
      | None \<Rightarrow> (False, m))"

definition dev_approve :: "dev_map json_format \<Rightarrow> write_faults \<Rightarrow> string \<Rightarrow> dev_store \<Rightarrow> fs \<Rightarrow> bool dev_result" where
  "dev_approve J F device_id st fs =
     (case approve_locked device_id (ds_map st) of
        (promoted, m) \<Rightarrow> and_persist J F promoted promoted (st\<lparr>ds_map := m\<rparr>) fs)"

definition revoke_locked :: "string \<Rightarrow> dev_map \<Rightarrow> revoke_outcome \<times> dev_map" where
  "revoke_locked device_id m =
     (case bt_get m device_id of
        None \<Rightarrow> (NotFound, m)
      | Some d \<Rightarrow>
          if dv_role d = ROLE_ADMIN \<and> length (filter is_admin_dev (bt_values m)) \<le> 1 then (LastAdmin, m)
          else (Removed, bt_remove device_id m))"

definition dev_revoke :: "dev_map json_format \<Rightarrow> write_faults \<Rightarrow> string \<Rightarrow> dev_store \<Rightarrow> fs \<Rightarrow>
    revoke_outcome dev_result" where
  "dev_revoke J F device_id st fs =
     (case revoke_locked device_id (ds_map st) of
        (outcome, m) \<Rightarrow> and_persist J F (outcome = Removed) outcome (st\<lparr>ds_map := m\<rparr>) fs)"

definition default_data_dir :: "string option \<Rightarrow> string" where
  "default_data_dir env =
     (case env of Some d \<Rightarrow> if d \<noteq> [] then d else ''ce-auth-data'' | None \<Rightarrow> ''ce-auth-data'')"

section \<open>The operator is never locked out\<close>

text \<open>The critical sections as one function: whether there is something to save, and the new map.\<close>

datatype dev_op =
    OpClaim string string string
  | OpRequest string string string string
  | OpSetNodeId string string
  | OpApprove string
  | OpRevoke string

fun dev_locked :: "u64 \<Rightarrow> dev_op \<Rightarrow> dev_map \<Rightarrow> bool \<times> dev_map" where
  "dev_locked now (OpClaim k0 pk node) m = claim_locked now k0 pk node m"
| "dev_locked now (OpRequest k0 pk node label) m = (True, snd (request_locked now k0 pk node label m))"
| "dev_locked now (OpSetNodeId k0 node) m = set_node_id_locked k0 node m"
| "dev_locked now (OpApprove k0) m = approve_locked k0 m"
| "dev_locked now (OpRevoke k0) m =
     (fst (revoke_locked k0 m) = Removed, snd (revoke_locked k0 m))"

definition dev_mem :: "u64 \<Rightarrow> dev_op \<Rightarrow> dev_map \<Rightarrow> dev_map" where
  "dev_mem now op m = snd (dev_locked now op m)"

lemmas dev_ops = claim_locked_def request_locked_def set_node_id_locked_def approve_locked_def revoke_locked_def

lemma role_names [simp]: "ROLE_ADMIN \<noteq> ROLE_PENDING" "ROLE_PENDING \<noteq> ROLE_ADMIN" "''none'' \<noteq> ROLE_ADMIN"
  "''none'' \<noteq> ROLE_PENDING"
  by (simp_all add: ROLE_ADMIN_def ROLE_PENDING_def)

lemma is_admin_iff: "is_admin m k \<longleftrightarrow> (\<exists>d. bt_get m k = Some d \<and> dv_role d = ROLE_ADMIN)"
  by (auto simp: is_admin_def role_of_def split: option.splits if_splits)

definition admin_ids :: "dev_map \<Rightarrow> string set" where
  "admin_ids m = {k. is_admin m k}"

lemma admin_ids_card: "bt_ok m \<Longrightarrow> admin_count m = card (admin_ids m)"
proof -
  assume ok: "bt_ok m"
  let ?f = "filter (\<lambda>e. is_admin_dev (snd e)) m"
  have "admin_ids m = fst ` set ?f"
    using bt_get_Some_set [OF ok]
    by (force simp: admin_ids_def is_admin_iff is_admin_dev_def)
  moreover have "distinct (map fst ?f)"
    by (rule bt_ok_distinct [OF bt_ok_filter [OF ok]])
  then have "card (fst ` set ?f) = length ?f"
    by (metis distinct_card length_map set_map)
  moreover have "admin_count m = length ?f"
    by (induction m) (simp_all add: admin_count_def bt_values_def)
  ultimately show ?thesis by simp
qed

lemma finite_admin_ids: "bt_ok m \<Longrightarrow> finite (admin_ids m)"
proof -
  assume "bt_ok m"
  then have "admin_ids m \<subseteq> set (bt_keys m)"
    by (auto simp: admin_ids_def is_admin_iff bt_keys_get)
  then show ?thesis by (rule finite_subset) simp
qed

lemma has_admins_iff: "bt_ok m \<Longrightarrow> has_admins m \<longleftrightarrow> admin_ids m \<noteq> {}"
  using finite_admin_ids [of m] by (simp add: has_admins_def admin_ids_card card_gt_0_iff)

lemma any_admin_iff: "bt_ok m \<Longrightarrow> list_ex is_admin_dev (bt_values m) \<longleftrightarrow> admin_ids m \<noteq> {}"
  unfolding list_ex_iff Bex_def admin_ids_def is_admin_iff is_admin_dev_def
  by (simp add: bt_values_get) blast

lemma dev_mem_ok [keeps_ok]: "bt_ok m \<Longrightarrow> bt_ok (dev_mem now op m)"
  by (cases op) (auto simp: dev_mem_def dev_ops keeps_ok split: option.splits)

text \<open>What each operation does to the set of admins.\<close>

lemma admin_ids_claim: "bt_ok m \<Longrightarrow>
    admin_ids (dev_mem now (OpClaim k0 pk node) m) = (if admin_ids m = {} then {k0} else admin_ids m)"
  by (auto simp: dev_mem_def claim_locked_def any_admin_iff)
    (auto simp: admin_ids_def is_admin_iff btree_simps split: if_splits)

lemma admin_ids_request: "admin_ids (dev_mem now (OpRequest k0 pk node label) m) = admin_ids m"
  by (auto simp: dev_mem_def request_locked_def admin_ids_def is_admin_iff btree_simps Let_def
      split: option.splits if_splits)

lemma admin_ids_set_node: "admin_ids (dev_mem now (OpSetNodeId k0 node) m) = admin_ids m"
  by (auto simp: dev_mem_def set_node_id_locked_def admin_ids_def is_admin_iff btree_simps
      split: option.splits if_splits)

lemma admin_ids_approve: "admin_ids (dev_mem now (OpApprove k0) m) =
    (if role_of m k0 = ROLE_PENDING then insert k0 (admin_ids m) else admin_ids m)"
  by (auto simp: dev_mem_def approve_locked_def admin_ids_def is_admin_iff role_of_def btree_simps
      split: option.splits if_splits)

lemma admin_ids_revoke: "bt_ok m \<Longrightarrow> admin_ids (dev_mem now (OpRevoke k0) m) =
    (if admin_ids m = {k0} then {k0} else admin_ids m - {k0})"
proof -
  assume ok: "bt_ok m"
  have c: "length (filter is_admin_dev (bt_values m)) = card (admin_ids m)"
    using admin_ids_card [OF ok] by (simp add: admin_count_def)
  show ?thesis
  proof (cases "k0 \<in> admin_ids m")
    case True
    then obtain d where d: "bt_get m k0 = Some d" "dv_role d = ROLE_ADMIN"
      by (auto simp: admin_ids_def is_admin_iff)
    have "card (admin_ids m) \<le> 1 \<longleftrightarrow> admin_ids m = {k0}"
    proof
      assume "card (admin_ids m) \<le> 1"
      then have "\<forall>x \<in> admin_ids m. \<forall>y \<in> admin_ids m. x = y"
        using card_le_Suc0_iff_eq [OF finite_admin_ids [OF ok]] by simp
      with True show "admin_ids m = {k0}" by blast
    qed simp
    then have m: "dev_mem now (OpRevoke k0) m = (if admin_ids m = {k0} then m else bt_remove k0 m)"
      using d c by (simp add: dev_mem_def revoke_locked_def)
    have "admin_ids (bt_remove k0 m) = admin_ids m - {k0}"
      by (auto simp: admin_ids_def is_admin_iff btree_simps)
    with m show ?thesis by simp
  next
    case False
    then show ?thesis
      by (auto simp: dev_mem_def revoke_locked_def admin_ids_def is_admin_iff btree_simps
          split: option.splits if_splits)
  qed
qed

lemma admin_kept: "bt_ok m \<Longrightarrow> has_admins m \<Longrightarrow> has_admins (dev_mem now op m)"
  using has_admins_iff [of m] has_admins_iff [OF dev_mem_ok, of m now op]
  by (cases op) (auto simp: admin_ids_claim admin_ids_request admin_ids_set_node admin_ids_approve
      admin_ids_revoke)

fun dev_run :: "(u64 \<times> dev_op) list \<Rightarrow> dev_map \<Rightarrow> dev_map" where
  "dev_run [] m = m"
| "dev_run ((now, op) # ops) m = dev_run ops (dev_mem now op m)"

text \<open>
  Once the registry has an admin it has one after every sequence of claims, requests,
  approvals, rebindings and revocations, by whomever: the operator is never locked out.
\<close>

lemma operator_never_locked_out:
  assumes "bt_ok m" "has_admins m"
  shows "has_admins (dev_run ops m)"
  using assms by (induction ops arbitrary: m) (auto simp: admin_kept dev_mem_ok)

text \<open>
  A device becomes an admin in two ways only, by the approval of its pending request or by
  claiming a registry without admins. Nothing but a revocation ends an admin, and while it is one its
  key stays the one it had.
\<close>

lemma device_admin_exact:
  assumes "bt_ok m" "m' = dev_mem now op m"
  shows "(is_admin m' k \<and> \<not> is_admin m k \<longrightarrow>
      (op = OpApprove k \<and> role_of m k = ROLE_PENDING) \<or>
      (\<exists>pk node. op = OpClaim k pk node \<and> \<not> has_admins m)) \<and>
    (is_admin m k \<longrightarrow> (op \<noteq> OpRevoke k \<longrightarrow> is_admin m' k) \<and>
      (is_admin m' k \<longrightarrow> pub_of m' k = pub_of m k))"
proof -
  have mem: "k \<in> admin_ids m \<longleftrightarrow> is_admin m k" "k \<in> admin_ids m' \<longleftrightarrow> is_admin m' k"
    by (simp_all add: admin_ids_def)
  note sets = admin_ids_claim [OF assms(1)] admin_ids_request admin_ids_set_node admin_ids_approve
    admin_ids_revoke [OF assms(1)]
  have new: "is_admin m' k \<and> \<not> is_admin m k \<longrightarrow>
      (op = OpApprove k \<and> role_of m k = ROLE_PENDING) \<or>
      (\<exists>pk node. op = OpClaim k pk node \<and> \<not> has_admins m)"
    using has_admins_iff [OF assms(1)] mem unfolding assms(2)
    by (cases op) (auto simp: sets split: if_splits)
  have keep: "is_admin m k \<longrightarrow> op \<noteq> OpRevoke k \<longrightarrow> is_admin m' k"
    using mem unfolding assms(2) by (cases op) (auto simp: sets split: if_splits)
  have "pub_of m' k = pub_of m k" if a: "is_admin m k" "is_admin m' k"
  proof -
    obtain d where d: "bt_get m k = Some d" "dv_role d = ROLE_ADMIN"
      using a(1) by (auto simp: is_admin_iff)
    have "list_ex is_admin_dev (bt_values m)"
      using a(1) mem(1) any_admin_iff [OF assms(1)] by auto
    then show ?thesis
      using d a(2) unfolding assms(2)
      by (cases op) (auto simp: dev_mem_def dev_ops pub_of_def btree_simps is_admin_iff Let_def
          split: option.splits if_splits)
  qed
  with keep new show ?thesis by blast
qed

section \<open>Restarts\<close>

lemma dev_tmp_differs: "dev_tmp (dev_path dir) \<noteq> path_key (dev_path dir)"
  by (simp add: dev_tmp_def dev_path_def path_key_def path_join_def unwrap_or_def)

lemma dev_call_cases:
  assumes "dev_call io undone done_fs k = (r, fs')"
  obtains (ok) "io = IoOk" "k done_fs = (r, fs')"
    | (fails) e where "io = IoFails e" "r = Returned (Inl e)" "fs' = undone"
    | (stops) "io = IoStops" "r = Stopped" "fs' = undone"
proof (cases io)
  case (IoFails e)
  then have "r = Returned (Inl e)" "fs' = undone" using assms by (simp_all add: dev_call_def)
  with IoFails show ?thesis by (rule fails)
qed (use assms ok stops in \<open>simp_all add: dev_call_def\<close>)

lemma dev_ignored_cases:
  assumes "dev_call_ignored io fs k = (r, fs')"
  obtains (ok) "k fs = (r, fs')" | (stops) "r = Stopped" "fs' = fs"
  using assms by (cases io) (simp_all add: dev_call_ignored_def)

lemma dev_persist_effect:
  fixes dir
  defines "p \<equiv> dev_path dir"
  assumes "dev_persist J F p m fs = (r, fs')"
  shows "(r = Returned (Inr ()) \<and> (\<exists>s. jf_print J m = Inr s \<and> fs' (path_key p) = Some s)) \<or>
    ((\<exists>e. r = Returned (Inl e)) \<and> fs' (path_key p) = fs (path_key p)) \<or>
    (r = Stopped \<and> (fs' (path_key p) = fs (path_key p) \<or>
       (\<exists>s. jf_print J m = Inr s \<and> fs' (path_key p) = Some s)))"
proof (cases "jf_print J m")
  case (Inl e)
  then show ?thesis using assms(2) by (auto simp: dev_persist_def)
next
  case (Inr s)
  have d: "path_key p \<noteq> dev_tmp p" using dev_tmp_differs [of dir] p_def by metis
  from assms(2) Inr d show ?thesis
    unfolding dev_persist_def Inr sum.case
    by (elim dev_call_cases dev_ignored_cases) (auto split: if_splits)
qed

interpretation dev_file: atomic_cell "\<lambda>m F. dev_persist J F (dev_path dir) m"
  "\<lambda>fs. fs (path_key (dev_path dir))" "\<lambda>m. ok (jf_print J m)" for J dir
  by unfold_locales (auto dest!: dev_persist_effect simp: ok_def)

definition no_read_faults :: read_faults where
  "no_read_faults = \<lparr>rf_stat = None, rf_read = None\<rparr>"

text \<open>What a restart finds: the map that \<open>open\<close> replays from the file.\<close>

definition dev_on_disk :: "dev_map json_format \<Rightarrow> dev_store \<Rightarrow> fs \<Rightarrow> string + dev_map" where
  "dev_on_disk J st fs = dev_load J no_read_faults (ds_path st) fs"

definition no_blank :: "'a json_format \<Rightarrow> bool" where
  "no_blank J \<longleftrightarrow> (\<forall>v s. jf_print J v = Inr s \<longrightarrow> trim s \<noteq> [])"

fun dev_exec :: "dev_map json_format \<Rightarrow> write_faults \<Rightarrow> u64 \<Rightarrow> dev_op \<Rightarrow> dev_store \<Rightarrow> fs \<Rightarrow> bool dev_result" where
  "dev_exec J F now (OpClaim k pk node) st fs = dev_claim J F now k pk node st fs"
| "dev_exec J F now (OpRequest k pk node label) st fs =
     (case dev_request J F now k pk node label st fs of
        (Returned (Inr _), st', fs') \<Rightarrow> (Returned (Inr True), st', fs')
      | (Returned (Inl e), st', fs') \<Rightarrow> (Returned (Inl e), st', fs')
      | (Stopped, st', fs') \<Rightarrow> (Stopped, st', fs'))"
| "dev_exec J F now (OpSetNodeId k node) st fs = dev_set_node_id J F k node st fs"
| "dev_exec J F now (OpApprove k) st fs = dev_approve J F k st fs"
| "dev_exec J F now (OpRevoke k) st fs =
     (case dev_revoke J F k st fs of
        (Returned (Inr x), st', fs') \<Rightarrow> (Returned (Inr (x = Removed)), st', fs')
      | (Returned (Inl e), st', fs') \<Rightarrow> (Returned (Inl e), st', fs')
      | (Stopped, st', fs') \<Rightarrow> (Stopped, st', fs'))"

lemma dev_exec_locked:
  "dev_exec J F now op st fs =
     (case dev_locked now op (ds_map st) of (changed, m) \<Rightarrow>
        and_persist J F changed changed (st\<lparr>ds_map := m\<rparr>) fs)"
  by (cases op) (auto simp: dev_claim_def dev_request_def dev_set_node_id_def dev_approve_def dev_revoke_def
      and_persist_def split: prod.splits outcome.splits sum.splits)

lemma dev_unchanged: "dev_locked now op m = (False, m') \<Longrightarrow> m' = m"
  by (cases op) (auto simp: dev_ops split: option.splits if_splits)

text \<open>
  The registry survives restarts: an operation that returns success leaves on disk the map
  it leaves in memory, one that returns an error leaves the previous map on disk (memory has already
  changed), and one during which the machine stops leaves one of the two.
\<close>

lemma device_restart:
  assumes "json_law J" "no_blank J" "ds_path st = dev_path dir"
    and "dev_on_disk J st fs = Inr (ds_map st)"
    and "dev_exec J F now op st fs = (res, st', fs')"
  shows "ds_map st' = dev_mem now op (ds_map st) \<and>
    (case res of
       Returned (Inr _) \<Rightarrow> dev_on_disk J st' fs' = Inr (ds_map st')
     | Returned (Inl _) \<Rightarrow> dev_on_disk J st' fs' = Inr (ds_map st)
     | Stopped \<Rightarrow> dev_on_disk J st' fs' \<in> {Inr (ds_map st), Inr (ds_map st')})"
proof -
  obtain changed m where l: "dev_locked now op (ds_map st) = (changed, m)" by fastforce
  have e: "and_persist J F changed changed (st\<lparr>ds_map := m\<rparr>) fs = (res, st', fs')"
    using assms(5) by (simp add: dev_exec_locked l)
  have st': "st' = st\<lparr>ds_map := m\<rparr>"
    using e by (auto simp: and_persist_def split: if_splits prod.splits outcome.splits sum.splits)
  have disk: "dev_on_disk J st' g = (case g (path_key (dev_path dir)) of None \<Rightarrow> Inr []
      | Some raw \<Rightarrow> if trim raw = [] then Inr [] else jf_parse J raw)" for g
    by (simp add: dev_on_disk_def dev_load_def no_read_faults_def st' assms(3) split: option.splits)
  have same: "dev_on_disk J st' g = Inr (ds_map st)"
    if "g (path_key (dev_path dir)) = fs (path_key (dev_path dir))" for g
    using assms(4) that by (simp add: dev_on_disk_def dev_load_def st' assms(3))
  have new: "dev_on_disk J st' g = Inr m"
    if "jf_print J m = Inr s" "g (path_key (dev_path dir)) = Some s" for g s
    using assms(1,2) that unfolding disk json_law_def no_blank_def by simp
  show ?thesis
  proof (cases changed)
    case False
    with l e same dev_unchanged [of now op "ds_map st" m] st' show ?thesis
      by (auto simp: and_persist_def dev_mem_def)
  next
    case True
    obtain r where p: "dev_persist J F (dev_path dir) m fs = (r, fs')"
      and res: "res = (case r of Returned (Inr _) \<Rightarrow> Returned (Inr changed)
        | Returned (Inl e) \<Rightarrow> Returned (Inl e) | Stopped \<Rightarrow> Stopped)"
      using e True assms(3) by (auto simp: and_persist_def split: prod.splits outcome.splits sum.splits)
    from dev_persist_effect [OF p] show ?thesis
      using same [of fs'] new [of _ fs'] l st' res by (auto simp: dev_mem_def)
  qed
qed

section \<open>Two threads\<close>

text \<open>
  The mutex is released between a change and the serialization of the map, and again before the file
  is written. A thread of the registry is at one of these points; the temporary file is shared.
\<close>

datatype dev_pc =
    Waiting u64 dev_op
  | MustSave
  | MustWrite string
  | MustRename
  | Finished bool

record dev_world =
  dw_mem :: dev_map
  dw_tmp :: "string option"
  dw_disk :: "string option"
  dw_pc :: "nat \<Rightarrow> dev_pc"

definition goto :: "nat \<Rightarrow> dev_pc \<Rightarrow> dev_world \<Rightarrow> dev_world" where
  "goto t pc w = w\<lparr>dw_pc := (dw_pc w)(t := pc)\<rparr>"

inductive dev_step :: "dev_map json_format \<Rightarrow> dev_world \<Rightarrow> dev_world \<Rightarrow> bool" for J where
  step_noop: "dw_pc w t = Waiting now op \<Longrightarrow> dev_locked now op (dw_mem w) = (False, m) \<Longrightarrow>
    dev_step J w (goto t (Finished True) w)"
| step_change: "dw_pc w t = Waiting now op \<Longrightarrow> dev_locked now op (dw_mem w) = (True, m) \<Longrightarrow>
    dev_step J w (goto t MustSave (w\<lparr>dw_mem := m\<rparr>))"
| step_snapshot: "dw_pc w t = MustSave \<Longrightarrow> jf_print J (dw_mem w) = Inr bytes \<Longrightarrow>
    dev_step J w (goto t (MustWrite bytes) w)"
| step_unprintable: "dw_pc w t = MustSave \<Longrightarrow> jf_print J (dw_mem w) = Inl e \<Longrightarrow>
    dev_step J w (goto t (Finished False) w)"
| step_write: "dw_pc w t = MustWrite bytes \<Longrightarrow>
    dev_step J w (goto t MustRename (w\<lparr>dw_tmp := Some bytes\<rparr>))"
| step_rename: "dw_pc w t = MustRename \<Longrightarrow> dw_tmp w = Some bytes \<Longrightarrow>
    dev_step J w (goto t (Finished True) (w\<lparr>dw_disk := Some bytes, dw_tmp := None\<rparr>))"
| step_rename_fails: "dw_pc w t = MustRename \<Longrightarrow> dw_tmp w = None \<Longrightarrow>
    dev_step J w (goto t (Finished False) w)"

inductive_cases dev_step_E: "dev_step J w w'"

lemma goto_sel [simp]:
  "dw_mem (goto t pc w) = dw_mem w" "dw_tmp (goto t pc w) = dw_tmp w" "dw_disk (goto t pc w) = dw_disk w"
  "dw_pc (goto t pc w) = (dw_pc w)(t := pc)"
  by (simp_all add: goto_def)

text \<open>What memory holds does stay consistent: it only ever moves by whole operations.\<close>

lemma dev_step_mem: "dev_step J w w' \<Longrightarrow> dw_mem w' = dw_mem w \<or> (\<exists>now op. dw_mem w' = dev_mem now op (dw_mem w))"
  by (erule dev_step_E) (auto simp: dev_mem_def, metis snd_conv)

lemma dev_steps_admin:
  "(dev_step J)\<^sup>*\<^sup>* w w' \<Longrightarrow> bt_ok (dw_mem w) \<Longrightarrow> has_admins (dw_mem w) \<Longrightarrow>
   bt_ok (dw_mem w') \<and> has_admins (dw_mem w')"
  by (induction rule: rtranclp_induct) (use dev_step_mem admin_kept dev_mem_ok in metis)+

definition two_threads :: "dev_map \<Rightarrow> string option \<Rightarrow> u64 \<times> dev_op \<Rightarrow> u64 \<times> dev_op \<Rightarrow> dev_world" where
  "two_threads m disk a b = \<lparr>dw_mem = m, dw_tmp = None, dw_disk = disk,
     dw_pc = (\<lambda>t. if t = 0 then Waiting (fst a) (snd a) else Waiting (fst b) (snd b))\<rparr>"

text \<open>
  Two concurrent operations can both return success and leave the file without the later
  one: the first thread serializes the map before the second changes it and writes its stale copy last.
  The change, a revocation for example, is undone by the next restart.
\<close>

lemma racing_saves_lose_update:
  assumes "dev_locked n1 op1 m = (True, m1)" "dev_locked n2 op2 m1 = (True, m2)"
    and "jf_print J m1 = Inr s1" "jf_print J m2 = Inr s2"
  shows "\<exists>w. (dev_step J)\<^sup>*\<^sup>* (two_threads m disk (n1, op1) (n2, op2)) w \<and>
    dw_pc w 0 = Finished True \<and> dw_pc w 1 = Finished True \<and>
    dw_mem w = m2 \<and> dw_disk w = Some s1"
proof -
  let ?w0 = "two_threads m disk (n1, op1) (n2, op2)"
  let ?w1 = "goto 0 MustSave (?w0\<lparr>dw_mem := m1\<rparr>)"
  let ?w2 = "goto 0 (MustWrite s1) ?w1"
  let ?w3 = "goto 1 MustSave (?w2\<lparr>dw_mem := m2\<rparr>)"
  let ?w4 = "goto 1 (MustWrite s2) ?w3"
  let ?w5 = "goto 1 MustRename (?w4\<lparr>dw_tmp := Some s2\<rparr>)"
  let ?w6 = "goto 1 (Finished True) (?w5\<lparr>dw_disk := Some s2, dw_tmp := None\<rparr>)"
  let ?w7 = "goto 0 MustRename (?w6\<lparr>dw_tmp := Some s1\<rparr>)"
  let ?w8 = "goto 0 (Finished True) (?w7\<lparr>dw_disk := Some s1, dw_tmp := None\<rparr>)"
  have "dev_step J ?w0 ?w1"
    by (rule step_change [of _ _ n1 op1]) (simp_all add: two_threads_def assms)
  moreover have "dev_step J ?w1 ?w2" by (rule step_snapshot) (simp_all add: assms)
  moreover have "dev_step J ?w2 ?w3"
    by (rule step_change [of _ _ n2 op2]) (simp_all add: two_threads_def assms)
  moreover have "dev_step J ?w3 ?w4" by (rule step_snapshot) (simp_all add: assms)
  moreover have "dev_step J ?w4 ?w5" by (rule step_write) simp
  moreover have "dev_step J ?w5 ?w6" by (rule step_rename) simp_all
  moreover have "dev_step J ?w6 ?w7" by (rule step_write) (simp add: goto_def)
  moreover have "dev_step J ?w7 ?w8" by (rule step_rename) simp_all
  ultimately have "(dev_step J)\<^sup>*\<^sup>* ?w0 ?w8"
    by (meson converse_rtranclp_into_rtranclp rtranclp.rtrancl_refl)
  then show ?thesis by (intro exI [of _ ?w8]) (simp add: goto_def)
qed

section \<open>A small registry\<close>

text \<open>An injective printer of one registry, and the parser that reads it back.\<close>

definition demo_devices :: dev_map where
  "demo_devices =
     [(''a'', \<lparr>dv_pub = ''A'', dv_role = ''admin'', dv_label = [], dv_added_ts = 1, dv_node_id = []\<rparr>),
      (''b'', \<lparr>dv_pub = ''B'', dv_role = ''admin'', dv_label = [], dv_added_ts = 1, dv_node_id = []\<rparr>),
      (''c'', \<lparr>dv_pub = ''C'', dv_role = ''pending'', dv_label = [], dv_added_ts = 1, dv_node_id = []\<rparr>)]"

definition demo_approved :: dev_map where
  "demo_approved = dev_mem 2 (OpApprove ''c'') demo_devices"

definition demo_revoked :: dev_map where
  "demo_revoked = dev_mem 3 (OpRevoke ''b'') demo_approved"

definition demo_dev_json :: "dev_map json_format" where
  "demo_dev_json = \<lparr>
     jf_print = (\<lambda>m. if m = demo_devices then Inr ''1'' else if m = demo_approved then Inr ''2''
       else if m = demo_revoked then Inr ''3'' else Inl ''no''),
     jf_parse = (\<lambda>s. if s = ''1'' then Inr demo_devices else if s = ''2'' then Inr demo_approved
       else if s = ''3'' then Inr demo_revoked else Inl ''bad'')\<rparr>"

lemma demo_dev_json_law: "json_law demo_dev_json" "no_blank demo_dev_json"
proof -
  have "trim ''1'' \<noteq> []" "trim ''2'' \<noteq> []" "trim ''3'' \<noteq> []" by code_simp+
  then show "json_law demo_dev_json" "no_blank demo_dev_json"
    by (auto simp: json_law_def no_blank_def demo_dev_json_def split: if_splits)
qed

lemma demo_devices_ok: "bt_ok demo_devices" "has_admins demo_devices"
  by (simp_all add: demo_devices_def bt_ok_Cons has_admins_def admin_count_def bt_values_def
      is_admin_dev_def ROLE_ADMIN_def)

lemma operator_never_locked_out_witness:
  "has_admins (dev_run [(2, OpRevoke ''a''), (3, OpRevoke ''b''), (4, OpRevoke ''c'')] demo_devices)"
  by (rule operator_never_locked_out [OF demo_devices_ok])

lemma device_admin_exact_witness:
  "is_admin demo_approved ''c'' \<and> \<not> is_admin demo_devices ''c'' \<and> role_of demo_devices ''c'' = ROLE_PENDING"
proof -
  have "is_admin demo_approved ''c''" "\<not> is_admin demo_devices ''c''" by code_simp+
  with device_admin_exact [OF demo_devices_ok(1) demo_approved_def, of "''c''"] show ?thesis by auto
qed

definition demo_dev_store :: dev_store where
  "demo_dev_store = \<lparr>ds_path = dev_path ''d'', ds_map = demo_devices\<rparr>"

definition demo_dev_fs :: fs where
  "demo_dev_fs = (\<lambda>k. if k = path_key (dev_path ''d'') then Some ''1'' else None)"

definition demo_dev_result :: "bool dev_result" where
  "demo_dev_result = dev_exec demo_dev_json no_faults 2 (OpApprove ''c'') demo_dev_store demo_dev_fs"

lemma device_restart_witness:
  "fst demo_dev_result = Returned (Inr True) \<and>
   dev_on_disk demo_dev_json (fst (snd demo_dev_result)) (snd (snd demo_dev_result)) = Inr demo_approved"
proof -
  have p: "ds_path demo_dev_store = dev_path ''d''" by (simp add: demo_dev_store_def)
  have d: "dev_on_disk demo_dev_json demo_dev_store demo_dev_fs = Inr (ds_map demo_dev_store)" by code_simp
  have r: "fst demo_dev_result = Returned (Inr True)" by code_simp
  obtain res st' fs' where e: "demo_dev_result = (res, st', fs')" by (metis prod.collapse)
  have x: "res = Returned (Inr True)" using r e by (metis fst_conv)
  from device_restart [OF demo_dev_json_law p d e [unfolded demo_dev_result_def]]
  have "dev_on_disk demo_dev_json st' fs' = Inr demo_approved"
    unfolding x by (simp add: demo_dev_store_def demo_approved_def)
  with e x show ?thesis by (metis fst_conv snd_conv)
qed

lemma racing_saves_lose_update_witness:
  "\<exists>w. (dev_step demo_dev_json)\<^sup>*\<^sup>*
      (two_threads demo_devices (Some ''1'') (2, OpApprove ''c'') (3, OpRevoke ''b'')) w \<and>
    dw_pc w 0 = Finished True \<and> dw_pc w 1 = Finished True \<and> dw_disk w = Some ''2'' \<and>
    \<not> is_admin (dw_mem w) ''b'' \<and> is_admin demo_approved ''b''"
proof -
  have 1: "dev_locked 2 (OpApprove ''c'') demo_devices = (True, demo_approved)"
    "dev_locked 3 (OpRevoke ''b'') demo_approved = (True, demo_revoked)"
    "jf_print demo_dev_json demo_approved = Inr ''2''" "jf_print demo_dev_json demo_revoked = Inr ''3''"
    by code_simp+
  have 2: "\<not> is_admin demo_revoked ''b''" "is_admin demo_approved ''b''" by code_simp+
  from racing_saves_lose_update [OF 1, of "Some ''1''"] 2 show ?thesis by metis
qed

end
