(* ===== verification/Vault.thy ===== *)
theory Vault
  imports Device
begin

text \<open>
  \<open>secrets.rs\<close>: the vault of one account over its store. A master key, derived from the owner's key,
  seals every secret; it is wrapped to each enrolled device. This theory has the parameters that stand
  for the cryptography of \<open>ce_secrets_rs\<close>, the records, enrolment in its four forms (initialisation,
  recovery, pairing, one-time token) and what a device can read afterwards.
\<close>

section \<open>The cryptographic library\<close>

text \<open>
  \<open>'j\<close> is the public JWK, \<open>'p\<close> a private key, \<open>'w\<close> a wrapped master, \<open>'s\<close> a sealed secret; the
  conversions are \<open>serde_json::to_value\<close> and \<open>from_value\<close>. Randomized operations take their randomness
  as an argument.
\<close>

record ('j, 'p) key_pair =
  dk_id :: string
  dk_ecdh_priv :: 'p
  dk_ecdh_pub :: 'j
  dk_ecdsa_priv :: 'p
  dk_ecdsa_pub :: 'j

record ('j, 'p, 'w, 's) vcrypto =
  vc_jwk_json :: "'j \<Rightarrow> json"
  vc_jwk_parse :: "json \<Rightarrow> string + 'j"
  vc_wrap_json :: "'w \<Rightarrow> json"
  vc_wrap_parse :: "json \<Rightarrow> string + 'w"
  vc_seal_json :: "'s \<Rightarrow> json"
  vc_seal_parse :: "json \<Rightarrow> string + 's"
  vc_owner_master :: "'p \<Rightarrow> string \<Rightarrow> string + bytes"
  vc_wrap :: "bytes \<Rightarrow> 'j \<Rightarrow> bytes \<Rightarrow> string + 'w"
  vc_unwrap :: "'p \<Rightarrow> 'w \<Rightarrow> string + bytes"
  vc_seal :: "bytes \<Rightarrow> bytes \<Rightarrow> bytes \<Rightarrow> string + 's"
  vc_open :: "bytes \<Rightarrow> 's \<Rightarrow> string + bytes"
  vc_fingerprint :: "bytes \<Rightarrow> string"
  vc_sign :: "('j, 'p) key_pair \<Rightarrow> json \<Rightarrow> bytes \<Rightarrow> string + string"
  vc_verify :: "'j \<Rightarrow> json \<Rightarrow> string \<Rightarrow> string + bool"
  vc_sign_challenge :: "('j, 'p) key_pair \<Rightarrow> string \<Rightarrow> string \<Rightarrow> string \<Rightarrow> bytes \<Rightarrow> string + string"
  vc_verify_auth :: "'j \<Rightarrow> string \<Rightarrow> string \<Rightarrow> string \<Rightarrow> string \<Rightarrow> string \<Rightarrow> string + bool"
  vc_print :: "json \<Rightarrow> string + string"
  vc_parse :: "string \<Rightarrow> string + json"
  vc_b64url_encode :: "string \<Rightarrow> string"
  vc_b64url_decode :: "string \<Rightarrow> string + string"
  vc_parse_iso_ms :: "string \<Rightarrow> int option"

text \<open>The fresh randomness of an operation: of its wrap or seal, and of its signature.\<close>

record vrandom =
  vr_main :: bytes
  vr_sign :: bytes

record ('j, 'p) vault =
  va_device :: "('j, 'p) key_pair"
  va_ns :: string

section \<open>Keys of the store\<close>

definition secret_key :: "string \<Rightarrow> string" where
  "secret_key name = ''s.'' @ name"

definition device_key :: "string \<Rightarrow> string" where
  "device_key dev = ''d.'' @ dev"

definition pair_key :: "string \<Rightarrow> string" where
  "pair_key code = ''p.'' @ code"

definition enrol_key :: "string \<Rightarrow> string" where
  "enrol_key slot = ''enrol.'' @ slot"

definition grant_key :: "string \<Rightarrow> string" where
  "grant_key gid = ''g.'' @ gid"

lemma key_eqs [simp]:
  "secret_key a = secret_key b \<longleftrightarrow> a = b" "device_key a = device_key b \<longleftrightarrow> a = b"
  "pair_key a = pair_key b \<longleftrightarrow> a = b" "enrol_key a = enrol_key b \<longleftrightarrow> a = b"
  "grant_key a = grant_key b \<longleftrightarrow> a = b"
  by (simp_all add: secret_key_def device_key_def pair_key_def enrol_key_def grant_key_def)

lemma key_neqs [simp]:
  "secret_key a \<noteq> device_key b" "device_key b \<noteq> secret_key a" "secret_key a \<noteq> ''meta''" "''meta'' \<noteq> secret_key a"
  "device_key a \<noteq> ''meta''" "''meta'' \<noteq> device_key a" "device_key a \<noteq> pair_key b" "pair_key b \<noteq> device_key a"
  "device_key a \<noteq> enrol_key b" "enrol_key b \<noteq> device_key a" "device_key a \<noteq> grant_key b"
  "grant_key b \<noteq> device_key a" "secret_key a \<noteq> pair_key b" "pair_key b \<noteq> secret_key a"
  "secret_key a \<noteq> enrol_key b" "enrol_key b \<noteq> secret_key a"
  by (simp_all add: secret_key_def device_key_def pair_key_def enrol_key_def grant_key_def)

section \<open>The master key\<close>

definition unwrap_record :: "('j, 'p, 'w, 's) vcrypto \<Rightarrow> ('j, 'p) key_pair \<Rightarrow> json \<Rightarrow> string + bytes" where
  "unwrap_record C dk rec =
     and_then (ok_or (json_get rec ''wrappedMaster'') ''device record has no wrappedMaster'') (\<lambda>v.
     and_then (map_err (\<lambda>e. ''parse wrappedMaster: '' @ e) (vc_wrap_parse C v)) (\<lambda>w.
     map_err (\<lambda>e. ''unwrap master: '' @ e) (vc_unwrap C (dk_ecdh_priv dk) w)))"

definition load_master :: "('j, 'p, 'w, 's) vcrypto \<Rightarrow> 'st store_ops \<Rightarrow> ('j, 'p) vault \<Rightarrow> ('st, string, bytes) act" where
  "load_master C S V =
     act_then (so_get S (device_key (dk_id (va_device V)))) (\<lambda>found.
     act_then (act_lift (ok_or found ''this device is not enrolled in the vault'')) (\<lambda>rec.
     act_lift (unwrap_record C (va_device V) rec)))"

definition vault_exists :: "'st store_ops \<Rightarrow> ('st, string, bool) act" where
  "vault_exists S = act_then (so_get S ''meta'') (\<lambda>m. act_ret (m \<noteq> None))"

definition is_enrolled :: "'st store_ops \<Rightarrow> ('j, 'p) vault \<Rightarrow> ('st, string, bool) act" where
  "is_enrolled S V =
     act_then (so_get S (device_key (dk_id (va_device V)))) (\<lambda>m. act_ret (m \<noteq> None))"

definition public_value :: "('j, 'p, 'w, 's) vcrypto \<Rightarrow> ('j, 'p) key_pair \<Rightarrow> json" where
  "public_value C dk = json_obj [(''id'', JStr (dk_id dk)), (''ecdhPub'', vc_jwk_json C (dk_ecdh_pub dk)),
     (''ecdsaPub'', vc_jwk_json C (dk_ecdsa_pub dk))]"

definition signed :: "('j, 'p, 'w, 's) vcrypto \<Rightarrow> ('j, 'p) key_pair \<Rightarrow> bytes \<Rightarrow> (string \<times> json) list \<Rightarrow>
    string + json" where
  "signed C dk rnd kvs =
     and_then (vc_sign C dk (json_obj kvs) rnd) (\<lambda>sig. Inr (json_obj (kvs @ [(''sig'', JStr sig)])))"

text \<open>\<open>enroll\<close>: the master is wrapped to the device and its signed record written.\<close>

definition enrolment_record :: "('j, 'p, 'w, 's) vcrypto \<Rightarrow> ('j, 'p) vault \<Rightarrow> vrandom \<Rightarrow> string \<Rightarrow> json \<Rightarrow>
    bytes \<Rightarrow> string \<Rightarrow> string \<Rightarrow> string + json" where
  "enrolment_record C V R now pubv master label dev =
     and_then (ok_or (json_get pubv ''ecdhPub'') ''device public has no ecdhPub'') (\<lambda>ecdh_pub.
     and_then (ok_or (json_get pubv ''ecdsaPub'') ''device public has no ecdsaPub'') (\<lambda>ecdsa_pub.
     and_then (map_err (\<lambda>e. ''parse recipient ecdhPub: '' @ e) (vc_jwk_parse C ecdh_pub)) (\<lambda>recip.
     and_then (map_err (\<lambda>e. ''wrap master to device: '' @ e) (vc_wrap C master recip (vr_main R))) (\<lambda>wrapped.
     signed C (va_device V) (vr_sign R)
       [(''id'', JStr dev), (''label'', JStr label), (''ecdhPub'', ecdh_pub), (''ecdsaPub'', ecdsa_pub),
        (''wrappedMaster'', vc_wrap_json C wrapped), (''addedAt'', JStr now),
        (''writer'', JStr (dk_id (va_device V)))]))))"

definition enroll :: "('j, 'p, 'w, 's) vcrypto \<Rightarrow> 'st store_ops \<Rightarrow> ('j, 'p) vault \<Rightarrow> vrandom \<Rightarrow> string \<Rightarrow> json \<Rightarrow>
    bytes \<Rightarrow> string \<Rightarrow> string \<Rightarrow> ('st, string, unit) act" where
  "enroll C S V R now pubv master label dev =
     act_then (act_lift (enrolment_record C V R now pubv master label dev)) (\<lambda>rec.
     so_put S (device_key dev) rec)"

text \<open>The clock is read once for the enrolment and once for the \<open>meta\<close> record.\<close>

definition recover :: "('j, 'p, 'w, 's) vcrypto \<Rightarrow> 'st store_ops \<Rightarrow> ('j, 'p) vault \<Rightarrow> vrandom \<Rightarrow> string \<Rightarrow> string \<Rightarrow>
    string \<Rightarrow> ('st, string, unit) act" where
  "recover C S V R now1 now2 label =
     act_then (act_lift (map_err (\<lambda>e. ''derive owner master: '' @ e)
       (vc_owner_master C (dk_ecdh_priv (va_device V)) (va_ns V)))) (\<lambda>master.
     act_then (enroll C S V R now1 (public_value C (va_device V)) master
       (if label = [] then ''this device (owner)'' else label) (dk_id (va_device V))) (\<lambda>_.
     so_put S ''meta'' (json_obj [(''createdAt'', JStr now2), (''version'', JInt 2),
       (''owner'', JStr (dk_id (va_device V)))])))"

definition vault_init :: "('j, 'p, 'w, 's) vcrypto \<Rightarrow> 'st store_ops \<Rightarrow> ('j, 'p) vault \<Rightarrow> vrandom \<Rightarrow> string \<Rightarrow> string \<Rightarrow>
    string \<Rightarrow> ('st, string, bool) act" where
  "vault_init C S V R now1 now2 label =
     act_then (vault_exists S) (\<lambda>there.
       if there then act_ret False
       else act_then (recover C S V R now1 now2 label) (\<lambda>_. act_ret True))"

section \<open>Pairing\<close>

definition pairing_alphabet :: string where
  "pairing_alphabet = ''23456789ABCDEFGHJKLMNPQRSTUVWXYZ''"

definition pairing_char :: "byte \<Rightarrow> char" where
  "pairing_char b = pairing_alphabet ! (unat b mod 32)"

definition pairing_code :: "bytes \<Rightarrow> string" where
  "pairing_code r = map pairing_char (take 4 r) @ ''-'' @ map pairing_char (drop 4 r)"

definition pairing_record :: "('j, 'p, 'w, 's) vcrypto \<Rightarrow> ('j, 'p) key_pair \<Rightarrow> string \<Rightarrow> string \<Rightarrow> string \<Rightarrow> json" where
  "pairing_record C dk code now label = json_obj [(''code'', JStr code),
     (''label'', JStr (if label = [] then ''new device'' else label)),
     (''ts'', JStr now), (''pub'', public_value C dk)]"

definition request_pairing :: "('j, 'p, 'w, 's) vcrypto \<Rightarrow> 'st store_ops \<Rightarrow> ('j, 'p) vault \<Rightarrow> bytes \<Rightarrow> string \<Rightarrow>
    string \<Rightarrow> ('st, string, string) act" where
  "request_pairing C S V random8 now label =
     (let code = pairing_code random8 in
      act_then (so_put S (pair_key code) (pairing_record C (va_device V) code now label)) (\<lambda>_.
      act_ret code))"

definition list_pairing :: "'st store_ops \<Rightarrow> ('st, string, json list) act" where
  "list_pairing S = act_then (so_list S ''p.'') (\<lambda>es. act_ret (map snd es))"

definition approve_pairing :: "('j, 'p, 'w, 's) vcrypto \<Rightarrow> 'st store_ops \<Rightarrow> ('j, 'p) vault \<Rightarrow> vrandom \<Rightarrow> string \<Rightarrow>
    string \<Rightarrow> ('st, string, string) act" where
  "approve_pairing C S V R now code =
     act_then (so_get S (pair_key code)) (\<lambda>found.
     act_then (act_lift (ok_or found (''no pairing request with code '' @ code))) (\<lambda>req.
     act_then (act_lift (ok_or (json_get req ''pub'') ''pairing request has no pub'')) (\<lambda>pubv.
     act_then (act_lift (ok_or (get_str pubv ''id'') ''pairing request pub has no id'')) (\<lambda>dev.
     act_then (load_master C S V) (\<lambda>master.
     act_then (enroll C S V R now pubv master (unwrap_or (get_str req ''label'') ''new device'') dev) (\<lambda>_.
     act_then (so_del S (pair_key code)) (\<lambda>_.
     act_ret dev)))))))"

section \<open>Enrolment tokens\<close>

text \<open>
  Times are \<open>i64\<close> seconds, kept as their 64 bits: \<open>ttl_secs as i64\<close> keeps the bits and the sum wraps
  (the release profile; a debug build panics on overflow). The clock is read twice.
\<close>

definition token_record :: "('j, 'p, 'w, 's) vcrypto \<Rightarrow> bytes \<Rightarrow> 's \<Rightarrow> u64 \<Rightarrow> u64 \<Rightarrow> string \<Rightarrow> u64 \<Rightarrow> json" where
  "token_record C secret sealed now1 now2 label ttl_secs =
     json_obj [(''id'', JStr (vc_fingerprint C secret)),
       (''label'', JStr (if label = [] then ''enrolled device'' else label)),
       (''sealed'', vc_seal_json C sealed), (''expires'', JInt (sint (now1 + ttl_secs))),
       (''ts'', JInt (sint now2))]"

definition issue_enrol_token :: "('j, 'p, 'w, 's) vcrypto \<Rightarrow> 'st store_ops \<Rightarrow> ('j, 'p) vault \<Rightarrow> vrandom \<Rightarrow> bytes \<Rightarrow>
    u64 \<Rightarrow> u64 \<Rightarrow> string \<Rightarrow> u64 \<Rightarrow> ('st, string, string) act" where
  "issue_enrol_token C S V R secret now1 now2 label ttl_secs =
     act_then (load_master C S V) (\<lambda>master.
     act_then (act_lift (map_err (\<lambda>e. ''seal master under the enrol token: '' @ e)
       (vc_seal C secret master (vr_main R)))) (\<lambda>sealed.
     let slot = vc_fingerprint C secret in
     act_then (so_put S (enrol_key slot) (token_record C secret sealed now1 now2 label ttl_secs)) (\<lambda>_.
     act_ret (slot @ ''.'' @ b64_encode secret))))"

definition redeem_slot :: "('j, 'p, 'w, 's) vcrypto \<Rightarrow> 'st store_ops \<Rightarrow> ('j, 'p) vault \<Rightarrow> vrandom \<Rightarrow> u64 \<Rightarrow>
    string \<Rightarrow> string \<Rightarrow> bytes \<Rightarrow> string \<Rightarrow> ('st, string, unit) act" where
  "redeem_slot C S V R now_secs now slot secret label =
     act_then (so_get S (enrol_key slot)) (\<lambda>found.
     act_then (act_lift (ok_or found ''enrol token not found (already used, or never issued)'')) (\<lambda>rec.
     act_then (act_lift (ensure (\<not> unwrap_or (Option.bind (json_get rec ''expires'') as_i64) 0 < sint now_secs)
       ''enrol token expired'')) (\<lambda>_.
     act_then (act_lift (ok_or (json_get rec ''sealed'') ''enrol token has no sealed master'')) (\<lambda>v.
     act_then (act_lift (map_err (\<lambda>e. ''parse sealed master: '' @ e) (vc_seal_parse C v))) (\<lambda>sealed.
     act_then (act_lift (map_err (\<lambda>e. ''recover master from enrol token: '' @ e)
       (vc_open C secret sealed))) (\<lambda>master.
     act_then (enroll C S V R now (public_value C (va_device V)) master
       (if label = [] then ''vm device'' else label) (dk_id (va_device V))) (\<lambda>_.
     so_del S (enrol_key slot))))))))"

text \<open>Decoding the token can panic: \<open>None\<close>, with the store untouched.\<close>

definition redeem_enrol_token :: "('j, 'p, 'w, 's) vcrypto \<Rightarrow> 'st store_ops \<Rightarrow> ('j, 'p) vault \<Rightarrow> vrandom \<Rightarrow> u64 \<Rightarrow>
    string \<Rightarrow> string \<Rightarrow> string \<Rightarrow> 'st \<Rightarrow> (string + unit) option \<times> 'st" where
  "redeem_enrol_token C S V R now_secs now token label st =
     (case split_once CHR ''.'' token of
        None \<Rightarrow> (Some (Inl ''malformed enrol token (want <id>.<secret>)''), st)
      | Some (slot, secret_hex) \<Rightarrow>
          (case b64_decode secret_hex of
             None \<Rightarrow> (None, st)
           | Some (Inl e) \<Rightarrow> (Some (Inl ''decode enrol token secret''), st)
           | Some (Inr secret) \<Rightarrow>
               (case redeem_slot C S V R now_secs now slot secret label st of (r, st') \<Rightarrow> (Some r, st'))))"

section \<open>Listing and revoking devices\<close>

record device_info =
  di_id :: string
  di_label :: string
  di_added_at :: string
  di_is_self :: bool

definition device_info_of :: "('j, 'p) vault \<Rightarrow> json \<Rightarrow> device_info" where
  "device_info_of V v =
     (let dev = unwrap_or (get_str v ''id'') [] in
      \<lparr>di_id = dev, di_label = unwrap_or (get_str v ''label'') [],
       di_added_at = unwrap_or (get_str v ''addedAt'') [], di_is_self = (dev = dk_id (va_device V))\<rparr>)"

definition list_devices :: "'st store_ops \<Rightarrow> ('j, 'p) vault \<Rightarrow> ('st, string, device_info list) act" where
  "list_devices S V =
     act_then (so_list S ''d.'') (\<lambda>es. act_ret (map (\<lambda>e. device_info_of V (snd e)) es))"

definition revoke_device :: "'st store_ops \<Rightarrow> ('j, 'p) vault \<Rightarrow> string \<Rightarrow> ('st, string, unit) act" where
  "revoke_device S V dev =
     (if dev = dk_id (va_device V) then act_fail ''refusing to revoke the device you are using''
      else so_del S (device_key dev))"

section \<open>Laws of the library\<close>

text \<open>
  What the vault relies on, as documented by \<open>ce_secrets_rs\<close>, for the keys \<open>gen\<close> that
  \<open>DeviceKey::generate\<close> makes: conversions read back what they wrote, a device unwraps what was wrapped
  to it, a sealed body opens under its key, and signatures of a key verify under its public half.
\<close>

definition codec_law :: "('j, 'p, 'w, 's) vcrypto \<Rightarrow> bool" where
  "codec_law C \<longleftrightarrow> (\<forall>j. vc_jwk_parse C (vc_jwk_json C j) = Inr j) \<and>
     (\<forall>w. vc_wrap_parse C (vc_wrap_json C w) = Inr w) \<and> (\<forall>s. vc_seal_parse C (vc_seal_json C s) = Inr s)"

definition wrap_law :: "('j, 'p, 'w, 's) vcrypto \<Rightarrow> (('j, 'p) key_pair \<Rightarrow> bool) \<Rightarrow> bool" where
  "wrap_law C gen \<longleftrightarrow> (\<forall>dk m r w. gen dk \<longrightarrow> vc_wrap C m (dk_ecdh_pub dk) r = Inr w \<longrightarrow>
     vc_unwrap C (dk_ecdh_priv dk) w = Inr m)"

definition seal_law :: "('j, 'p, 'w, 's) vcrypto \<Rightarrow> bool" where
  "seal_law C \<longleftrightarrow> (\<forall>k m r s. vc_seal C k m r = Inr s \<longrightarrow> vc_open C k s = Inr m)"

definition sign_law :: "('j, 'p, 'w, 's) vcrypto \<Rightarrow> (('j, 'p) key_pair \<Rightarrow> bool) \<Rightarrow> bool" where
  "sign_law C gen \<longleftrightarrow> (\<forall>dk v r sig. gen dk \<longrightarrow> vc_sign C dk v r = Inr sig \<longrightarrow>
     vc_verify C (dk_ecdsa_pub dk) v sig = Inr True)"

definition challenge_law :: "('j, 'p, 'w, 's) vcrypto \<Rightarrow> (('j, 'p) key_pair \<Rightarrow> bool) \<Rightarrow> bool" where
  "challenge_law C gen \<longleftrightarrow> (\<forall>dk aud nonce ts r sig. gen dk \<longrightarrow>
     vc_sign_challenge C dk aud nonce ts r = Inr sig \<longrightarrow>
     vc_verify_auth C (dk_ecdsa_pub dk) aud (dk_id dk) nonce ts sig = Inr True)"

definition text_law :: "('j, 'p, 'w, 's) vcrypto \<Rightarrow> bool" where
  "text_law C \<longleftrightarrow> (\<forall>v t. vc_print C v = Inr t \<longrightarrow> vc_parse C t = Inr v) \<and>
     (\<forall>t. vc_b64url_decode C (vc_b64url_encode C t) = Inr t)"

definition enrol_laws :: "('j, 'p, 'w, 's) vcrypto \<Rightarrow> (('j, 'p) key_pair \<Rightarrow> bool) \<Rightarrow> bool" where
  "enrol_laws C gen \<longleftrightarrow> codec_law C \<and> wrap_law C gen \<and> seal_law C"

section \<open>Holding the master\<close>

text \<open>The master that a device holds in a given store, as a function of the stored records alone.\<close>

definition held_master :: "('j, 'p, 'w, 's) vcrypto \<Rightarrow> ('j, 'p) key_pair \<Rightarrow> kv_view \<Rightarrow> string + bytes" where
  "held_master C dk view =
     and_then (ok_or (view (device_key (dk_id dk))) ''this device is not enrolled in the vault'')
       (unwrap_record C dk)"

lemma json_obj_not_null [simp]: "json_obj kvs \<noteq> JNull" "JNull \<noteq> json_obj kvs"
  by (simp_all add: json_obj_def)

lemma signed_Inr:
  assumes "signed C dk r kvs = Inr rec"
  obtains sig where "vc_sign C dk (json_obj kvs) r = Inr sig" "rec = json_obj (kvs @ [(''sig'', JStr sig)])"
  using assms by (auto simp: signed_def and_then_Inr)

text \<open>The record written for a device of which only the public half is known.\<close>

lemma enrolment_record_sel:
  assumes "enrolment_record C V R now pubv master label dev = Inr rec"
  obtains j w where "json_get pubv ''ecdhPub'' = Some j" "json_get pubv ''ecdsaPub'' = json_get rec ''ecdsaPub''"
    "and_then (vc_jwk_parse C j) (\<lambda>recip. vc_wrap C master recip (vr_main R)) = Inr w"
    "json_get rec ''wrappedMaster'' = Some (vc_wrap_json C w)" "rec \<noteq> JNull"
proof -
  obtain ecdh ecdsa recip w where p: "json_get pubv ''ecdhPub'' = Some ecdh"
    "json_get pubv ''ecdsaPub'' = Some ecdsa" "vc_jwk_parse C ecdh = Inr recip"
    "vc_wrap C master recip (vr_main R) = Inr w"
    "signed C (va_device V) (vr_sign R)
       [(''id'', JStr dev), (''label'', JStr label), (''ecdhPub'', ecdh), (''ecdsaPub'', ecdsa),
        (''wrappedMaster'', vc_wrap_json C w), (''addedAt'', JStr now),
        (''writer'', JStr (dk_id (va_device V)))] = Inr rec"
    using assms by (auto simp: enrolment_record_def and_then_Inr)
  from p(5) have "json_get rec ''ecdsaPub'' = Some ecdsa \<and>
      json_get rec ''wrappedMaster'' = Some (vc_wrap_json C w) \<and> rec \<noteq> JNull"
    by (auto elim!: signed_Inr simp: json_get_obj)
  with p that show ?thesis by (simp add: and_then_Inr)
qed

lemma public_value_sel [simp]:
  "json_get (public_value C dk) ''ecdhPub'' = Some (vc_jwk_json C (dk_ecdh_pub dk))"
  "json_get (public_value C dk) ''ecdsaPub'' = Some (vc_jwk_json C (dk_ecdsa_pub dk))"
  "get_str (public_value C dk) ''id'' = Some (dk_id dk)"
  by (simp_all add: public_value_def get_str_def json_get_obj)

lemma enrolled_unwraps:
  assumes "enrol_laws C gen" "gen dk"
    and "enrolment_record C V R now (public_value C dk) master label dev = Inr rec"
  shows "unwrap_record C dk rec = Inr master"
    and "json_get rec ''ecdsaPub'' = Some (vc_jwk_json C (dk_ecdsa_pub dk))"
proof -
  note laws = assms(1) [unfolded enrol_laws_def codec_law_def wrap_law_def]
  obtain j w where p: "json_get (public_value C dk) ''ecdhPub'' = Some j"
    "json_get (public_value C dk) ''ecdsaPub'' = json_get rec ''ecdsaPub''"
    "and_then (vc_jwk_parse C j) (\<lambda>recip. vc_wrap C master recip (vr_main R)) = Inr w"
    "json_get rec ''wrappedMaster'' = Some (vc_wrap_json C w)"
    using assms(3) by (rule enrolment_record_sel)
  have "j = vc_jwk_json C (dk_ecdh_pub dk)"
    using p(1) by simp
  with p(3) laws have "vc_wrap C master (dk_ecdh_pub dk) (vr_main R) = Inr w"
    by (simp add: and_then_def)
  with laws assms(2) have "vc_unwrap C (dk_ecdh_priv dk) w = Inr master" by blast
  with laws p(4) show "unwrap_record C dk rec = Inr master"
    by (simp add: unwrap_record_def and_then_def ok_or_def map_err_def)
  show "json_get rec ''ecdsaPub'' = Some (vc_jwk_json C (dk_ecdsa_pub dk))"
    using p(2) by simp
qed

section \<open>What the operations do to the stored records\<close>

context kv_store
begin

lemma load_master_Inr:
  assumes "ok s" "load_master C S V s = (Inr m, s')"
  shows "ok s' \<and> view s' = view s \<and> held_master C (va_device V) (view s) = Inr m"
proof -
  obtain found rec where r: "so_get S (device_key (dk_id (va_device V))) s = (Inr found, s')"
    "found = Some rec" "unwrap_record C (va_device V) rec = Inr m"
    using assms(2) by (auto simp: load_master_def act_then_Inr)
  note g = get_Inr [OF assms(1) r(1)]
  then have "view s (device_key (dk_id (va_device V))) = Some rec" using r(2) by simp
  with g r(3) show ?thesis by (simp add: held_master_def and_then_def ok_or_def)
qed

lemma enroll_Inr:
  assumes "ok s" "enroll C S V R now pubv master label dev s = (Inr u, s')"
  obtains rec where "enrolment_record C V R now pubv master label dev = Inr rec"
    "ok s'" "view s' = (view s)(device_key dev \<mapsto> rec)"
proof -
  obtain rec where r: "enrolment_record C V R now pubv master label dev = Inr rec"
    "so_put S (device_key dev) rec s = (Inr u, s')"
    using assms(2) by (auto simp: enroll_def act_then_Inr)
  have "rec \<noteq> JNull" using r(1) by (rule enrolment_record_sel)
  with put_Inr [OF assms(1) _ r(2)] r(1) show ?thesis by (auto intro: that)
qed

lemma enroll_self_Inr:
  assumes "ok s" "enrol_laws C gen" "gen dk"
    and "enroll C S V R now (public_value C dk) master label (dk_id dk) s = (Inr u, s')"
  obtains rec where "ok s'" "view s' = (view s)(device_key (dk_id dk) \<mapsto> rec)"
    "held_master C dk (view s') = Inr master" "json_get rec ''ecdsaPub'' = Some (vc_jwk_json C (dk_ecdsa_pub dk))"
proof -
  obtain rec where r: "enrolment_record C V R now (public_value C dk) master label (dk_id dk) = Inr rec"
    "ok s'" "view s' = (view s)(device_key (dk_id dk) \<mapsto> rec)"
    using enroll_Inr [OF assms(1,4)] by blast
  have "held_master C dk (view s') = Inr master"
    using r(3) enrolled_unwraps(1) [OF assms(2,3) r(1)] by (simp add: held_master_def and_then_def ok_or_def)
  with r enrolled_unwraps(2) [OF assms(2,3) r(1)] show ?thesis by (auto intro: that)
qed

lemma recover_Inr:
  assumes "ok s" "enrol_laws C gen" "gen (va_device V)"
    and "recover C S V R n1 n2 label s = (Inr u, s')"
  obtains master where "vc_owner_master C (dk_ecdh_priv (va_device V)) (va_ns V) = Inr master" "ok s'"
    "held_master C (va_device V) (view s') = Inr master"
    "\<And>k. k \<noteq> ''meta'' \<Longrightarrow> k \<noteq> device_key (dk_id (va_device V)) \<Longrightarrow> view s' k = view s k"
    "view s' ''meta'' \<noteq> None"
proof -
  obtain master s1 u1 where r: "vc_owner_master C (dk_ecdh_priv (va_device V)) (va_ns V) = Inr master"
    "enroll C S V R n1 (public_value C (va_device V)) master
       (if label = [] then ''this device (owner)'' else label) (dk_id (va_device V)) s = (Inr u1, s1)"
    "so_put S ''meta'' (json_obj [(''createdAt'', JStr n2), (''version'', JInt 2),
       (''owner'', JStr (dk_id (va_device V)))]) s1 = (Inr u, s')"
    using assms(4) by (auto simp: recover_def act_then_Inr)
  obtain rec where e: "ok s1" "view s1 = (view s)(device_key (dk_id (va_device V)) \<mapsto> rec)"
    "held_master C (va_device V) (view s1) = Inr master"
    using enroll_self_Inr [OF assms(1-3) r(2)] by metis
  have p: "ok s'" "view s' = (view s1)(''meta'' \<mapsto> json_obj [(''createdAt'', JStr n2), (''version'', JInt 2),
       (''owner'', JStr (dk_id (va_device V)))])"
    using put_Inr [OF e(1) _ r(3)] by simp_all
  have "held_master C (va_device V) (view s') = Inr master"
    using e(3) p(2) by (simp add: held_master_def)
  with r(1) p e(2) show ?thesis by (auto intro!: that)
qed

lemma request_pairing_Inr:
  assumes "ok s" "request_pairing C S V rnd now label s = (Inr code, s')"
  shows "ok s' \<and> view s' = (view s)(pair_key code \<mapsto> pairing_record C (va_device V) code now label)"
proof -
  have "code = pairing_code rnd"
    "so_put S (pair_key code) (pairing_record C (va_device V) code now label) s = (Inr (), s')"
    using assms(2) by (auto simp: request_pairing_def act_then_Inr Let_def)
  from put_Inr [OF assms(1) _ this(2)] show ?thesis by (simp add: pairing_record_def)
qed

lemma approve_pairing_Inr:
  assumes "ok s" "approve_pairing C S V R now code s = (Inr dev, s')"
  obtains req pubv master rec where "view s (pair_key code) = Some req" "json_get req ''pub'' = Some pubv"
    "get_str pubv ''id'' = Some dev" "held_master C (va_device V) (view s) = Inr master"
    "enrolment_record C V R now pubv master (unwrap_or (get_str req ''label'') ''new device'') dev = Inr rec"
    "ok s'" "view s' = (view s)(device_key dev \<mapsto> rec, pair_key code := None)"
proof -
  obtain found s1 req pubv master s2 u s3 v where r: "so_get S (pair_key code) s = (Inr found, s1)"
    "found = Some req" "json_get req ''pub'' = Some pubv" "get_str pubv ''id'' = Some dev"
    "load_master C S V s1 = (Inr master, s2)"
    "enroll C S V R now pubv master (unwrap_or (get_str req ''label'') ''new device'') dev s2 = (Inr u, s3)"
    "so_del S (pair_key code) s3 = (Inr v, s')"
    using assms(2) by (auto simp: approve_pairing_def act_then_Inr)
  have g: "ok s1" "view s1 = view s" "view s (pair_key code) = Some req"
    using get_Inr [OF assms(1) r(1)] r(2) by simp_all
  have m: "ok s2" "view s2 = view s" "held_master C (va_device V) (view s) = Inr master"
    using load_master_Inr [OF g(1) r(5)] g(2) by simp_all
  obtain rec where e: "enrolment_record C V R now pubv master (unwrap_or (get_str req ''label'') ''new device'') dev = Inr rec"
    "ok s3" "view s3 = (view s)(device_key dev \<mapsto> rec)"
    using enroll_Inr [OF m(1) r(6)] m(2) by metis
  have "ok s'" "view s' = (view s)(device_key dev \<mapsto> rec, pair_key code := None)"
    using del_Inr [OF e(2) r(7)] e(3) by simp_all
  with g(3) r(3,4) m(3) e(1) show ?thesis by (rule that)
qed

lemma issue_token_Inr:
  assumes "ok s" "issue_enrol_token C S V R secret n1 n2 label ttl s = (Inr token, s')"
  obtains master sealed where "held_master C (va_device V) (view s) = Inr master"
    "vc_seal C secret master (vr_main R) = Inr sealed"
    "token = vc_fingerprint C secret @ ''.'' @ b64_encode secret" "ok s'"
    "view s' = (view s)(enrol_key (vc_fingerprint C secret) \<mapsto> token_record C secret sealed n1 n2 label ttl)"
proof -
  obtain master s1 sealed where r: "load_master C S V s = (Inr master, s1)"
    "vc_seal C secret master (vr_main R) = Inr sealed"
    "token = vc_fingerprint C secret @ ''.'' @ b64_encode secret"
    "so_put S (enrol_key (vc_fingerprint C secret)) (token_record C secret sealed n1 n2 label ttl) s1 = (Inr (), s')"
    using assms(2) by (auto simp: issue_enrol_token_def act_then_Inr Let_def)
  have m: "ok s1" "view s1 = view s" "held_master C (va_device V) (view s) = Inr master"
    using load_master_Inr [OF assms(1) r(1)] by simp_all
  have "ok s'" "view s' = (view s)(enrol_key (vc_fingerprint C secret) \<mapsto> token_record C secret sealed n1 n2 label ttl)"
    using put_Inr [OF m(1) _ r(4)] m(2) by (simp_all add: token_record_def)
  with m(3) r(2,3) show ?thesis by (rule that)
qed

lemma redeem_slot_Inr:
  assumes "ok s" "enrol_laws C gen" "gen (va_device V)"
    and "redeem_slot C S V R now_secs now slot secret label s = (Inr u, s')"
  obtains rec v sealed master where "view s (enrol_key slot) = Some rec"
    "\<not> unwrap_or (Option.bind (json_get rec ''expires'') as_i64) 0 < sint now_secs"
    "json_get rec ''sealed'' = Some v" "vc_seal_parse C v = Inr sealed" "vc_open C secret sealed = Inr master"
    "ok s'" "view s' (enrol_key slot) = None" "held_master C (va_device V) (view s') = Inr master"
    "\<And>k. k \<noteq> enrol_key slot \<Longrightarrow> k \<noteq> device_key (dk_id (va_device V)) \<Longrightarrow> view s' k = view s k"
proof -
  obtain found s1 rec v sealed master s2 where r: "so_get S (enrol_key slot) s = (Inr found, s1)"
    "found = Some rec" "\<not> unwrap_or (Option.bind (json_get rec ''expires'') as_i64) 0 < sint now_secs"
    "json_get rec ''sealed'' = Some v" "vc_seal_parse C v = Inr sealed" "vc_open C secret sealed = Inr master"
    "enroll C S V R now (public_value C (va_device V)) master
       (if label = [] then ''vm device'' else label) (dk_id (va_device V)) s1 = (Inr (), s2)"
    "so_del S (enrol_key slot) s2 = (Inr u, s')"
    using assms(4) by (auto simp: redeem_slot_def act_then_Inr)
  have g: "ok s1" "view s1 = view s" "view s (enrol_key slot) = Some rec"
    using get_Inr [OF assms(1) r(1)] r(2) by simp_all
  obtain e where e: "ok s2" "view s2 = (view s1)(device_key (dk_id (va_device V)) \<mapsto> e)"
    "held_master C (va_device V) (view s2) = Inr master"
    using enroll_self_Inr [OF g(1) assms(2,3) r(7)] by metis
  have d: "ok s'" "view s' = (view s2)(enrol_key slot := None)"
    using del_Inr [OF e(1) r(8)] by simp_all
  have "held_master C (va_device V) (view s') = Inr master"
    using e(3) d(2) by (simp add: held_master_def)
  moreover have "view s' k = view s k" if "k \<noteq> enrol_key slot" "k \<noteq> device_key (dk_id (va_device V))" for k
    using that d(2) e(2) g(2) by simp
  moreover have "view s' (enrol_key slot) = None" using d(2) by simp
  ultimately show ?thesis using g(3) r(3-6) d(1) that by blast
qed

lemma redeem_burnt:
  assumes "ok s" "view s (enrol_key slot) = None"
  shows "\<exists>e s'. redeem_slot C S V R now_secs now slot secret label s = (Inl e, s') \<and> view s' = view s"
proof -
  obtain r s1 where g: "so_get S (enrol_key slot) s = (r, s1)" by fastforce
  then have "view s1 = view s \<and> (is_ok r \<longrightarrow> r = Inr None)"
    using get_law [OF assms(1) g] assms(2) by simp
  with g show ?thesis
    by (cases r) (auto simp: redeem_slot_def act_then_def ok_or_def)
qed

end

text \<open>A store that never fails loads the master exactly when the device holds one.\<close>

context kv_total
begin

lemma load_master_run:
  assumes "ok s"
  shows "\<exists>s'. load_master C S V s = (held_master C (va_device V) (view s), s') \<and> ok s' \<and> view s' = view s"
proof -
  obtain s' where "so_get S (device_key (dk_id (va_device V))) s =
      (Inr (view s (device_key (dk_id (va_device V)))), s')" "ok s'" "view s' = view s"
    using get_run [OF assms] by blast
  then show ?thesis
    by (auto simp: load_master_def act_then_def held_master_def and_then_def ok_or_def split: option.splits)
qed

end

end
