(* ===== verification/VaultDemo.thy ===== *)
theory VaultDemo
  imports Vault
begin

text \<open>
  A concrete instance of the cryptographic parameters for the witnesses: a public key is the number of
  its private key, wrapping and sealing remember the key, a signature is as long as its key's number.
  The laws that the vault's lemmas assume hold of it. The JSON printer knows one record.
\<close>

type_synonym demo_crypto = "(nat, nat, nat \<times> bytes, bytes \<times> bytes) vcrypto"

definition json_of_bytes :: "bytes \<Rightarrow> json" where
  "json_of_bytes b = JArr (map (\<lambda>x. JInt (uint x)) b)"

fun byte_of_json :: "json \<Rightarrow> byte" where
  "byte_of_json (JInt i) = word_of_int i"
| "byte_of_json _ = 0"

definition bytes_of_json :: "json \<Rightarrow> bytes" where
  "bytes_of_json v = (case v of JArr xs \<Rightarrow> map byte_of_json xs | _ \<Rightarrow> [])"

lemma bytes_of_json_of_bytes [simp]: "bytes_of_json (json_of_bytes b) = b"
  by (simp add: bytes_of_json_def json_of_bytes_def comp_def)

fun demo_jwk_parse :: "json \<Rightarrow> string + nat" where
  "demo_jwk_parse (JInt i) = Inr (nat i)"
| "demo_jwk_parse _ = Inl ''jwk''"

fun demo_wrap_parse :: "json \<Rightarrow> string + nat \<times> bytes" where
  "demo_wrap_parse (JArr [JInt i, v]) = Inr (nat i, bytes_of_json v)"
| "demo_wrap_parse _ = Inl ''wrap''"

fun demo_seal_parse :: "json \<Rightarrow> string + bytes \<times> bytes" where
  "demo_seal_parse (JArr [k, v]) = Inr (bytes_of_json k, bytes_of_json v)"
| "demo_seal_parse _ = Inl ''seal''"

definition demo_sig :: "nat \<Rightarrow> string" where
  "demo_sig n = replicate (Suc n) CHR ''s''"

definition demo_crypto :: "json \<Rightarrow> demo_crypto" where
  "demo_crypto known = \<lparr>
     vc_jwk_json = (\<lambda>n. JInt (int n)),
     vc_jwk_parse = demo_jwk_parse,
     vc_wrap_json = (\<lambda>(n, b). JArr [JInt (int n), json_of_bytes b]),
     vc_wrap_parse = demo_wrap_parse,
     vc_seal_json = (\<lambda>(k, b). JArr [json_of_bytes k, json_of_bytes b]),
     vc_seal_parse = demo_seal_parse,
     vc_owner_master = (\<lambda>p ns. Inr [of_nat p, of_nat (length ns)]),
     vc_wrap = (\<lambda>b n r. Inr (n, b)),
     vc_unwrap = (\<lambda>p (n, b). if p = n then Inr b else Inl ''unwrap''),
     vc_seal = (\<lambda>k b r. Inr (k, b)),
     vc_open = (\<lambda>k' (k, b). if k' = k then Inr b else Inl ''open''),
     vc_fingerprint = b64_encode,
     vc_sign = (\<lambda>dk v r. Inr (demo_sig (dk_ecdsa_priv dk))),
     vc_verify = (\<lambda>n v sig. Inr (sig = demo_sig n)),
     vc_sign_challenge = (\<lambda>dk aud nonce ts r. Inr (demo_sig (dk_ecdsa_priv dk))),
     vc_verify_auth = (\<lambda>n aud dev nonce ts sig. Inr (sig = demo_sig n)),
     vc_print = (\<lambda>v. if v = known then Inr ''#'' else Inl ''print''),
     vc_parse = (\<lambda>t. if t = ''#'' then Inr known else Inl ''parse''),
     vc_b64url_encode = (\<lambda>t. t),
     vc_b64url_decode = Inr,
     vc_parse_iso_ms = (\<lambda>t. Some (int (length t)))\<rparr>"

definition demo_gen :: "(nat, nat) key_pair \<Rightarrow> bool" where
  "demo_gen dk \<longleftrightarrow> dk_ecdh_pub dk = dk_ecdh_priv dk \<and> dk_ecdsa_pub dk = dk_ecdsa_priv dk"

definition demo_device_key :: "string \<Rightarrow> nat \<Rightarrow> (nat, nat) key_pair" where
  "demo_device_key dev n = \<lparr>dk_id = dev, dk_ecdh_priv = n, dk_ecdh_pub = n,
     dk_ecdsa_priv = n + 1, dk_ecdsa_pub = n + 1\<rparr>"

definition demo_vault :: "string \<Rightarrow> nat \<Rightarrow> (nat, nat) vault" where
  "demo_vault dev n = \<lparr>va_device = demo_device_key dev n, va_ns = ''n''\<rparr>"

definition demo_rnd :: vrandom where
  "demo_rnd = \<lparr>vr_main = [], vr_sign = []\<rparr>"

lemma demo_enrol_laws: "enrol_laws (demo_crypto known) demo_gen"
  by (auto simp: enrol_laws_def codec_law_def wrap_law_def seal_law_def demo_crypto_def demo_gen_def)

lemma demo_sign_laws: "sign_law (demo_crypto known) demo_gen" "challenge_law (demo_crypto known) demo_gen"
  by (auto simp: sign_law_def challenge_law_def demo_crypto_def demo_gen_def)

lemma demo_text_law: "text_law (demo_crypto known)"
  by (auto simp: text_law_def demo_crypto_def split: if_splits)

lemma demo_gen_key [simp]: "demo_gen (va_device (demo_vault dev n))" "demo_gen (demo_device_key dev n)"
  by (simp_all add: demo_gen_def demo_vault_def demo_device_key_def)

lemma demo_fingerprint_no_dot: "\<forall>b. CHR ''.'' \<notin> set (vc_fingerprint (demo_crypto known) b)"
proof
  fix b
  have "\<not> lower_hex_char (CHR ''.'')" by (simp add: lower_hex_char_def)
  then show "CHR ''.'' \<notin> set (vc_fingerprint (demo_crypto known) b)"
    using b64_encode_digits [of "CHR ''.''" b] by (auto simp: demo_crypto_def)
qed

text \<open>A vault with its owner enrolled, and a second device that has requested pairing.\<close>

definition demo_owner :: "(nat, nat) vault" where
  "demo_owner = demo_vault ''o'' 7"

definition demo_phone :: "(nat, nat) vault" where
  "demo_phone = demo_vault ''ph'' 3"

abbreviation demo_C :: demo_crypto where
  "demo_C \<equiv> demo_crypto JNull"

definition demo_opened :: kv_map where
  "demo_opened = snd (vault_init demo_C mem_store demo_owner demo_rnd ''t1'' ''t2'' [] [])"

lemma demo_opened_ok: "map_ok demo_opened"
proof -
  have "map_ok []" by (simp add: map_ok_def bt_get_def)
  moreover have "fst (recover demo_C mem_store demo_owner demo_rnd ''t1'' ''t2'' [] []) = Inr ()" by code_simp
  then have "recover demo_C mem_store demo_owner demo_rnd ''t1'' ''t2'' [] [] = (Inr (), snd
      (recover demo_C mem_store demo_owner demo_rnd ''t1'' ''t2'' [] []))"
    by (metis prod.collapse)
  moreover have "demo_opened = snd (recover demo_C mem_store demo_owner demo_rnd ''t1'' ''t2'' [] [])" by code_simp
  ultimately show ?thesis
    using mem.recover_Inr [OF _ demo_enrol_laws, of "[]" demo_owner] by (metis demo_gen_key(1) demo_owner_def)
qed

end
