(* ===== verification/VaultSecrets.thy ===== *)
theory VaultSecrets
  imports VaultDemo
begin

text \<open>
  The secrets of the vault: sealed under the master and written with their version and history, read
  back by any device that holds the master. The theorems put this theory and the enrolment of
  \<open>Vault\<close> on the two stores: pairing, tokens and recovery on the in-memory store, the round trip of a
  secret on the mesh.
\<close>

record secret_meta =
  sm_name :: string
  sm_kind :: string
  sm_version :: u64
  sm_fp :: string
  sm_public :: "string option"
  sm_created_at :: string
  sm_rotated_at :: "string option"

record revealed_secret =
  rs_bytes :: bytes
  rs_kind :: string
  rs_public :: "string option"

definition get_u64 :: "json \<Rightarrow> string \<Rightarrow> u64 option" where
  "get_u64 v k = Option.bind (json_get v k) as_u64"

text \<open>
  The metadata of the next version. The version is a \<open>u64\<close> and wraps; the clock is read again for the
  rotation time.
\<close>

definition next_meta :: "('j, 'p, 'w, 's) vcrypto \<Rightarrow> string \<Rightarrow> string \<Rightarrow> string \<Rightarrow> bytes \<Rightarrow> string \<Rightarrow> string option \<Rightarrow>
    bool \<Rightarrow> json option \<Rightarrow> secret_meta" where
  "next_meta C now1 now2 name body kind public rotated prev =
     \<lparr>sm_name = name, sm_kind = kind,
      sm_version = unwrap_or (Option.bind prev (\<lambda>p. get_u64 p ''version'')) 0 + 1,
      sm_fp = vc_fingerprint C body,
      sm_public = (case public of Some p \<Rightarrow> Some p | None \<Rightarrow> Option.bind prev (\<lambda>p. get_str p ''public'')),
      sm_created_at = unwrap_or (Option.bind prev (\<lambda>p. get_str p ''createdAt'')) now1,
      sm_rotated_at = (if rotated \<or> prev \<noteq> None then Some now2 else None)\<rparr>"

definition secret_fields :: "('j, 'p, 'w, 's) vcrypto \<Rightarrow> ('j, 'p) vault \<Rightarrow> secret_meta \<Rightarrow> 's \<Rightarrow> (string \<times> json) list" where
  "secret_fields C V meta sealed =
     [(''name'', JStr (sm_name meta)), (''type'', JStr (sm_kind meta)),
      (''version'', json_of_u64 (sm_version meta)), (''createdAt'', JStr (sm_created_at meta)),
      (''rotatedAt'', opt_str (sm_rotated_at meta)), (''sealed'', vc_seal_json C sealed),
      (''public'', opt_str (sm_public meta)), (''display'', JStr (sm_kind meta)),
      (''fp'', JStr (sm_fp meta)), (''writer'', JStr (dk_id (va_device V)))]"

definition store_secret :: "('j, 'p, 'w, 's) vcrypto \<Rightarrow> 'st store_ops \<Rightarrow> ('j, 'p) vault \<Rightarrow> vrandom \<Rightarrow> string \<Rightarrow> string \<Rightarrow>
    string \<Rightarrow> bytes \<Rightarrow> string \<Rightarrow> string option \<Rightarrow> bool \<Rightarrow> ('st, string, secret_meta) act" where
  "store_secret C S V R now1 now2 name body kind public rotated =
     act_then (load_master C S V) (\<lambda>master.
     act_then (act_lift (map_err (\<lambda>e. ''seal secret: '' @ e) (vc_seal C master body (vr_main R)))) (\<lambda>sealed.
     act_then (so_get S (secret_key name)) (\<lambda>prev.
     let meta = next_meta C now1 now2 name body kind public rotated prev in
     act_then (act_lift (signed C (va_device V) (vr_sign R) (secret_fields C V meta sealed))) (\<lambda>rec.
     act_then (so_put S (secret_key name) rec) (\<lambda>_.
     act_ret meta)))))"

definition put_secret :: "('j, 'p, 'w, 's) vcrypto \<Rightarrow> 'st store_ops \<Rightarrow> ('j, 'p) vault \<Rightarrow> vrandom \<Rightarrow> string \<Rightarrow> string \<Rightarrow>
    string \<Rightarrow> bytes \<Rightarrow> string \<Rightarrow> ('st, string, secret_meta) act" where
  "put_secret C S V R now1 now2 name body kind = store_secret C S V R now1 now2 name body kind None False"

definition get_secret :: "('j, 'p, 'w, 's) vcrypto \<Rightarrow> 'st store_ops \<Rightarrow> ('j, 'p) vault \<Rightarrow> string \<Rightarrow>
    ('st, string, revealed_secret) act" where
  "get_secret C S V name =
     act_then (so_get S (secret_key name)) (\<lambda>found.
     act_then (act_lift (ok_or found (''no secret named '' @ name))) (\<lambda>rec.
     act_then (load_master C S V) (\<lambda>master.
     act_then (act_lift (ok_or (json_get rec ''sealed'') ''secret record has no sealed body'')) (\<lambda>v.
     act_then (act_lift (map_err (\<lambda>e. ''parse sealed secret: '' @ e) (vc_seal_parse C v))) (\<lambda>sealed.
     act_then (act_lift (map_err (\<lambda>e. ''open secret: '' @ e) (vc_open C master sealed))) (\<lambda>body.
     act_ret \<lparr>rs_bytes = body, rs_kind = unwrap_or (get_str rec ''type'') ''opaque'',
       rs_public = get_str rec ''public''\<rparr>))))))"

definition vault_get :: "('j, 'p, 'w, 's) vcrypto \<Rightarrow> 'st store_ops \<Rightarrow> ('j, 'p) vault \<Rightarrow> string \<Rightarrow>
    ('st, string, bytes) act" where
  "vault_get C S V name = act_then (get_secret C S V name) (\<lambda>r. act_ret (rs_bytes r))"

definition vault_set :: "('j, 'p, 'w, 's) vcrypto \<Rightarrow> 'st store_ops \<Rightarrow> ('j, 'p) vault \<Rightarrow> vrandom \<Rightarrow> string \<Rightarrow> string \<Rightarrow>
    string \<Rightarrow> bytes \<Rightarrow> ('st, string, secret_meta) act" where
  "vault_set C S V R now1 now2 name body = put_secret C S V R now1 now2 name body ''opaque''"

definition meta_of_record :: "json \<Rightarrow> secret_meta" where
  "meta_of_record v =
     \<lparr>sm_name = unwrap_or (get_str v ''name'') [], sm_kind = unwrap_or (get_str v ''type'') [],
      sm_version = unwrap_or (get_u64 v ''version'') 1, sm_fp = unwrap_or (get_str v ''fp'') [],
      sm_public = get_str v ''public'', sm_created_at = unwrap_or (get_str v ''createdAt'') [],
      sm_rotated_at = get_str v ''rotatedAt''\<rparr>"

definition list_secrets :: "'st store_ops \<Rightarrow> ('st, string, secret_meta list) act" where
  "list_secrets S =
     act_then (so_list S ''s.'') (\<lambda>es. act_ret (sort_key sm_name (map (\<lambda>e. meta_of_record (snd e)) es)))"

definition secret_fingerprint :: "'st store_ops \<Rightarrow> string \<Rightarrow> ('st, string, string option) act" where
  "secret_fingerprint S name =
     act_then (so_get S (secret_key name)) (\<lambda>found. act_ret (Option.bind found (\<lambda>v. get_str v ''fp'')))"

definition delete_secret :: "'st store_ops \<Rightarrow> string \<Rightarrow> ('st, string, unit) act" where
  "delete_secret S name = so_del S (secret_key name)"

section \<open>What is stored is what was put\<close>

lemma get_str_opt_str: "get_str (json_obj kvs) k = Option.bind (map_of (rev kvs) k) as_str"
  by (simp add: get_str_def json_get_obj)

lemma as_str_opt_str [simp]: "as_str (opt_str x) = x"
  by (cases x) (simp_all add: opt_str_def)

text \<open>The record holds the metadata that the operation returned, and the sealed body.\<close>

lemma secret_record_sel:
  assumes "signed C dk r (secret_fields C V meta sealed) = Inr rec"
  shows "meta_of_record rec = meta \<and> json_get rec ''sealed'' = Some (vc_seal_json C sealed) \<and>
    get_str rec ''type'' = Some (sm_kind meta) \<and> get_str rec ''public'' = sm_public meta \<and>
    get_u64 rec ''version'' = Some (sm_version meta) \<and> rec \<noteq> JNull"
proof -
  obtain sig where r: "rec = json_obj (secret_fields C V meta sealed @ [(''sig'', JStr sig)])"
    using assms by (rule signed_Inr)
  have "get_str rec ''name'' = Some (sm_name meta)" "get_str rec ''type'' = Some (sm_kind meta)"
    "get_u64 rec ''version'' = Some (sm_version meta)" "get_str rec ''fp'' = Some (sm_fp meta)"
    "get_str rec ''public'' = sm_public meta" "get_str rec ''createdAt'' = Some (sm_created_at meta)"
    "get_str rec ''rotatedAt'' = sm_rotated_at meta" "json_get rec ''sealed'' = Some (vc_seal_json C sealed)"
    unfolding r by (simp_all add: get_str_def get_u64_def json_get_obj secret_fields_def)
  then show ?thesis by (simp add: meta_of_record_def unwrap_or_def r)
qed

context kv_store
begin

lemma store_secret_Inr:
  assumes "ok s" "store_secret C S V R n1 n2 name body kind public rotated s = (Inr meta, s')"
  obtains master sealed rec where "held_master C (va_device V) (view s) = Inr master"
    "vc_seal C master body (vr_main R) = Inr sealed"
    "meta = next_meta C n1 n2 name body kind public rotated (view s (secret_key name))"
    "signed C (va_device V) (vr_sign R) (secret_fields C V meta sealed) = Inr rec"
    "ok s'" "view s' = (view s)(secret_key name \<mapsto> rec)"
proof -
  obtain master s1 sealed prev s2 rec where r: "load_master C S V s = (Inr master, s1)"
    "vc_seal C master body (vr_main R) = Inr sealed" "so_get S (secret_key name) s1 = (Inr prev, s2)"
    "meta = next_meta C n1 n2 name body kind public rotated prev"
    "signed C (va_device V) (vr_sign R) (secret_fields C V meta sealed) = Inr rec"
    "so_put S (secret_key name) rec s2 = (Inr (), s')"
    using assms(2) by (auto simp: store_secret_def act_then_Inr Let_def)
  have m: "ok s1" "view s1 = view s" "held_master C (va_device V) (view s) = Inr master"
    using load_master_Inr [OF assms(1) r(1)] by simp_all
  have g: "ok s2" "view s2 = view s" "prev = view s (secret_key name)"
    using get_Inr [OF m(1) r(3)] m(2) by simp_all
  have "ok s'" "view s' = (view s)(secret_key name \<mapsto> rec)"
    using put_Inr [OF g(1) _ r(6)] secret_record_sel [OF r(5)] g(2) by simp_all
  with m(3) r(2,4,5) g(3) show ?thesis by (auto intro: that)
qed

lemma get_secret_Inr:
  assumes "ok s" "get_secret C S V name s = (Inr rs, s')"
  obtains rec master v sealed where "view s (secret_key name) = Some rec"
    "held_master C (va_device V) (view s) = Inr master" "json_get rec ''sealed'' = Some v"
    "vc_seal_parse C v = Inr sealed" "vc_open C master sealed = Inr (rs_bytes rs)"
    "rs_kind rs = unwrap_or (get_str rec ''type'') ''opaque''" "rs_public rs = get_str rec ''public''"
    "ok s'" "view s' = view s"
proof -
  obtain found s1 rec master v sealed where r: "so_get S (secret_key name) s = (Inr found, s1)"
    "found = Some rec" "load_master C S V s1 = (Inr master, s')" "json_get rec ''sealed'' = Some v"
    "vc_seal_parse C v = Inr sealed" "vc_open C master sealed = Inr (rs_bytes rs)"
    "rs_kind rs = unwrap_or (get_str rec ''type'') ''opaque''" "rs_public rs = get_str rec ''public''"
    using assms(2) by (auto simp: get_secret_def act_then_Inr)
  have g: "ok s1" "view s1 = view s" "view s (secret_key name) = Some rec"
    using get_Inr [OF assms(1) r(1)] r(2) by simp_all
  have m: "ok s'" "view s' = view s" "held_master C (va_device V) (view s) = Inr master"
    using load_master_Inr [OF g(1) r(3)] g(2) by simp_all
  from g(3) m(3) r(4-8) m(1,2) show ?thesis by (rule that)
qed

text \<open>The round trip, for a reader that holds the writer's master.\<close>

lemma secret_round_trip:
  assumes "ok s" "enrol_laws C gen"
    and "store_secret C S V R n1 n2 name body kind public rotated s = (Inr meta, s1)"
    and "held_master C (va_device W) (view s1) = held_master C (va_device V) (view s)"
    and "get_secret C S W name s1 = (Inr rs, s2)"
  shows "rs_bytes rs = body \<and> rs_kind rs = kind \<and> rs_public rs = sm_public meta"
proof -
  obtain master sealed rec where w: "held_master C (va_device V) (view s) = Inr master"
    "vc_seal C master body (vr_main R) = Inr sealed"
    "meta = next_meta C n1 n2 name body kind public rotated (view s (secret_key name))"
    "signed C (va_device V) (vr_sign R) (secret_fields C V meta sealed) = Inr rec"
    "ok s1" "view s1 = (view s)(secret_key name \<mapsto> rec)"
    using assms(1,3) by (rule store_secret_Inr)
  obtain rec' master' v sealed' where g: "view s1 (secret_key name) = Some rec'"
    "held_master C (va_device W) (view s1) = Inr master'" "json_get rec' ''sealed'' = Some v"
    "vc_seal_parse C v = Inr sealed'" "vc_open C master' sealed' = Inr (rs_bytes rs)"
    "rs_kind rs = unwrap_or (get_str rec' ''type'') ''opaque''" "rs_public rs = get_str rec' ''public''"
    using w(5) assms(5) by (rule get_secret_Inr)
  note rec = secret_record_sel [OF w(4)]
  have same: "rec' = rec" "master' = master" "v = vc_seal_json C sealed"
    using g(1-3) w(1,6) assms(4) rec by simp_all
  then have "sealed' = sealed"
    using g(4) assms(2) by (simp add: enrol_laws_def codec_law_def)
  moreover have "vc_open C master sealed = Inr body"
    using w(2) assms(2) unfolding enrol_laws_def seal_law_def by blast
  ultimately have "rs_bytes rs = body" using g(5) same by simp
  moreover have "sm_kind meta = kind" by (simp add: w(3) next_meta_def)
  ultimately show ?thesis using g(6,7) same rec by (simp add: unwrap_or_def)
qed

end

section \<open>Secrets over the mesh\<close>

text \<open>
  Property C25. A secret put through the vault over the lossy mesh is read back exactly, by the device
  that wrote it and by every device that holds the same master: when both operations report success,
  the reader gets the bytes and the kind, and the version is one more than that of the record before.
\<close>

theorem vault_secret_round_trip:
  assumes "enrol_laws C gen" "mesh_ok E me c st"
    and "put_secret C (mesh_store (ke_wire E) (kv_node E me fate disc) c) V R n1 n2 name body kind st = (Inr meta, st1)"
    and "held_master C (va_device W) (mesh_view st) = held_master C (va_device V) (mesh_view st)"
    and "get_secret C (mesh_store (ke_wire E) (kv_node E me fate disc) c) W name st1 = (Inr rs, st2)"
  shows "rs_bytes rs = body \<and> rs_kind rs = kind \<and> sm_fp meta = vc_fingerprint C body \<and>
    sm_version meta = unwrap_or (Option.bind (mesh_view st (secret_key name)) (\<lambda>p. get_u64 p ''version'')) 0 + 1"
proof -
  note put = assms(3) [unfolded put_secret_def]
  obtain rec where v: "mesh_view st1 = (mesh_view st)(secret_key name \<mapsto> rec)"
    "meta = next_meta C n1 n2 name body kind None False (mesh_view st (secret_key name))"
    using mesh.store_secret_Inr [OF assms(2) put] by metis
  have "held_master C (va_device W) (mesh_view st1) = held_master C (va_device V) (mesh_view st)"
    using assms(4) v(1) by (simp add: held_master_def)
  from mesh.secret_round_trip [OF assms(2,1) put this assms(5)] v(2) show ?thesis
    by (simp add: next_meta_def)
qed

section \<open>Who can read\<close>

text \<open>
  Property C27. Pairing works and gives the whole vault: after an enrolled device approves the code of a
  device's request, that device loads the approver's master, and every stored secret is as it was.
\<close>

theorem pairing_shares_master:
  assumes "enrol_laws C gen" "gen (va_device phone)" "map_ok m"
    and "request_pairing C mem_store phone rnd now label m = (Inr code, m1)"
    and "approve_pairing C mem_store owner R now' code m1 = (Inr dev, m2)"
  shows "dev = dk_id (va_device phone) \<and>
    (\<exists>master. fst (load_master C mem_store owner m1) = Inr master \<and>
       fst (load_master C mem_store phone m2) = Inr master) \<and>
    (\<forall>name. bt_get m2 (secret_key name) = bt_get m (secret_key name))"
proof -
  have p: "map_ok m1" "bt_get m1 = (bt_get m)(pair_key code \<mapsto> pairing_record C (va_device phone) code now label)"
    using mem.request_pairing_Inr [OF assms(3,4)] by simp_all
  obtain req pubv master rec where a: "bt_get m1 (pair_key code) = Some req" "json_get req ''pub'' = Some pubv"
    "get_str pubv ''id'' = Some dev" "held_master C (va_device owner) (bt_get m1) = Inr master"
    "enrolment_record C owner R now' pubv master (unwrap_or (get_str req ''label'') ''new device'') dev = Inr rec"
    "map_ok m2" "bt_get m2 = (bt_get m1)(device_key dev \<mapsto> rec, pair_key code := None)"
    using p(1) assms(5) by (rule mem.approve_pairing_Inr)
  have "req = pairing_record C (va_device phone) code now label" using a(1) p(2) by simp
  then have "pubv = public_value C (va_device phone)"
    using a(2) by (simp add: pairing_record_def json_get_obj)
  with a(3,5) have dev: "dev = dk_id (va_device phone)"
    and rec: "unwrap_record C (va_device phone) rec = Inr master"
    using enrolled_unwraps(1) [OF assms(1,2)] by auto
  have "held_master C (va_device phone) (bt_get m2) = Inr master"
    using a(7) dev rec by (simp add: held_master_def and_then_def ok_or_def)
  then have "fst (load_master C mem_store phone m2) = Inr master"
    using mem.load_master_run [OF a(6), of C phone] by force
  moreover have "fst (load_master C mem_store owner m1) = Inr master"
    using mem.load_master_run [OF p(1), of C owner] a(4) by force
  moreover have "bt_get m2 (secret_key name) = bt_get m (secret_key name)" for name
    using a(7) p(2) by simp
  ultimately show ?thesis using dev by blast
qed

text \<open>
  The pairing approval trusts the device id that the request claims: whoever publishes a
  request with the id of an enrolled device replaces that device's record on approval. The attacker
  then loads the master under that id, and the record holds the attacker's signing key.
\<close>

lemma pairing_takes_over_device:
  assumes "enrol_laws C gen" "gen attacker" "map_ok m"
    and "bt_get m (pair_key code) = Some (json_obj [(''code'', JStr code), (''label'', JStr label),
      (''ts'', JStr now), (''pub'', public_value C attacker)])"
    and "dk_id attacker = dk_id victim" "victim \<noteq> attacker"
    and "approve_pairing C mem_store owner R now' code m = (Inr dev, m')"
  shows "dev = dk_id victim \<and> is_ok (fst (load_master C mem_store \<lparr>va_device = attacker, va_ns = ns\<rparr> m')) \<and>
    Option.bind (bt_get m' (device_key (dk_id victim))) (\<lambda>rec. json_get rec ''ecdsaPub'') =
      Some (vc_jwk_json C (dk_ecdsa_pub attacker))"
proof -
  obtain req pubv master rec where a: "bt_get m (pair_key code) = Some req" "json_get req ''pub'' = Some pubv"
    "get_str pubv ''id'' = Some dev" "held_master C (va_device owner) (bt_get m) = Inr master"
    "enrolment_record C owner R now' pubv master (unwrap_or (get_str req ''label'') ''new device'') dev = Inr rec"
    "map_ok m'" "bt_get m' = (bt_get m)(device_key dev \<mapsto> rec, pair_key code := None)"
    using assms(3,7) by (rule mem.approve_pairing_Inr)
  have "pubv = public_value C attacker"
    using a(1,2) assms(4) by (auto simp: json_get_obj)
  with a(3,5) have dev: "dev = dk_id attacker"
    and rec: "unwrap_record C attacker rec = Inr master" "json_get rec ''ecdsaPub'' = Some (vc_jwk_json C (dk_ecdsa_pub attacker))"
    using enrolled_unwraps [OF assms(1,2)] by auto
  have "held_master C attacker (bt_get m') = Inr master"
    using a(7) dev rec(1) by (simp add: held_master_def and_then_def ok_or_def)
  then have "is_ok (fst (load_master C mem_store \<lparr>va_device = attacker, va_ns = ns\<rparr> m'))"
    using mem.load_master_run [OF a(6), of C "\<lparr>va_device = attacker, va_ns = ns\<rparr>"] by force
  with dev rec(2) a(7) assms(5) show ?thesis by simp
qed

text \<open>
  Property C28. An enrolment token hands over the issuer's master once: the device that redeems it in
  time loads that master, and every later redemption, by any device at any time, is refused and
  changes nothing.
\<close>

theorem enrol_token_works_once:
  assumes "enrol_laws C gen" "gen (va_device vm)" "map_ok m" "\<forall>b. CHR ''.'' \<notin> set (vc_fingerprint C b)"
    and "issue_enrol_token C mem_store owner R secret n1 n2 label ttl m = (Inr token, m1)"
    and "redeem_enrol_token C mem_store vm R' t now token label' m1 = (Some (Inr u), m2)"
  shows "(\<exists>master. fst (load_master C mem_store owner m) = Inr master \<and>
      fst (load_master C mem_store vm m2) = Inr master) \<and>
    (\<forall>V R'' t' now' l. \<exists>e m3. redeem_enrol_token C mem_store V R'' t' now' token l m2 = (Some (Inl e), m3) \<and>
      bt_get m3 = bt_get m2)"
proof -
  obtain master sealed where i: "held_master C (va_device owner) (bt_get m) = Inr master"
    "vc_seal C secret master (vr_main R) = Inr sealed"
    "token = vc_fingerprint C secret @ ''.'' @ b64_encode secret" "map_ok m1"
    "bt_get m1 = (bt_get m)(enrol_key (vc_fingerprint C secret) \<mapsto> token_record C secret sealed n1 n2 label ttl)"
    using assms(3,5) by (rule mem.issue_token_Inr)
  let ?slot = "vc_fingerprint C secret"
  have tok: "split_once CHR ''.'' token = Some (?slot, b64_encode secret)"
    using split_once_append [of "CHR ''.''" ?slot "b64_encode secret"] assms(4) i(3) by simp
  have redeem: "redeem_enrol_token C mem_store V R t now token l mx =
      (case redeem_slot C mem_store V R t now ?slot secret l mx of (r, m') \<Rightarrow> (Some r, m'))" for V R t now l mx
    by (simp add: redeem_enrol_token_def tok b64_decode_encode)
  have first: "redeem_slot C mem_store vm R' t now ?slot secret label' m1 = (Inr u, m2)"
    using assms(6) by (simp add: redeem split: prod.splits)
  obtain rec v sealed' master' where r0: "bt_get m1 (enrol_key ?slot) = Some rec"
    "\<not> unwrap_or (Option.bind (json_get rec ''expires'') as_i64) 0 < sint t"
    "json_get rec ''sealed'' = Some v" "vc_seal_parse C v = Inr sealed'" "vc_open C secret sealed' = Inr master'"
    "map_ok m2" "bt_get m2 (enrol_key ?slot) = None" "held_master C (va_device vm) (bt_get m2) = Inr master'"
    by (rule mem.redeem_slot_Inr [OF i(4) assms(1,2) first])
  note r = r0(1) r0(3-8)
  have "rec = token_record C secret sealed n1 n2 label ttl" using r(1) i(5) by simp
  then have "v = vc_seal_json C sealed" using r(2) by (simp add: token_record_def json_get_obj)
  then have "sealed' = sealed" using r(3) assms(1) by (simp add: enrol_laws_def codec_law_def)
  then have "master' = master"
    using r(4) i(2) assms(1) unfolding enrol_laws_def seal_law_def by (metis sum.inject(2))
  then have "fst (load_master C mem_store owner m) = Inr master" "fst (load_master C mem_store vm m2) = Inr master"
    using mem.load_master_run [OF assms(3), of C owner] mem.load_master_run [OF r(5), of C vm] i(1) r(7) by force+
  moreover have "\<exists>e m3. redeem_enrol_token C mem_store V R'' t' now' token l m2 = (Some (Inl e), m3) \<and>
      bt_get m3 = bt_get m2" for V R'' t' now' l
    using mem.redeem_burnt [OF r(5,6), of C V R'' t' now' secret l] by (auto simp: redeem)
  ultimately show ?thesis by blast
qed

text \<open>
  The owner cannot be locked out: recovery on any store, wiped or not, establishes the
  same master from the owner's key alone, so secrets sealed before the loss are readable again, and it
  touches nothing but the owner's own record and the vault's \<open>meta\<close> record.
\<close>

lemma recovery_restores_master:
  assumes "enrol_laws C gen" "gen (va_device owner)" "map_ok m" "map_ok w"
    and "recover C mem_store owner R n1 n2 label m = (Inr u, m')"
    and "recover C mem_store owner R' n1' n2' label' w = (Inr u', w')"
  shows "(\<exists>master. fst (load_master C mem_store owner m') = Inr master \<and>
      fst (load_master C mem_store owner w') = Inr master) \<and>
    (\<forall>k. k \<noteq> ''meta'' \<longrightarrow> k \<noteq> device_key (dk_id (va_device owner)) \<longrightarrow> bt_get w' k = bt_get w k)"
proof -
  obtain master where a: "vc_owner_master C (dk_ecdh_priv (va_device owner)) (va_ns owner) = Inr master"
    "map_ok m'" "held_master C (va_device owner) (bt_get m') = Inr master"
    using mem.recover_Inr [OF assms(3,1,2,5)] by metis
  obtain master' where b: "vc_owner_master C (dk_ecdh_priv (va_device owner)) (va_ns owner) = Inr master'"
    "map_ok w'" "held_master C (va_device owner) (bt_get w') = Inr master'"
    "\<And>k. k \<noteq> ''meta'' \<Longrightarrow> k \<noteq> device_key (dk_id (va_device owner)) \<Longrightarrow> bt_get w' k = bt_get w k"
    using mem.recover_Inr [OF assms(4,1,2,6)] by metis
  have "fst (load_master C mem_store owner m') = Inr master" "fst (load_master C mem_store owner w') = Inr master"
    using mem.load_master_run [OF a(2), of C owner] mem.load_master_run [OF b(2), of C owner] a b by force+
  with b(4) show ?thesis by blast
qed

text \<open>
  Property C35. A revoked device loses the master: it is refused until it is enrolled again, no other
  device is affected, and a device cannot revoke itself.
\<close>

theorem revoked_device_loses_access:
  assumes "map_ok m" "revoke_device mem_store V dev m = (r, m')"
  shows "if dev = dk_id (va_device V) then \<not> is_ok r \<and> m' = m
    else is_ok r \<and>
      (\<forall>W. dk_id (va_device W) = dev \<longrightarrow> \<not> is_ok (fst (load_master C mem_store W m'))) \<and>
      (\<forall>W. dk_id (va_device W) \<noteq> dev \<longrightarrow>
         fst (load_master C mem_store W m') = fst (load_master C mem_store W m))"
proof (cases "dev = dk_id (va_device V)")
  case True
  then show ?thesis using assms(2) by (auto simp: revoke_device_def)
next
  case False
  then have d: "so_del mem_store (device_key dev) m = (r, m')"
    using assms(2) by (simp add: revoke_device_def)
  then have r: "r = Inr ()" by (simp add: mem_store_def mem_del_def)
  have v: "map_ok m'" "bt_get m' = (bt_get m)(device_key dev := None)"
    using mem.del_Inr [OF assms(1) d [unfolded r]] by simp_all
  have load: "fst (load_master C mem_store W mx) = held_master C (va_device W) (bt_get mx)" if "map_ok mx" for W mx
    using mem.load_master_run [OF that, of C W] by force
  have gone: "\<not> is_ok (fst (load_master C mem_store W m'))" if "dk_id (va_device W) = dev" for W
    using that v by (simp add: load held_master_def and_then_def ok_or_def)
  have kept: "fst (load_master C mem_store W m') = fst (load_master C mem_store W m)"
    if "dk_id (va_device W) \<noteq> dev" for W
    using that v assms(1) by (simp add: load held_master_def)
  show ?thesis using False r gone kept by simp
qed

section \<open>A vault in use\<close>

definition demo_vault_mesh :: "authkv mesh_state" where
  "demo_vault_mesh = demo_mesh_state\<lparr>ms_net := demo_kv\<lparr>ak_map := demo_opened\<rparr>\<rparr>"

abbreviation demo_vault_store :: "authkv mesh_state store_ops" where
  "demo_vault_store \<equiv> mesh_store (ke_wire demo_mesh_env)
     (kv_node demo_mesh_env demo_peer (\<lambda>_. Delivered) (\<lambda>_. None)) demo_client"

lemma demo_vault_mesh_ok: "mesh_ok demo_mesh_env demo_peer demo_client demo_vault_mesh"
proof -
  have "admitted demo_mesh_env demo_peer (unwrap_or (mc_caps demo_client) []) (ms_net demo_vault_mesh)"
    by code_simp
  moreover have "ak_map (ms_net demo_vault_mesh) = demo_opened" by (simp add: demo_vault_mesh_def)
  ultimately show ?thesis
    using demo_mesh_ok demo_opened_ok by (simp add: mesh_ok_def)
qed

definition demo_put :: "(string + secret_meta) \<times> authkv mesh_state" where
  "demo_put = put_secret demo_C demo_vault_store demo_owner demo_rnd ''t3'' ''t4'' ''db'' [1, 2] ''password'' demo_vault_mesh"

definition demo_got :: "(string + revealed_secret) \<times> authkv mesh_state" where
  "demo_got = get_secret demo_C demo_vault_store demo_owner ''db'' (snd demo_put)"

theorem vault_secret_round_trip_witness:
  "\<exists>meta rs. fst demo_put = Inr meta \<and> fst demo_got = Inr rs \<and> rs_bytes rs = [1, 2] \<and> rs_kind rs = ''password''"
proof -
  have "is_ok (fst demo_put)" "is_ok (fst demo_got)" by code_simp+
  then obtain meta st1 rs st2 where p: "demo_put = (Inr meta, st1)" and g: "demo_got = (Inr rs, st2)"
    by (metis is_ok_Inl prod.collapse sum.exhaust)
  have "st1 = snd demo_put" using p by (metis snd_conv)
  then have "rs_bytes rs = [1, 2] \<and> rs_kind rs = ''password''"
    using vault_secret_round_trip [OF demo_enrol_laws demo_vault_mesh_ok p [unfolded demo_put_def] refl, of rs st2] g
    by (simp add: demo_got_def)
  with p g show ?thesis by (metis fst_conv)
qed

definition demo_code :: string where
  "demo_code = pairing_code [0, 1, 2, 3, 4, 5, 6, 7]"

definition demo_requested :: "(string + string) \<times> kv_map" where
  "demo_requested = request_pairing demo_C mem_store demo_phone [0, 1, 2, 3, 4, 5, 6, 7] ''t5'' [] demo_opened"

definition demo_paired :: "(string + string) \<times> kv_map" where
  "demo_paired = approve_pairing demo_C mem_store demo_owner demo_rnd ''t6'' demo_code (snd demo_requested)"

lemma demo_paired_eqs:
  "request_pairing demo_C mem_store demo_phone [0, 1, 2, 3, 4, 5, 6, 7] ''t5'' [] demo_opened =
     (Inr demo_code, snd demo_requested)"
  "approve_pairing demo_C mem_store demo_owner demo_rnd ''t6'' demo_code (snd demo_requested) =
     (Inr ''ph'', snd demo_paired)"
proof -
  have "fst demo_requested = Inr demo_code" "fst demo_paired = Inr ''ph''" by code_simp+
  then show "request_pairing demo_C mem_store demo_phone [0, 1, 2, 3, 4, 5, 6, 7] ''t5'' [] demo_opened =
     (Inr demo_code, snd demo_requested)"
    "approve_pairing demo_C mem_store demo_owner demo_rnd ''t6'' demo_code (snd demo_requested) =
     (Inr ''ph'', snd demo_paired)"
    by (metis demo_requested_def prod.collapse) (metis \<open>fst demo_paired = Inr ''ph''\<close> demo_paired_def prod.collapse)
qed

theorem pairing_shares_master_witness:
  "\<exists>master. fst (load_master demo_C mem_store demo_phone (snd demo_paired)) = Inr master"
  using pairing_shares_master [OF demo_enrol_laws _ demo_opened_ok demo_paired_eqs]
  by (auto simp: demo_phone_def)

text \<open>An attacker's request with the owner's id.\<close>

definition demo_attacker :: "(nat, nat) key_pair" where
  "demo_attacker = demo_device_key ''o'' 9"

definition demo_forged :: kv_map where
  "demo_forged = bt_insert (pair_key ''c'') (json_obj [(''code'', JStr ''c''), (''label'', JStr ''l''),
     (''ts'', JStr ''t''), (''pub'', public_value demo_C demo_attacker)]) demo_opened"

definition demo_taken :: "(string + string) \<times> kv_map" where
  "demo_taken = approve_pairing demo_C mem_store demo_owner demo_rnd ''t6'' ''c'' demo_forged"

lemma pairing_takes_over_device_witness:
  "Option.bind (bt_get (snd demo_taken) (device_key ''o'')) (\<lambda>rec. json_get rec ''ecdsaPub'') = Some (JInt 10)"
proof -
  have ok: "map_ok demo_forged"
    by (simp add: demo_forged_def map_ok_insert demo_opened_ok)
  have req: "bt_get demo_forged (pair_key ''c'') = Some (json_obj [(''code'', JStr ''c''), (''label'', JStr ''l''),
      (''ts'', JStr ''t''), (''pub'', public_value demo_C demo_attacker)])"
    by (simp add: demo_forged_def btree_simps)
  have ids: "dk_id demo_attacker = dk_id (va_device demo_owner)" "va_device demo_owner \<noteq> demo_attacker"
    by (simp_all add: demo_attacker_def demo_owner_def demo_vault_def demo_device_key_def)
  have "fst demo_taken = Inr ''o''" by code_simp
  then have app: "approve_pairing demo_C mem_store demo_owner demo_rnd ''t6'' ''c'' demo_forged = (Inr ''o'', snd demo_taken)"
    by (metis demo_taken_def prod.collapse)
  have gen: "demo_gen demo_attacker" by (simp add: demo_attacker_def)
  from pairing_takes_over_device [OF demo_enrol_laws gen ok req ids app]
  show ?thesis by (simp add: demo_attacker_def demo_owner_def demo_vault_def demo_device_key_def demo_crypto_def)
qed

definition demo_issued :: "(string + string) \<times> kv_map" where
  "demo_issued = issue_enrol_token demo_C mem_store demo_owner demo_rnd [1, 255] 100 100 [] 60 demo_opened"

definition demo_token :: string where
  "demo_token = ''01ff.01ff''"

definition demo_redeemed :: "(string + unit) option \<times> kv_map" where
  "demo_redeemed = redeem_enrol_token demo_C mem_store demo_phone demo_rnd 130 ''t7'' demo_token [] (snd demo_issued)"

theorem enrol_token_works_once_witness:
  "fst demo_redeemed = Some (Inr ()) \<and>
   (\<exists>e. fst (redeem_enrol_token demo_C mem_store demo_owner demo_rnd 131 ''t8'' demo_token [] (snd demo_redeemed)) =
      Some (Inl e))"
proof -
  have i: "fst demo_issued = Inr demo_token" and r: "fst demo_redeemed = Some (Inr ())" by code_simp+
  have issue: "issue_enrol_token demo_C mem_store demo_owner demo_rnd [1, 255] 100 100 [] 60 demo_opened =
      (Inr demo_token, snd demo_issued)"
    using i by (metis demo_issued_def prod.collapse)
  have redeem: "redeem_enrol_token demo_C mem_store demo_phone demo_rnd 130 ''t7'' demo_token [] (snd demo_issued) =
      (Some (Inr ()), snd demo_redeemed)"
    using r by (metis demo_redeemed_def prod.collapse)
  have gen: "demo_gen (va_device demo_phone)" by (simp add: demo_phone_def)
  from enrol_token_works_once [OF demo_enrol_laws gen demo_opened_ok demo_fingerprint_no_dot issue redeem] r
  show ?thesis by (metis fst_conv)
qed

definition demo_recovered :: "kv_map \<Rightarrow> (string + unit) \<times> kv_map" where
  "demo_recovered m = recover demo_C mem_store demo_owner demo_rnd ''t1'' ''t2'' [] m"

lemma recovery_restores_master_witness:
  "\<exists>master. fst (load_master demo_C mem_store demo_owner (snd (demo_recovered demo_opened))) = Inr master \<and>
     fst (load_master demo_C mem_store demo_owner (snd (demo_recovered []))) = Inr master"
proof -
  have "fst (demo_recovered demo_opened) = Inr ()" "fst (demo_recovered []) = Inr ()" by code_simp+
  then have r: "recover demo_C mem_store demo_owner demo_rnd ''t1'' ''t2'' [] demo_opened =
      (Inr (), snd (demo_recovered demo_opened))"
    "recover demo_C mem_store demo_owner demo_rnd ''t1'' ''t2'' [] [] = (Inr (), snd (demo_recovered []))"
    by (metis demo_recovered_def prod.collapse)+
  have "map_ok []" by (simp add: map_ok_def bt_get_def)
  moreover have "demo_gen (va_device demo_owner)" by (simp add: demo_owner_def)
  ultimately show ?thesis
    using recovery_restores_master [OF demo_enrol_laws _ demo_opened_ok _ r] by blast
qed

definition demo_dropped :: "(string + unit) \<times> kv_map" where
  "demo_dropped = revoke_device mem_store demo_phone ''o'' demo_opened"

theorem revoked_device_loses_access_witness:
  "\<not> is_ok (fst (load_master demo_C mem_store demo_owner (snd demo_dropped)))"
proof -
  have "revoke_device mem_store demo_phone ''o'' demo_opened = (fst demo_dropped, snd demo_dropped)"
    by (simp add: demo_dropped_def)
  from revoked_device_loses_access [OF demo_opened_ok this, where C = demo_C]
  show ?thesis by (auto simp: demo_phone_def demo_owner_def demo_vault_def demo_device_key_def split: if_splits)
qed

end
