(* ===== verification/VaultGrants.thy ===== *)
theory VaultGrants
  imports VaultSecrets
begin

text \<open>
  The vault's own grants and its login: signed read grants that an enrolled device issues and any
  service verifies against the store, and challenge-response proofs that the signer is an enrolled
  device. Both checks are given as exact conditions on the token, the store and the clock.
\<close>

section \<open>Grants\<close>

record issued_grant =
  ig_id :: string
  ig_token :: string
  ig_record :: json

definition grant_body :: "('j, 'p) vault \<Rightarrow> string \<Rightarrow> string \<Rightarrow> string list \<Rightarrow> string \<Rightarrow> string option \<Rightarrow> (string \<times> json) list" where
  "grant_body V gid audience names now expires =
     [(''id'', JStr gid), (''audience'', JStr audience),
      (''abilities'', JArr (map (\<lambda>n. JStr (''read:'' @ n)) names)),
      (''issuer'', JStr (dk_id (va_device V))), (''issued'', JStr now), (''expires'', opt_str expires)]"

text \<open>The grant id is the hex text of eight random bytes.\<close>

definition grant_id :: "hex_lib \<Rightarrow> bytes \<Rightarrow> string" where
  "grant_id H random8 = hx_encode H random8"

definition issue_grant :: "hex_lib \<Rightarrow> ('j, 'p, 'w, 's) vcrypto \<Rightarrow> 'st store_ops \<Rightarrow> ('j, 'p) vault \<Rightarrow> bytes \<Rightarrow> bytes \<Rightarrow>
    string \<Rightarrow> string \<Rightarrow> string list \<Rightarrow> string option \<Rightarrow> ('st, string, issued_grant) act" where
  "issue_grant H C S V random8 rnd now audience names expires =
     act_then (is_enrolled S V) (\<lambda>enrolled.
     act_then (act_lift (ensure enrolled ''only an enrolled device can issue grants'')) (\<lambda>_.
     let gid = grant_id H random8;
         body = grant_body V gid audience names now expires in
     act_then (act_lift (vc_sign C (va_device V) (json_obj body) rnd)) (\<lambda>sig.
     let rec = json_obj (body @ [(''issuerEcdsaPub'', vc_jwk_json C (dk_ecdsa_pub (va_device V))),
       (''sig'', JStr sig)]) in
     act_then (so_put S (grant_key gid) rec) (\<lambda>_.
     act_then (act_lift (vc_print C rec)) (\<lambda>text.
     act_ret \<lparr>ig_id = gid, ig_token = vc_b64url_encode C text, ig_record = rec\<rparr>)))))"

definition list_grants :: "'st store_ops \<Rightarrow> ('st, string, json list) act" where
  "list_grants S = act_then (so_list S ''g.'') (\<lambda>es. act_ret (map snd es))"

definition revoke_grant :: "'st store_ops \<Rightarrow> string \<Rightarrow> ('st, string, unit) act" where
  "revoke_grant S gid = so_del S (grant_key gid)"

text \<open>The signed body is the presented record without the signature and the issuer's key.\<close>

definition unsigned_body :: "(string, json) btree \<Rightarrow> json" where
  "unsigned_body m = JObj (bt_remove ''issuerEcdsaPub'' (bt_remove ''sig'' m))"

definition not_expired :: "('j, 'p, 'w, 's) vcrypto \<Rightarrow> json \<Rightarrow> int \<Rightarrow> bool" where
  "not_expired C rec now_ms =
     (case get_str rec ''expires'' of
        Some e \<Rightarrow> (case vc_parse_iso_ms C e of Some exp_ms \<Rightarrow> \<not> exp_ms < now_ms | None \<Rightarrow> True)
      | None \<Rightarrow> True)"

definition permits :: "json list \<Rightarrow> string \<Rightarrow> string \<Rightarrow> bool" where
  "permits abilities action name =
     list_ex (\<lambda>a. case as_str a of
       Some s \<Rightarrow> s = action @ '':'' @ name \<or> s = action @ '':*'' | None \<Rightarrow> False) abilities"

definition verify_grant :: "('j, 'p, 'w, 's) vcrypto \<Rightarrow> 'st store_ops \<Rightarrow> string \<Rightarrow> string \<Rightarrow> string \<Rightarrow> string \<Rightarrow> int \<Rightarrow>
    ('st, string, unit) act" where
  "verify_grant C S token audience action name now_ms =
     act_then (act_lift (map_err (\<lambda>e. ''bad grant token: '' @ e) (vc_b64url_decode C token))) (\<lambda>raw.
     act_then (act_lift (map_err (\<lambda>e. ''bad grant token: '' @ e) (vc_parse C raw))) (\<lambda>rec.
     act_then (act_lift (ok_or (as_object rec) ''malformed grant'')) (\<lambda>obj.
     act_then (act_lift (ok_or (get_str rec ''sig'') ''malformed grant'')) (\<lambda>sig.
     act_then (act_lift (ok_or (bt_get obj ''issuerEcdsaPub'') ''malformed grant'')) (\<lambda>issuer_pub.
     act_then (act_lift (map_err (\<lambda>e. ''parse issuer ecdsaPub: '' @ e) (vc_jwk_parse C issuer_pub))) (\<lambda>jwk.
     act_then (act_lift (vc_verify C jwk (unsigned_body obj) sig)) (\<lambda>valid.
     act_then (act_lift (ensure valid ''grant signature invalid'')) (\<lambda>_.
     act_then (act_lift (ok_or (get_str rec ''issuer'') ''malformed grant'')) (\<lambda>issuer.
     act_then (so_get S (device_key issuer)) (\<lambda>found.
     act_then (act_lift (ok_or found ''grant issuer is not an enrolled device'')) (\<lambda>dev.
     act_then (act_lift (ensure (json_get dev ''ecdsaPub'' = Some issuer_pub) ''grant issuer key mismatch'')) (\<lambda>_.
     act_then (act_lift (ok_or (get_str rec ''id'') ''malformed grant'')) (\<lambda>gid.
     act_then (so_get S (grant_key gid)) (\<lambda>stored.
     act_then (act_lift (ensure (stored \<noteq> None) ''grant revoked'')) (\<lambda>_.
     act_then (act_lift (ensure (not_expired C rec now_ms) ''grant expired'')) (\<lambda>_.
     act_then (act_lift (ensure (get_str rec ''audience'' = Some audience) ''grant audience mismatch'')) (\<lambda>_.
     act_then (act_lift (ok_or (Option.bind (json_get rec ''abilities'') as_array) ''malformed grant'')) (\<lambda>abilities.
     act_lift (ensure (permits abilities action name) (''grant does not permit '' @ action @ '':'' @ name))
     ))))))))))))))))))"

section \<open>Login\<close>

definition sign_challenge :: "('j, 'p, 'w, 's) vcrypto \<Rightarrow> ('j, 'p) vault \<Rightarrow> bytes \<Rightarrow> string \<Rightarrow> string \<Rightarrow> string \<Rightarrow> string + json" where
  "sign_challenge C V rnd aud nonce ts =
     and_then (vc_sign_challenge C (va_device V) aud nonce ts rnd) (\<lambda>sig.
     Inr (json_obj [(''deviceId'', JStr (dk_id (va_device V))),
       (''ecdsaPub'', vc_jwk_json C (dk_ecdsa_pub (va_device V))), (''aud'', JStr aud),
       (''nonce'', JStr nonce), (''ts'', JStr ts), (''sig'', JStr sig)]))"

definition verify_auth :: "('j, 'p, 'w, 's) vcrypto \<Rightarrow> 'st store_ops \<Rightarrow> string \<Rightarrow> string \<Rightarrow> json \<Rightarrow> ('st, string, string) act" where
  "verify_auth C S aud nonce proof_json =
     act_then (act_lift (ok_or (as_object proof_json) ''malformed-proof'')) (\<lambda>p.
     act_then (act_lift (ok_or (get_str proof_json ''sig'') ''malformed-proof'')) (\<lambda>sig.
     act_then (act_lift (ok_or (bt_get p ''ecdsaPub'') ''malformed-proof'')) (\<lambda>proof_pub.
     act_then (act_lift (ensure (get_str proof_json ''aud'' = Some aud) ''aud-mismatch'')) (\<lambda>_.
     act_then (act_lift (ensure (get_str proof_json ''nonce'' = Some nonce) ''nonce-mismatch'')) (\<lambda>_.
     act_then (act_lift (ok_or (get_str proof_json ''deviceId'') ''malformed-proof'')) (\<lambda>device_id.
     act_then (so_get S (device_key device_id)) (\<lambda>found.
     act_then (act_lift (ok_or found ''not-enrolled'')) (\<lambda>dev.
     act_then (act_lift (ensure (json_get dev ''ecdsaPub'' = Some proof_pub) ''device-key-mismatch'')) (\<lambda>_.
     act_then (act_lift (ok_or (get_str proof_json ''ts'') ''malformed-proof'')) (\<lambda>ts.
     act_then (act_lift (map_err (\<lambda>e. ''parse proof ecdsaPub: '' @ e) (vc_jwk_parse C proof_pub))) (\<lambda>jwk.
     act_then (act_lift (vc_verify_auth C jwk aud device_id nonce ts sig)) (\<lambda>valid.
     act_then (act_lift (ensure valid ''bad-signature'')) (\<lambda>_.
     act_ret device_id)))))))))))))"

section \<open>What the checks accept\<close>

text \<open>Whether a device is enrolled in a store with a given public signing key.\<close>

definition enrolled_with :: "kv_view \<Rightarrow> string \<Rightarrow> json \<Rightarrow> bool" where
  "enrolled_with view dev pk \<longleftrightarrow> Option.bind (view (device_key dev)) (\<lambda>r. json_get r ''ecdsaPub'') = Some pk"

definition grant_valid :: "('j, 'p, 'w, 's) vcrypto \<Rightarrow> kv_view \<Rightarrow> json \<Rightarrow> string \<Rightarrow> string \<Rightarrow> string \<Rightarrow> int \<Rightarrow> bool" where
  "grant_valid C view rec audience action name now_ms \<longleftrightarrow>
     (\<exists>obj sig pk jwk issuer gid abilities.
        rec = JObj obj \<and> get_str rec ''sig'' = Some sig \<and> json_get rec ''issuerEcdsaPub'' = Some pk \<and>
        vc_jwk_parse C pk = Inr jwk \<and> vc_verify C jwk (unsigned_body obj) sig = Inr True \<and>
        get_str rec ''issuer'' = Some issuer \<and> enrolled_with view issuer pk \<and>
        get_str rec ''id'' = Some gid \<and> view (grant_key gid) \<noteq> None \<and>
        not_expired C rec now_ms \<and> get_str rec ''audience'' = Some audience \<and>
        json_get rec ''abilities'' = Some (JArr abilities) \<and> permits abilities action name)"

definition proof_valid :: "('j, 'p, 'w, 's) vcrypto \<Rightarrow> kv_view \<Rightarrow> string \<Rightarrow> string \<Rightarrow> json \<Rightarrow> string \<Rightarrow> bool" where
  "proof_valid C view aud nonce v dev \<longleftrightarrow>
     (\<exists>sig pk ts jwk. get_str v ''sig'' = Some sig \<and> json_get v ''ecdsaPub'' = Some pk \<and>
        get_str v ''aud'' = Some aud \<and> get_str v ''nonce'' = Some nonce \<and> get_str v ''deviceId'' = Some dev \<and>
        enrolled_with view dev pk \<and> get_str v ''ts'' = Some ts \<and>
        vc_jwk_parse C pk = Inr jwk \<and> vc_verify_auth C jwk aud dev nonce ts sig = Inr True)"

lemma as_object_Some: "as_object v = Some m \<longleftrightarrow> v = JObj m"
  by (cases v) auto

lemma as_array_Some: "as_array v = Some m \<longleftrightarrow> v = JArr m"
  by (cases v) auto

lemma abilities_Some: "Option.bind (json_get r k) as_array = Some xs \<longleftrightarrow> json_get r k = Some (JArr xs)"
  by (cases "json_get r k") (auto simp: as_array_Some)

context kv_store
begin

lemma verify_grant_Inr:
  assumes "ok s" "verify_grant C S token aud action name now s = (Inr u, s')"
  obtains raw rec where "vc_b64url_decode C token = Inr raw" "vc_parse C raw = Inr rec"
    "grant_valid C (view s) rec aud action name now" "ok s'" "view s' = view s"
proof -
  obtain raw rec obj sig pk jwk issuer found s1 dev gid stored abilities where
    d: "vc_b64url_decode C token = Inr raw" "vc_parse C raw = Inr rec"
    and r: "as_object rec = Some obj" "get_str rec ''sig'' = Some sig" "bt_get obj ''issuerEcdsaPub'' = Some pk"
    "vc_jwk_parse C pk = Inr jwk" "vc_verify C jwk (unsigned_body obj) sig = Inr True"
    "get_str rec ''issuer'' = Some issuer" "get_str rec ''id'' = Some gid" "not_expired C rec now"
    "get_str rec ''audience'' = Some aud" "Option.bind (json_get rec ''abilities'') as_array = Some abilities"
    "permits abilities action name"
    and g: "so_get S (device_key issuer) s = (Inr found, s1)" "found = Some dev" "json_get dev ''ecdsaPub'' = Some pk"
    "so_get S (grant_key gid) s1 = (Inr stored, s')" "stored \<noteq> None"
    using assms(2) by (auto simp: verify_grant_def act_then_Inr)
  have g1: "ok s1" "view s1 = view s" "view s (device_key issuer) = Some dev"
    using get_Inr [OF assms(1) g(1)] g(2) by simp_all
  have g2: "ok s'" "view s' = view s" "view s (grant_key gid) \<noteq> None"
    using get_Inr [OF g1(1) g(4)] g1(2) g(5) by simp_all
  have "rec = JObj obj" using r(1) by (simp add: as_object_Some)
  moreover have "enrolled_with (view s) issuer pk"
    using g1(3) g(3) by (simp add: enrolled_with_def)
  ultimately have "grant_valid C (view s) rec aud action name now"
    unfolding grant_valid_def using r g2(3) abilities_Some [of rec "''abilities''"] by auto
  with d g2(1,2) show ?thesis by (auto intro: that)
qed

lemma verify_auth_Inr:
  assumes "ok s" "verify_auth C S aud nonce v s = (Inr dev, s')"
  shows "proof_valid C (view s) aud nonce v dev \<and> ok s' \<and> view s' = view s"
proof -
  obtain p sig pk found rec ts jwk where
    r: "as_object v = Some p" "get_str v ''sig'' = Some sig" "bt_get p ''ecdsaPub'' = Some pk"
    "get_str v ''aud'' = Some aud" "get_str v ''nonce'' = Some nonce" "get_str v ''deviceId'' = Some dev"
    "get_str v ''ts'' = Some ts" "vc_jwk_parse C pk = Inr jwk" "vc_verify_auth C jwk aud dev nonce ts sig = Inr True"
    and g: "so_get S (device_key dev) s = (Inr found, s')" "found = Some rec" "json_get rec ''ecdsaPub'' = Some pk"
    using assms(2) by (auto simp: verify_auth_def act_then_Inr)
  have "json_get v ''ecdsaPub'' = Some pk"
    using r(1,3) by (auto simp: as_object_Some)
  moreover have "view s (device_key dev) = Some rec" "ok s'" "view s' = view s"
    using get_Inr [OF assms(1) g(1)] g(2) by simp_all
  moreover from this(1) have "enrolled_with (view s) dev pk"
    using g(3) by (simp add: enrolled_with_def)
  ultimately show ?thesis unfolding proof_valid_def using r by blast
qed

end

context kv_total
begin

lemma verify_grant_run:
  assumes "ok s" "vc_b64url_decode C token = Inr raw" "vc_parse C raw = Inr rec"
    and "grant_valid C (view s) rec aud action name now"
  shows "\<exists>s'. verify_grant C S token aud action name now s = (Inr (), s')"
proof -
  obtain obj sig pk jwk issuer gid abilities where r: "rec = JObj obj" "get_str rec ''sig'' = Some sig"
    "json_get rec ''issuerEcdsaPub'' = Some pk" "vc_jwk_parse C pk = Inr jwk"
    "vc_verify C jwk (unsigned_body obj) sig = Inr True" "get_str rec ''issuer'' = Some issuer"
    "enrolled_with (view s) issuer pk" "get_str rec ''id'' = Some gid" "view s (grant_key gid) \<noteq> None"
    "not_expired C rec now" "get_str rec ''audience'' = Some aud"
    "json_get rec ''abilities'' = Some (JArr abilities)" "permits abilities action name"
    using assms(4) unfolding grant_valid_def by blast
  obtain dev where d: "view s (device_key issuer) = Some dev" "json_get dev ''ecdsaPub'' = Some pk"
    using r(7) by (auto simp: enrolled_with_def split: bind_splits)
  obtain s1 where g1: "so_get S (device_key issuer) s = (Inr (Some dev), s1)" "ok s1" "view s1 = view s"
    using get_run [OF assms(1), of "device_key issuer"] d(1) by auto
  obtain s2 where g2: "so_get S (grant_key gid) s1 = (Inr (view s (grant_key gid)), s2)"
    using get_run [OF g1(2), of "grant_key gid"] g1(3) by auto
  have o: "bt_get obj ''issuerEcdsaPub'' = Some pk" using r(1,3) by simp
  have a: "Option.bind (json_get rec ''abilities'') as_array = Some abilities"
    using r(12) by simp
  have ob: "as_object rec = Some obj" using r(1) by simp
  have "verify_grant C S token aud action name now s = (Inr (), s2)"
    by (simp add: verify_grant_def act_then_def assms(2,3) r(2,4,5,6,8-11,13) ob o a d(2) g1(1) g2
        map_err_def ensure_def ok_or_def)
  then show ?thesis by blast
qed

end

lemma verify_grant_decodes:
  "vc_b64url_decode C token = Inr raw \<Longrightarrow> vc_parse C raw = Inr rec \<Longrightarrow> map_ok m \<Longrightarrow>
   is_ok (fst (verify_grant C mem_store token aud action name now m)) \<longleftrightarrow>
     grant_valid C (bt_get m) rec aud action name now"
proof
  assume d: "vc_b64url_decode C token = Inr raw" "vc_parse C raw = Inr rec" "map_ok m"
    and "is_ok (fst (verify_grant C mem_store token aud action name now m))"
  then obtain u m' where "verify_grant C mem_store token aud action name now m = (Inr u, m')"
    by (metis is_ok_Inl prod.collapse sum.exhaust)
  from mem.verify_grant_Inr [OF d(3) this] d(1,2) show "grant_valid C (bt_get m) rec aud action name now"
    by (metis sum.inject(2))
next
  assume d: "vc_b64url_decode C token = Inr raw" "vc_parse C raw = Inr rec" "map_ok m"
    and "grant_valid C (bt_get m) rec aud action name now"
  from mem.verify_grant_run [OF d(3,1,2) this(4)] show "is_ok (fst (verify_grant C mem_store token aud action name now m))"
    by force
qed

text \<open>
  Property C29. The vault accepts a grant token exactly when it decodes to a record whose signature
  verifies over its body under the key it carries, whose issuer is enrolled with that key, which is
  still stored and not past a readable expiry, and which names the audience and the ability. The same
  condition is necessary on the mesh, whatever is lost there.
\<close>

theorem verify_grant_exact:
  assumes "map_ok m" "mesh_ok E me c st"
  shows "(is_ok (fst (verify_grant C mem_store token aud action name now m)) \<longleftrightarrow>
      (\<exists>raw rec. vc_b64url_decode C token = Inr raw \<and> vc_parse C raw = Inr rec \<and>
        grant_valid C (bt_get m) rec aud action name now)) \<and>
    (is_ok (fst (verify_grant C (mesh_store (ke_wire E) (kv_node E me fate disc) c) token aud action name now st)) \<longrightarrow>
      (\<exists>raw rec. vc_b64url_decode C token = Inr raw \<and> vc_parse C raw = Inr rec \<and>
        grant_valid C (mesh_view st) rec aud action name now))"
proof -
  have "\<exists>raw rec. vc_b64url_decode C token = Inr raw \<and> vc_parse C raw = Inr rec \<and>
      grant_valid C (bt_get m) rec aud action name now"
    if "is_ok (fst (verify_grant C mem_store token aud action name now m))"
    using that mem.verify_grant_Inr [OF assms(1)] by (metis is_ok_Inl prod.collapse sum.exhaust)
  moreover have "\<exists>raw rec. vc_b64url_decode C token = Inr raw \<and> vc_parse C raw = Inr rec \<and>
      grant_valid C (mesh_view st) rec aud action name now"
    if "is_ok (fst (verify_grant C (mesh_store (ke_wire E) (kv_node E me fate disc) c) token aud action name now st))"
    using that mesh.verify_grant_Inr [OF assms(2)] by (metis is_ok_Inl prod.collapse sum.exhaust)
  ultimately show ?thesis
    using verify_grant_decodes [OF _ _ assms(1)] by blast
qed

text \<open>The record an issuer stores: what it signed, its key and the signature.\<close>

lemma unsigned_body_issued:
  assumes "\<forall>e \<in> set body. fst e \<notin> {''issuerEcdsaPub'', ''sig''}"
  shows "\<exists>obj. json_obj (body @ [(''issuerEcdsaPub'', pk), (''sig'', sg)]) = JObj obj \<and> unsigned_body obj = json_obj body"
proof -
  let ?b = "fold (\<lambda>(k, v) m. bt_insert k v m) body []"
  let ?o = "bt_insert ''sig'' sg (bt_insert ''issuerEcdsaPub'' pk ?b)"
  have ok: "bt_ok ?b" by (rule bt_ok_fold_insert) simp
  have "bt_get ?b k = map_of (rev body) k" for k
    using json_get_obj [of body k] by (simp add: json_obj_def)
  then have "bt_get ?b ''sig'' = None" "bt_get ?b ''issuerEcdsaPub'' = None"
    using assms by (auto simp: map_of_eq_None_iff)
  then have "bt_remove ''issuerEcdsaPub'' (bt_remove ''sig'' ?o) = ?b"
    using ok by (intro bt_eqI) (auto simp: btree_simps keeps_ok)
  then show ?thesis by (simp add: json_obj_def unsigned_body_def)
qed

definition grant_laws :: "('j, 'p, 'w, 's) vcrypto \<Rightarrow> (('j, 'p) key_pair \<Rightarrow> bool) \<Rightarrow> bool" where
  "grant_laws C gen \<longleftrightarrow> codec_law C \<and> sign_law C gen \<and> text_law C"

lemma issue_grant_Inr:
  assumes "map_ok m" "issue_grant H C mem_store V r8 rnd now aud names expires m = (Inr g, m1)"
  obtains sig doc where "ig_id g = grant_id H r8"
    "vc_sign C (va_device V) (json_obj (grant_body V (ig_id g) aud names now expires)) rnd = Inr sig"
    "ig_record g = json_obj (grant_body V (ig_id g) aud names now expires @
       [(''issuerEcdsaPub'', vc_jwk_json C (dk_ecdsa_pub (va_device V))), (''sig'', JStr sig)])"
    "vc_print C (ig_record g) = Inr doc" "ig_token g = vc_b64url_encode C doc"
    "map_ok m1" "bt_get m1 = (bt_get m)(grant_key (ig_id g) \<mapsto> ig_record g)"
proof -
  obtain b s1 sig doc where r: "is_enrolled mem_store V m = (Inr b, s1)" "ig_id g = grant_id H r8"
    "vc_sign C (va_device V) (json_obj (grant_body V (ig_id g) aud names now expires)) rnd = Inr sig"
    "ig_record g = json_obj (grant_body V (ig_id g) aud names now expires @
       [(''issuerEcdsaPub'', vc_jwk_json C (dk_ecdsa_pub (va_device V))), (''sig'', JStr sig)])"
    "so_put mem_store (grant_key (ig_id g)) (ig_record g) s1 = (Inr (), m1)"
    "vc_print C (ig_record g) = Inr doc" "ig_token g = vc_b64url_encode C doc"
    using assms(2) by (auto simp: issue_grant_def act_then_Inr Let_def)
  have "s1 = m" using r(1) by (auto simp: is_enrolled_def act_then_Inr mem_store_def mem_get_def)
  then have "map_ok m1" "bt_get m1 = (bt_get m)(grant_key (ig_id g) \<mapsto> ig_record g)"
    using mem.put_Inr [OF assms(1) _ r(5) [unfolded \<open>s1 = m\<close>]] r(4) by simp_all
  with r(2-4,6,7) show ?thesis by (rule that)
qed

lemma permits_name: "permits (map (\<lambda>n. JStr (''read:'' @ n)) names) ''read'' n \<longleftrightarrow> n \<in> set names \<or> ''*'' \<in> set names"
  by (auto simp: permits_def list_ex_iff)

text \<open>
  What verifying an issued grant comes to, on whatever the store holds by then: the issuer is enrolled
  with the same key, the record is there, and audience and name fit.
\<close>

lemma issued_grant_verifies:
  assumes "grant_laws C gen" "gen (va_device V)" "map_ok m"
    and "issue_grant H C mem_store V r8 rnd now aud names expires m = (Inr g, m1)"
    and "not_expired C (ig_record g) t" and "map_ok mx"
  shows "is_ok (fst (verify_grant C mem_store (ig_token g) a ''read'' n t mx)) \<longleftrightarrow>
    enrolled_with (bt_get mx) (dk_id (va_device V)) (vc_jwk_json C (dk_ecdsa_pub (va_device V))) \<and>
    bt_get mx (grant_key (ig_id g)) \<noteq> None \<and> a = aud \<and> (n \<in> set names \<or> ''*'' \<in> set names)"
proof -
  let ?pk = "vc_jwk_json C (dk_ecdsa_pub (va_device V))"
  let ?body = "grant_body V (ig_id g) aud names now expires"
  obtain sig doc where i: "ig_id g = grant_id H r8"
    "vc_sign C (va_device V) (json_obj ?body) rnd = Inr sig"
    "ig_record g = json_obj (?body @ [(''issuerEcdsaPub'', ?pk), (''sig'', JStr sig)])"
    "vc_print C (ig_record g) = Inr doc" "ig_token g = vc_b64url_encode C doc"
    "map_ok m1" "bt_get m1 = (bt_get m)(grant_key (ig_id g) \<mapsto> ig_record g)"
    using assms(3,4) by (rule issue_grant_Inr)
  have dec: "vc_b64url_decode C (ig_token g) = Inr doc" "vc_parse C doc = Inr (ig_record g)"
    using assms(1) i(4,5) by (auto simp: grant_laws_def text_law_def)
  have "\<forall>e \<in> set ?body. fst e \<notin> {''issuerEcdsaPub'', ''sig''}"
    by (simp add: grant_body_def)
  from unsigned_body_issued [OF this] obtain obj where obj: "ig_record g = JObj obj" "unsigned_body obj = json_obj ?body"
    unfolding i(3) by blast
  have sel: "get_str (ig_record g) ''sig'' = Some sig" "json_get (ig_record g) ''issuerEcdsaPub'' = Some ?pk"
    "get_str (ig_record g) ''issuer'' = Some (dk_id (va_device V))" "get_str (ig_record g) ''id'' = Some (ig_id g)"
    "get_str (ig_record g) ''audience'' = Some aud"
    "json_get (ig_record g) ''abilities'' = Some (JArr (map (\<lambda>n. JStr (''read:'' @ n)) names))"
    unfolding i(3) by (simp_all add: get_str_def json_get_obj grant_body_def)
  have sig: "vc_jwk_parse C ?pk = Inr (dk_ecdsa_pub (va_device V))"
    "vc_verify C (dk_ecdsa_pub (va_device V)) (unsigned_body obj) sig = Inr True"
    using assms(1,2) i(2) unfolding grant_laws_def codec_law_def sign_law_def obj(2) by blast+
  have valid: "grant_valid C view (ig_record g) a ''read'' n t \<longleftrightarrow>
      enrolled_with view (dk_id (va_device V)) ?pk \<and> view (grant_key (ig_id g)) \<noteq> None \<and>
      a = aud \<and> (n \<in> set names \<or> ''*'' \<in> set names)" for view a n
    using sel sig assms(5) obj(1) unfolding grant_valid_def permits_name [symmetric] by auto
  show ?thesis
    unfolding verify_grant_decodes [OF dec assms(6)] by (rule valid)
qed

text \<open>
  Property C30. The life of a grant: what an enrolled device issues verifies for each of its names at
  its audience until its expiry, for no other name (unless it names the wildcard) and no other
  audience, and stops verifying when the grant is revoked or its issuer is.
\<close>

theorem grant_life_cycle:
  assumes "grant_laws C gen" "gen (va_device V)" "map_ok m"
    and "enrolled_with (bt_get m) (dk_id (va_device V)) (vc_jwk_json C (dk_ecdsa_pub (va_device V)))"
    and "issue_grant H C mem_store V r8 rnd now aud names expires m = (Inr g, m1)"
    and "not_expired C (ig_record g) t"
  shows "(\<forall>n a. is_ok (fst (verify_grant C mem_store (ig_token g) a ''read'' n t m1)) \<longleftrightarrow>
      a = aud \<and> (n \<in> set names \<or> ''*'' \<in> set names)) \<and>
    (\<forall>n a m2 ru. revoke_grant mem_store (ig_id g) m1 = (ru, m2) \<longrightarrow>
      \<not> is_ok (fst (verify_grant C mem_store (ig_token g) a ''read'' n t m2))) \<and>
    (\<forall>W n a m2 ru. revoke_device mem_store W (dk_id (va_device V)) m1 = (Inr ru, m2) \<longrightarrow>
      \<not> is_ok (fst (verify_grant C mem_store (ig_token g) a ''read'' n t m2)))"
proof -
  let ?pk = "vc_jwk_json C (dk_ecdsa_pub (va_device V))"
  obtain sig doc where i: "map_ok m1" "bt_get m1 = (bt_get m)(grant_key (ig_id g) \<mapsto> ig_record g)"
    using assms(3,5) by (rule issue_grant_Inr) blast
  note verify = issued_grant_verifies [OF assms(1-3,5,6)]
  have "enrolled_with (bt_get m1) (dk_id (va_device V)) ?pk" "bt_get m1 (grant_key (ig_id g)) \<noteq> None"
    using assms(4) i(2) by (simp_all add: enrolled_with_def)
  then have 1: "is_ok (fst (verify_grant C mem_store (ig_token g) a ''read'' n t m1)) \<longleftrightarrow>
      a = aud \<and> (n \<in> set names \<or> ''*'' \<in> set names)" for n a
    using verify [OF i(1)] by blast
  have 2: "\<not> is_ok (fst (verify_grant C mem_store (ig_token g) a ''read'' n t m2))"
    if "revoke_grant mem_store (ig_id g) m1 = (ru, m2)" for ru m2 n a
  proof -
    have "so_del mem_store (grant_key (ig_id g)) m1 = (Inr (), m2)"
      using that by (auto simp: revoke_grant_def mem_store_def mem_del_def)
    then have "map_ok m2" "bt_get m2 (grant_key (ig_id g)) = None"
      using mem.del_Inr [OF i(1)] by auto
    then show ?thesis using verify by blast
  qed
  have 3: "\<not> is_ok (fst (verify_grant C mem_store (ig_token g) a ''read'' n t m2))"
    if "revoke_device mem_store W (dk_id (va_device V)) m1 = (Inr ru, m2)" for W ru m2 n a
  proof -
    have "so_del mem_store (device_key (dk_id (va_device V))) m1 = (Inr (), m2)"
      using that by (auto simp: revoke_device_def split: if_splits)
    then have "map_ok m2" "bt_get m2 (device_key (dk_id (va_device V))) = None"
      using mem.del_Inr [OF i(1)] by auto
    then show ?thesis using verify by (simp add: enrolled_with_def)
  qed
  show ?thesis
    by (intro conjI allI impI) (rule 1, erule 2, erule 3)
qed

text \<open>
  Login: the proof that an enrolled device signs is accepted for its challenge and names
  that device; whatever proof is accepted, on either store, carries the issued audience and nonce and a
  signature that verifies under the key the named device is enrolled with.
\<close>

lemma login_correct:
  assumes "codec_law C" "challenge_law C gen" "gen (va_device V)" "map_ok m" "mesh_ok E me c st"
    and "enrolled_with (bt_get m) (dk_id (va_device V)) (vc_jwk_json C (dk_ecdsa_pub (va_device V)))"
    and "sign_challenge C V rnd aud nonce ts = Inr v"
  shows "fst (verify_auth C mem_store aud nonce v m) = Inr (dk_id (va_device V)) \<and>
    (\<forall>w dev. fst (verify_auth C mem_store aud nonce w m) = Inr dev \<longrightarrow> proof_valid C (bt_get m) aud nonce w dev) \<and>
    (\<forall>w dev. fst (verify_auth C (mesh_store (ke_wire E) (kv_node E me fate disc) c) aud nonce w st) = Inr dev \<longrightarrow>
      proof_valid C (mesh_view st) aud nonce w dev)"
proof -
  let ?pk = "vc_jwk_json C (dk_ecdsa_pub (va_device V))"
  obtain sig where sig: "vc_sign_challenge C (va_device V) aud nonce ts rnd = Inr sig"
    "v = json_obj [(''deviceId'', JStr (dk_id (va_device V))), (''ecdsaPub'', ?pk), (''aud'', JStr aud),
       (''nonce'', JStr nonce), (''ts'', JStr ts), (''sig'', JStr sig)]"
    using assms(7) by (auto simp: sign_challenge_def and_then_Inr)
  obtain obj where obj: "as_object v = Some obj" "v = JObj obj"
    using sig(2) by (auto simp: json_obj_def)
  have sel: "get_str v ''sig'' = Some sig" "json_get v ''ecdsaPub'' = Some ?pk" "get_str v ''aud'' = Some aud"
    "get_str v ''nonce'' = Some nonce" "get_str v ''deviceId'' = Some (dk_id (va_device V))" "get_str v ''ts'' = Some ts"
    unfolding sig(2) by (simp_all add: get_str_def json_get_obj)
  have pk: "bt_get obj ''ecdsaPub'' = Some ?pk" using sel(2) obj(2) by simp
  have key: "vc_jwk_parse C ?pk = Inr (dk_ecdsa_pub (va_device V))"
    "vc_verify_auth C (dk_ecdsa_pub (va_device V)) aud (dk_id (va_device V)) nonce ts sig = Inr True"
    using assms(1-3) sig(1) unfolding codec_law_def challenge_law_def by blast+
  obtain dev where dev: "bt_get m (device_key (dk_id (va_device V))) = Some dev" "json_get dev ''ecdsaPub'' = Some ?pk"
    using assms(6) by (auto simp: enrolled_with_def split: bind_splits)
  have "so_get mem_store (device_key (dk_id (va_device V))) m = (Inr (Some dev), m)"
    using dev(1) by (simp add: mem_store_def mem_get_def)
  then have "fst (verify_auth C mem_store aud nonce v m) = Inr (dk_id (va_device V))"
    by (simp add: verify_auth_def act_then_def obj(1) sel pk dev(2) key map_err_def ensure_def ok_or_def)
  moreover have "proof_valid C (bt_get m) aud nonce w dev"
    if "fst (verify_auth C mem_store aud nonce w m) = Inr dev" for w dev
    using that mem.verify_auth_Inr [OF assms(4)] by (metis prod.collapse)
  moreover have "proof_valid C (mesh_view st) aud nonce w dev"
    if "fst (verify_auth C (mesh_store (ke_wire E) (kv_node E me fate disc) c) aud nonce w st) = Inr dev" for w dev
    using that mesh.verify_auth_Inr [OF assms(5)] by (metis prod.collapse)
  ultimately show ?thesis by blast
qed

section \<open>A grant in use\<close>

definition demo_grant_record :: json where
  "demo_grant_record = json_obj (grant_body demo_owner ''ff'' ''svc'' [''db''] ''t1'' (Some ''2026'') @
     [(''issuerEcdsaPub'', JInt 8), (''sig'', JStr (demo_sig 8))])"

definition demo_grant_C :: demo_crypto where
  "demo_grant_C = demo_crypto demo_grant_record"

definition demo_grant :: "(string + issued_grant) \<times> kv_map" where
  "demo_grant = issue_grant own_hex demo_grant_C mem_store demo_owner [255] [] ''t1'' ''svc'' [''db''] (Some ''2026'') demo_opened"

lemma demo_grant_laws: "grant_laws (demo_crypto known) demo_gen"
  using demo_enrol_laws [of known] demo_sign_laws [of known] demo_text_law [of known]
  by (simp add: grant_laws_def enrol_laws_def)

lemma demo_owner_enrolled:
  "enrolled_with (bt_get demo_opened) (dk_id (va_device demo_owner))
     (vc_jwk_json (demo_crypto known) (dk_ecdsa_pub (va_device demo_owner)))"
proof -
  have "Option.bind (bt_get demo_opened (device_key ''o'')) (\<lambda>r. json_get r ''ecdsaPub'') = Some (JInt 8)"
    by code_simp
  then show ?thesis
    by (simp add: enrolled_with_def demo_owner_def demo_vault_def demo_device_key_def demo_crypto_def)
qed

lemma demo_grant_eq: "\<exists>g. issue_grant own_hex demo_grant_C mem_store demo_owner [255] [] ''t1'' ''svc'' [''db'']
    (Some ''2026'') demo_opened = (Inr g, snd demo_grant) \<and> ig_record g = demo_grant_record \<and> ig_token g = ''#''"
proof -
  have "\<exists>g. fst demo_grant = Inr g \<and> ig_record g = demo_grant_record \<and> ig_token g = ''#''"
  proof -
    have "(case fst demo_grant of Inl _ \<Rightarrow> False | Inr g \<Rightarrow> ig_record g = demo_grant_record \<and> ig_token g = ''#'')"
      by code_simp
    then show ?thesis by (cases "fst demo_grant") auto
  qed
  then show ?thesis by (metis demo_grant_def prod.collapse)
qed

theorem verify_grant_exact_witness:
  "is_ok (fst (verify_grant demo_grant_C mem_store ''#'' ''svc'' ''read'' ''db'' 4 (snd demo_grant))) \<and>
   (\<exists>raw rec. vc_b64url_decode demo_grant_C ''#'' = Inr raw \<and> vc_parse demo_grant_C raw = Inr rec \<and>
      grant_valid demo_grant_C (bt_get (snd demo_grant)) rec ''svc'' ''read'' ''db'' 4)"
proof -
  obtain g where "issue_grant own_hex demo_grant_C mem_store demo_owner [255] [] ''t1'' ''svc'' [''db'']
    (Some ''2026'') demo_opened = (Inr g, snd demo_grant)"
    using demo_grant_eq by blast
  from issue_grant_Inr [OF demo_opened_ok this] have ok: "map_ok (snd demo_grant)" by blast
  have "is_ok (fst (verify_grant demo_grant_C mem_store ''#'' ''svc'' ''read'' ''db'' 4 (snd demo_grant)))"
    by code_simp
  with verify_grant_exact [OF ok demo_vault_mesh_ok, THEN conjunct1] show ?thesis by blast
qed

theorem grant_life_cycle_witness:
  "is_ok (fst (verify_grant demo_grant_C mem_store ''#'' ''svc'' ''read'' ''db'' 4 (snd demo_grant))) \<and>
   \<not> is_ok (fst (verify_grant demo_grant_C mem_store ''#'' ''svc'' ''read'' ''other'' 4 (snd demo_grant)))"
proof -
  obtain g where g: "issue_grant own_hex demo_grant_C mem_store demo_owner [255] [] ''t1'' ''svc'' [''db'']
    (Some ''2026'') demo_opened = (Inr g, snd demo_grant)" "ig_record g = demo_grant_record" "ig_token g = ''#''"
    using demo_grant_eq by blast
  have t: "not_expired demo_grant_C (ig_record g) 4"
    unfolding g(2) by code_simp
  have gen: "demo_gen (va_device demo_owner)" by (simp add: demo_owner_def)
  from grant_life_cycle [OF demo_grant_laws gen demo_opened_ok demo_owner_enrolled
      g(1) [unfolded demo_grant_C_def] t [unfolded demo_grant_C_def], THEN conjunct1]
  show ?thesis unfolding demo_grant_C_def g(3) by simp
qed

definition demo_login :: "string + json" where
  "demo_login = sign_challenge demo_C demo_owner [] ''app'' ''n0'' ''t1''"

lemma login_correct_witness:
  "\<exists>v. demo_login = Inr v \<and> fst (verify_auth demo_C mem_store ''app'' ''n0'' v demo_opened) = Inr ''o''"
proof -
  obtain v where v: "demo_login = Inr v"
    by (simp add: demo_login_def sign_challenge_def and_then_def demo_crypto_def)
  have codec: "codec_law demo_C" using demo_enrol_laws [of JNull] by (simp add: enrol_laws_def)
  have gen: "demo_gen (va_device demo_owner)" by (simp add: demo_owner_def)
  have "fst (verify_auth demo_C mem_store ''app'' ''n0'' v demo_opened) = Inr (dk_id (va_device demo_owner))"
    by (rule login_correct [OF codec demo_sign_laws(2) gen demo_opened_ok demo_vault_mesh_ok demo_owner_enrolled
      v [unfolded demo_login_def], THEN conjunct1])
  with v show ?thesis by (auto simp: demo_owner_def demo_vault_def demo_device_key_def)
qed

end
