(* ===== verification/Attestation.thy ===== *)
theory Attestation
  imports VaultGrants
begin

text \<open>
  \<open>attestation.rs\<close> and \<open>trust.rs\<close> of \<open>ce-iam-core\<close>: provider-signed claims about a node, and the score a
  relying party's policy gives them. The signatures of \<open>ce_identity\<close> and the canonical bytes that
  \<open>serde_json\<close> derives for a body are parameters, and so is the IEEE arithmetic of \<open>f64\<close>, for which the
  library has no theory: the results hold of any addition and comparison.
\<close>

section \<open>Attestations\<close>

definition LEVEL_EMAIL :: byte where "LEVEL_EMAIL = 0"

definition LEVEL_SOCIAL :: byte where "LEVEL_SOCIAL = 1"

definition LEVEL_VERIFIED :: byte where "LEVEL_VERIFIED = 2"

definition LEVEL_STRONG_EID :: byte where "LEVEL_STRONG_EID = 3"

datatype claim =
    UniqueHuman
  | EmailVerified string
  | DomainControl string
  | OrgMember string
  | CustomClaim string string

record attestation_body =
  ab_provider :: node_id
  ab_subject :: node_id
  ab_claim :: claim
  ab_level :: byte
  ab_pseudonym :: bytes
  ab_issued :: u64
  ab_expires :: u64
  ab_nonce :: u64

record attestation =
  at_body :: attestation_body
  at_sig :: string

record 'i sign_lib =
  sl_node_id :: "'i \<Rightarrow> node_id"
  sl_sign :: "'i \<Rightarrow> bytes \<Rightarrow> bytes"
  sl_verify :: "node_id \<Rightarrow> bytes \<Rightarrow> bytes \<Rightarrow> string + unit"
  sl_body_bytes :: "attestation_body \<Rightarrow> bytes"

definition attestation_issue :: "hex_lib \<Rightarrow> 'i sign_lib \<Rightarrow> 'i \<Rightarrow> node_id \<Rightarrow> claim \<Rightarrow> byte \<Rightarrow> bytes \<Rightarrow> u64 \<Rightarrow> u64 \<Rightarrow> u64 \<Rightarrow>
    attestation" where
  "attestation_issue H G provider subject claim level pseudonym issued expires nonce =
     (let body = \<lparr>ab_provider = sl_node_id G provider, ab_subject = subject, ab_claim = claim,
        ab_level = level, ab_pseudonym = pseudonym, ab_issued = issued, ab_expires = expires, ab_nonce = nonce\<rparr>
      in \<lparr>at_body = body, at_sig = hx_encode H (sl_sign G provider (sl_body_bytes G body))\<rparr>)"

definition attestation_verify :: "hex_lib \<Rightarrow> 'i sign_lib \<Rightarrow> u64 \<Rightarrow> attestation \<Rightarrow> string + unit" where
  "attestation_verify H G now a =
     (if ab_expires (at_body a) \<noteq> 0 \<and> now \<ge> ab_expires (at_body a) then Inl ''attestation expired''
      else and_then (ok_or (hx_decode H (at_sig a)) ''sig not hex'') (\<lambda>raw.
        if length raw \<noteq> 64 then Inl ''sig wrong length''
        else sl_verify G (ab_provider (at_body a)) (sl_body_bytes G (at_body a)) raw))"

definition provider_hex :: "hex_lib \<Rightarrow> attestation \<Rightarrow> string" where
  "provider_hex H a = hx_encode H (ab_provider (at_body a))"

definition subject_hex :: "hex_lib \<Rightarrow> attestation \<Rightarrow> string" where
  "subject_hex H a = hx_encode H (ab_subject (at_body a))"

definition max_level :: "hex_lib \<Rightarrow> 'i sign_lib \<Rightarrow> attestation list \<Rightarrow> u64 \<Rightarrow> byte" where
  "max_level H G atts now =
     (case map (\<lambda>a. ab_level (at_body a)) (filter (\<lambda>a. is_ok (attestation_verify H G now a)) atts) of
        [] \<Rightarrow> 0
      | l # ls \<Rightarrow> fold max ls l)"

section \<open>Trust policies\<close>

record provider =
  pr_key :: node_id
  pr_name :: string
  pr_method :: string
  pr_max_level :: byte
  pr_operator :: string

record 'f f64_ops =
  fl_zero :: 'f
  fl_add :: "'f \<Rightarrow> 'f \<Rightarrow> 'f"
  fl_ge :: "'f \<Rightarrow> 'f \<Rightarrow> bool"

record 'f provider_weight =
  pw_key :: node_id
  pw_weight :: 'f
  pw_min_level :: byte

record 'f trust_policy =
  tp_providers :: "'f provider_weight list"
  tp_threshold :: 'f

definition trust_policy_new :: "'f \<Rightarrow> 'f trust_policy" where
  "trust_policy_new threshold = \<lparr>tp_providers = [], tp_threshold = threshold\<rparr>"

definition trust_provider :: "node_id \<Rightarrow> 'f \<Rightarrow> byte \<Rightarrow> 'f trust_policy \<Rightarrow> 'f trust_policy" where
  "trust_provider key weight min_level p =
     p\<lparr>tp_providers := tp_providers p @ [\<lparr>pw_key = key, pw_weight = weight, pw_min_level = min_level\<rparr>]\<rparr>"

definition qualifies :: "hex_lib \<Rightarrow> 'i sign_lib \<Rightarrow> node_id \<Rightarrow> u64 \<Rightarrow> attestation list \<Rightarrow> 'f provider_weight \<Rightarrow> bool" where
  "qualifies H G subject now atts pw =
     list_ex (\<lambda>a. ab_subject (at_body a) = subject \<and> ab_provider (at_body a) = pw_key pw \<and>
       ab_level (at_body a) \<ge> pw_min_level pw \<and> is_ok (attestation_verify H G now a)) atts"

definition trust_score :: "'f f64_ops \<Rightarrow> hex_lib \<Rightarrow> 'i sign_lib \<Rightarrow> 'f trust_policy \<Rightarrow> node_id \<Rightarrow> attestation list \<Rightarrow>
    u64 \<Rightarrow> 'f" where
  "trust_score F H G p subject atts now =
     foldl (\<lambda>total pw. if qualifies H G subject now atts pw then fl_add F total (pw_weight pw) else total)
       (fl_zero F) (tp_providers p)"

definition is_trusted :: "'f f64_ops \<Rightarrow> hex_lib \<Rightarrow> 'i sign_lib \<Rightarrow> 'f trust_policy \<Rightarrow> node_id \<Rightarrow> attestation list \<Rightarrow>
    u64 \<Rightarrow> bool" where
  "is_trusted F H G p subject atts now = fl_ge F (trust_score F H G p subject atts now) (tp_threshold p)"

section \<open>What verifies, and what counts\<close>

definition signature_law :: "'i sign_lib \<Rightarrow> bool" where
  "signature_law G \<longleftrightarrow> (\<forall>i msg. length (sl_sign G i msg) = 64 \<and>
     sl_verify G (sl_node_id G i) msg (sl_sign G i msg) = Inr ())"

text \<open>
  An attestation that a provider issues verifies exactly until it expires, zero meaning
  never, with no one's cooperation but the signature; and it names the provider that signed it.
\<close>

lemma attestation_life:
  assumes "hex_lib_ok H" "signature_law G"
    and "a = attestation_issue H G provider subject cl level pseudonym issued expires nonce"
  shows "(attestation_verify H G now a = Inr () \<longleftrightarrow> expires = 0 \<or> now < expires) \<and>
    provider_hex H a = hx_encode H (sl_node_id G provider)"
proof -
  have "hx_decode H (at_sig a) = Some (sl_sign G provider (sl_body_bytes G (at_body a)))"
    using assms(1) by (simp add: assms(3) attestation_issue_def Let_def hex_codec.dec_enc)
  moreover have "ab_provider (at_body a) = sl_node_id G provider" "ab_expires (at_body a) = expires"
    by (simp_all add: assms(3) attestation_issue_def Let_def)
  moreover have "length (sl_sign G provider (sl_body_bytes G (at_body a))) = 64"
    "sl_verify G (sl_node_id G provider) (sl_body_bytes G (at_body a))
       (sl_sign G provider (sl_body_bytes G (at_body a))) = Inr ()"
    using assms(2) by (simp_all add: signature_law_def)
  ultimately show ?thesis
    by (auto simp: attestation_verify_def provider_hex_def and_then_def ok_or_def)
qed

text \<open>The attestations that can count under a policy at all.\<close>

definition counts :: "hex_lib \<Rightarrow> 'i sign_lib \<Rightarrow> 'f trust_policy \<Rightarrow> node_id \<Rightarrow> u64 \<Rightarrow> attestation \<Rightarrow> bool" where
  "counts H G p subject now a \<longleftrightarrow> ab_subject (at_body a) = subject \<and> is_ok (attestation_verify H G now a) \<and>
     (\<exists>pw \<in> set (tp_providers p). pw_key pw = ab_provider (at_body a) \<and> pw_min_level pw \<le> ab_level (at_body a))"

lemma foldl_if_filter: "foldl (\<lambda>t x. if q x then f t (w x) else t) z xs = foldl f z (map w (filter q xs))"
  by (induction xs arbitrary: z) auto

text \<open>
  The score is the sum, in the order of the policy, of the weights of the lines for which
  some attestation counts. So it depends only on which attestations are there, never on how many, and
  attestations of other subjects, of unlisted providers, below the line's level, expired or forged
  change nothing; without any that counts the score is zero.
\<close>

lemma trust_score_exact:
  assumes "\<forall>a. counts H G p subject now a \<longrightarrow> (a \<in> set atts \<longleftrightarrow> a \<in> set atts')"
  shows "trust_score F H G p subject atts now =
      foldl (fl_add F) (fl_zero F) (map pw_weight (filter (qualifies H G subject now atts) (tp_providers p))) \<and>
    trust_score F H G p subject atts now = trust_score F H G p subject atts' now \<and>
    ((\<forall>a \<in> set atts. \<not> counts H G p subject now a) \<longrightarrow> trust_score F H G p subject atts now = fl_zero F)"
proof -
  have sum: "trust_score F H G p subject as now =
      foldl (fl_add F) (fl_zero F) (map pw_weight (filter (qualifies H G subject now as) (tp_providers p)))" for as
    by (simp add: trust_score_def foldl_if_filter)
  have q: "qualifies H G subject now as pw \<longleftrightarrow> (\<exists>a \<in> set as. counts H G p subject now a \<and>
      ab_provider (at_body a) = pw_key pw \<and> pw_min_level pw \<le> ab_level (at_body a))"
    if "pw \<in> set (tp_providers p)" for as pw
    using that by (fastforce simp: qualifies_def list_ex_iff counts_def)
  have "filter (qualifies H G subject now atts) (tp_providers p) =
      filter (qualifies H G subject now atts') (tp_providers p)"
    by (rule filter_cong [OF refl]) (use assms q in blast)
  moreover have "filter (qualifies H G subject now atts) (tp_providers p) = []"
    if "\<forall>a \<in> set atts. \<not> counts H G p subject now a"
    using that q by (auto simp: filter_empty_conv)
  ultimately show ?thesis unfolding sum by auto
qed

lemma max_level_exact:
  "(\<forall>a \<in> set atts. is_ok (attestation_verify H G now a) \<longrightarrow> ab_level (at_body a) \<le> max_level H G atts now) \<and>
   (max_level H G atts now = 0 \<or>
     (\<exists>a \<in> set atts. is_ok (attestation_verify H G now a) \<and> ab_level (at_body a) = max_level H G atts now))"
proof -
  let ?ls = "map (\<lambda>a. ab_level (at_body a)) (filter (\<lambda>a. is_ok (attestation_verify H G now a)) atts)"
  have "max_level H G atts now = (if ?ls = [] then 0 else Max (set ?ls))"
    by (cases ?ls) (simp_all add: max_level_def Max.set_eq_fold [symmetric])
  moreover have "Max (set ?ls) \<in> set ?ls \<and> (\<forall>l \<in> set ?ls. l \<le> Max (set ?ls))" if "?ls \<noteq> []"
    using that by (metis List.finite_set Max_ge Max_in set_empty)
  ultimately have "(\<forall>l \<in> set ?ls. l \<le> max_level H G atts now) \<and>
      (max_level H G atts now = 0 \<or> max_level H G atts now \<in> set ?ls)"
    by (cases "?ls = []") simp_all
  then show ?thesis by auto
qed

section \<open>Two providers\<close>

definition demo_sign_lib :: "byte sign_lib" where
  "demo_sign_lib = \<lparr>sl_node_id = demo_node, sl_sign = (\<lambda>i msg. replicate 64 i),
     sl_verify = (\<lambda>n msg sig. if sig = replicate 64 (hd n) then Inr () else Inl ''bad signature''),
     sl_body_bytes = (\<lambda>b. ab_pseudonym b)\<rparr>"

definition demo_f64 :: "int f64_ops" where
  "demo_f64 = \<lparr>fl_zero = 0, fl_add = (+), fl_ge = (\<ge>)\<rparr>"

definition demo_trust :: "int trust_policy" where
  "demo_trust = trust_provider (demo_node 2) 4 LEVEL_SOCIAL
     (trust_provider (demo_node 1) 10 LEVEL_STRONG_EID (trust_policy_new 10))"

definition demo_bankid :: attestation where
  "demo_bankid = attestation_issue own_hex demo_sign_lib 1 (demo_node 9) UniqueHuman LEVEL_STRONG_EID [] 0 1000 1"

definition demo_weak :: attestation where
  "demo_weak = attestation_issue own_hex demo_sign_lib 1 (demo_node 9) UniqueHuman LEVEL_EMAIL [] 0 1000 2"

lemma demo_signature_law: "signature_law demo_sign_lib"
  by (simp add: signature_law_def demo_sign_lib_def demo_node_def)

lemma attestation_life_witness:
  "attestation_verify own_hex demo_sign_lib 999 demo_bankid = Inr () \<and>
   attestation_verify own_hex demo_sign_lib 1000 demo_bankid \<noteq> Inr ()"
  using attestation_life [OF own_hex_codec demo_signature_law demo_bankid_def] by simp

lemma trust_score_exact_witness:
  "trust_score demo_f64 own_hex demo_sign_lib demo_trust (demo_node 9) [demo_bankid, demo_weak, demo_bankid] 100 =
   trust_score demo_f64 own_hex demo_sign_lib demo_trust (demo_node 9) [demo_bankid] 100"
proof -
  have "ab_level (at_body demo_weak) = 0" "ab_provider (at_body demo_weak) = demo_node 1"
    by (simp_all add: demo_weak_def attestation_issue_def demo_sign_lib_def LEVEL_EMAIL_def Let_def)
  moreover have "demo_node 1 \<noteq> demo_node 2" by (simp add: demo_node_def)
  ultimately have "\<not> counts own_hex demo_sign_lib demo_trust (demo_node 9) 100 demo_weak"
    by (auto simp: counts_def demo_trust_def trust_provider_def trust_policy_new_def LEVEL_SOCIAL_def
        LEVEL_STRONG_EID_def)
  then have "\<forall>a. counts own_hex demo_sign_lib demo_trust (demo_node 9) 100 a \<longrightarrow>
      (a \<in> set [demo_bankid, demo_weak, demo_bankid] \<longleftrightarrow> a \<in> set [demo_bankid])"
    by auto
  from trust_score_exact [OF this] show ?thesis by blast
qed

end
