(* ===== verification/Calendar.thy ===== *)
theory Calendar
  imports Prelude "HOL-Library.Signed_Division"
begin

text \<open>
  The timestamps of the vault's records (\<open>iso_from_unix_ms\<close> and \<open>civil_from_days\<close> of
  \<open>secrets.rs\<close>), against the Gregorian calendar: the closed formula is the calendar's day after
  day, and the printed fields are in their ranges. Rust's division on \<open>i64\<close> truncates, which is
  \<open>sdiv\<close>; no intermediate value leaves the range of \<open>i64\<close> for a time in milliseconds of 64 bits.
\<close>

section \<open>Decimal numbers\<close>

text \<open>\<open>{:0w}\<close> prints decimal digits, padded with zeros to a width; \<open>decimal_value\<close> reads digits.\<close>

fun decimal_digits :: "nat \<Rightarrow> string" where
  "decimal_digits n = (if n < 10 then [char_of (48 + n)]
     else decimal_digits (n div 10) @ [char_of (48 + n mod 10)])"

declare decimal_digits.simps [simp del]

definition zero_padded :: "nat \<Rightarrow> nat \<Rightarrow> string" where
  "zero_padded w n = (let s = decimal_digits n in replicate (w - length s) (CHR ''0'') @ s)"

fun decimal_value :: "nat \<Rightarrow> string \<Rightarrow> nat option" where
  "decimal_value acc [] = Some acc"
| "decimal_value acc (c # s) =
     (let n = of_char c :: nat in
      if 48 \<le> n \<and> n \<le> 57 then decimal_value (10 * acc + (n - 48)) s else None)"

lemma decimal_value_append:
  "decimal_value acc (s @ t) = Option.bind (decimal_value acc s) (\<lambda>v. decimal_value v t)"
  by (induction s arbitrary: acc) (simp_all add: Let_def)

lemma decimal_value_digits: "decimal_value 0 (decimal_digits n) = Some n"
proof (induction n rule: decimal_digits.induct)
  case (1 n)
  have "n mod 10 < 10" by simp
  with 1 show ?case
    by (subst decimal_digits.simps) (auto simp: decimal_value_append Let_def)
qed

lemma decimal_value_zeros: "decimal_value 0 (replicate k (CHR ''0'') @ s) = decimal_value 0 s"
  by (induction k) simp_all

lemma zero_padded_value: "decimal_value 0 (zero_padded w n) = Some n"
  by (simp add: zero_padded_def Let_def decimal_value_zeros decimal_value_digits)

lemma zero_padded_inject: "zero_padded w m = zero_padded w n \<longleftrightarrow> m = n"
  by (metis zero_padded_value option.inject)

lemma decimal_value_Some_digits:
  "decimal_value acc s = Some v \<Longrightarrow> c \<in> set s \<Longrightarrow> (48 :: nat) \<le> of_char c \<and> of_char c \<le> (57 :: nat)"
  by (induction s arbitrary: acc) (auto simp: Let_def split: if_splits)

lemma zero_padded_chars:
  "CHR ''-'' \<notin> set (zero_padded w n)" "CHR ''T'' \<notin> set (zero_padded w n)"
  "CHR '':'' \<notin> set (zero_padded w n)" "CHR ''.'' \<notin> set (zero_padded w n)"
  "CHR ''Z'' \<notin> set (zero_padded w n)"
  using decimal_value_Some_digits [OF zero_padded_value] by fastforce+

lemma cut_at:
  fixes p q :: string
  assumes "c \<notin> set p" "c \<notin> set q"
  shows "p @ c # s = q @ c # t \<longleftrightarrow> p = q \<and> s = t"
proof
  assume "p @ c # s = q @ c # t"
  then have "split_once c (p @ c # s) = split_once c (q @ c # t)" by (rule arg_cong)
  then show "p = q \<and> s = t"
    by (simp only: split_once_append [OF assms(1)] split_once_append [OF assms(2)] option.inject prod.inject)
qed simp

section \<open>The code\<close>

definition civil_from_days :: "int \<Rightarrow> int \<times> int \<times> int" where
  "civil_from_days z0 =
     (let z = z0 + 719468;
          era = (if z \<ge> 0 then z else z - 146096) sdiv 146097;
          doe = z - era * 146097;
          yoe = (doe - doe sdiv 1460 + doe sdiv 36524 - doe sdiv 146096) sdiv 365;
          y = yoe + era * 400;
          doy = doe - (365 * yoe + yoe sdiv 4 - yoe sdiv 100);
          mp = (5 * doy + 2) sdiv 153;
          d = doy - (153 * mp + 2) sdiv 5 + 1;
          m = (if mp < 10 then mp + 3 else mp - 9)
      in (if m \<le> 2 then y + 1 else y, m, d))"

definition iso_from_unix_ms :: "u64 \<Rightarrow> string" where
  "iso_from_unix_ms ms =
     (let total_secs = unat ms div 1000;
          millis = unat ms mod 1000;
          days = int (total_secs div 86400);
          secs_of_day = total_secs mod 86400
      in case civil_from_days days of (y, m, d) \<Rightarrow>
        (let hh = secs_of_day div 3600;
             mm = (secs_of_day mod 3600) div 60;
             ss = secs_of_day mod 60
         in zero_padded 4 (nat y) @ ''-'' @ zero_padded 2 (nat m) @ ''-'' @ zero_padded 2 (nat d) @ ''T'' @
            zero_padded 2 hh @ '':'' @ zero_padded 2 mm @ '':'' @ zero_padded 2 ss @ ''.'' @
            zero_padded 3 millis @ ''Z''))"

text \<open>The wall clock of \<open>ce_secrets_rs\<close> is an argument.\<close>

definition now_iso_utc :: "int \<Rightarrow> string" where
  "now_iso_utc now_ms = iso_from_unix_ms (of_int (max now_ms 0))"

definition now_unix_secs :: "int \<Rightarrow> int" where
  "now_unix_secs now_ms = now_ms sdiv 1000"

section \<open>The Gregorian calendar\<close>

definition leap :: "int \<Rightarrow> bool" where
  "leap y \<longleftrightarrow> 4 dvd y \<and> (\<not> 100 dvd y \<or> 400 dvd y)"

definition month_length :: "int \<Rightarrow> int \<Rightarrow> int" where
  "month_length y m = (if m = 2 then if leap y then 29 else 28 else if m \<in> {4, 6, 9, 11} then 30 else 31)"

definition next_date :: "int \<times> int \<times> int \<Rightarrow> int \<times> int \<times> int" where
  "next_date date = (case date of (y, m, d) \<Rightarrow>
     if d < month_length y m then (y, m, d + 1)
     else if m < 12 then (y, m + 1, 1) else (y + 1, 1, 1))"

definition valid_date :: "int \<times> int \<times> int \<Rightarrow> bool" where
  "valid_date date = (case date of (y, m, d) \<Rightarrow> 1 \<le> m \<and> m \<le> 12 \<and> 1 \<le> d \<and> d \<le> month_length y m)"

section \<open>Years of an era\<close>

text \<open>Years begin in March, and the 400 of them that start at a multiple of 400 are an era.\<close>

definition year_start :: "int \<Rightarrow> int" where
  "year_start y = 365 * y + y div 4 - y div 100"

definition squeezed :: "int \<Rightarrow> int" where
  "squeezed doe = doe - doe div 1460 + doe div 36524 - doe div 146096"

definition year_of :: "int \<Rightarrow> int" where
  "year_of doe = squeezed doe div 365"

lemma div_step:
  fixes x n :: int
  assumes "0 < n"
  shows "(x + 1) div n = x div n + (if n dvd x + 1 then 1 else 0)"
proof -
  define q r where "q = x div n" and "r = x mod n"
  have x: "x = n * q + r" "0 \<le> r" "r < n"
    using assms by (simp_all add: q_def r_def)
  show ?thesis
  proof (cases "r + 1 = n")
    case True
    with x have "x + 1 = n * (q + 1)" by (simp add: algebra_simps)
    with assms show ?thesis by (simp add: q_def)
  next
    case False
    with x have "x + 1 = n * q + (r + 1)" "0 \<le> r + 1" "r + 1 < n" by simp_all
    then have "(x + 1) div n = q" "(x + 1) mod n = r + 1"
      by (auto intro: int_div_pos_eq int_mod_pos_eq)
    with x show ?thesis by (auto simp: q_def dvd_eq_mod_eq_0)
  qed
qed

lemma squeezed_step: "squeezed doe \<le> squeezed (doe + 1)"
proof -
  have "36524 dvd doe + 1" if "146096 dvd doe + 1"
    using that by (rule dvd_trans [rotated]) simp
  then show ?thesis
    by (simp add: squeezed_def div_step)
qed

lemma squeezed_mono: "a \<le> b \<Longrightarrow> squeezed a \<le> squeezed b"
proof (induction b rule: int_ge_induct)
  case (step i)
  then show ?case using squeezed_step [of i] by simp
qed simp

lemma year_ends:
  "list_all (\<lambda>y. year_of (year_start y) = y \<and>
     year_of (if y = 399 then 146096 else year_start (y + 1) - 1) = y) [0..399]"
  by code_simp

definition year_end :: "int \<Rightarrow> int" where
  "year_end y = (if y = 399 then 146096 else year_start (y + 1) - 1)"

lemma year_of_between:
  assumes "0 \<le> y" "y \<le> 399" "year_start y \<le> doe" "doe \<le> year_end y"
  shows "year_of doe = y"
proof -
  have ends: "year_of (year_start y) = y" "year_of (year_end y) = y"
    using year_ends assms(1,2) by (auto simp: list_all_iff year_end_def)
  have "year_of (year_start y) \<le> year_of doe" "year_of doe \<le> year_of (year_end y)"
    unfolding year_of_def by (auto intro!: zdiv_mono1 squeezed_mono assms)
  with ends show ?thesis by simp
qed

lemma leap_cases: "leap y \<longleftrightarrow> y mod 4 = 0 \<and> (y mod 100 \<noteq> 0 \<or> y mod 400 = 0)"
  by (simp add: leap_def dvd_eq_mod_eq_0)

text \<open>A year that starts in March holds the leap day of the next number.\<close>

lemma year_start_step: "year_start (y + 1) = year_start y + 365 +
    (if 4 dvd y + 1 then 1 else 0) - (if 100 dvd y + 1 then 1 else 0)"
  by (simp add: year_start_def div_step)

lemma year_span:
  assumes "0 \<le> y" "y \<le> 399"
  shows "year_end y = year_start y + (if leap (y + 1) then 365 else 364)"
proof -
  have "400 dvd y + 1 \<longleftrightarrow> y = 399"
  proof
    assume "400 dvd y + 1"
    then have "400 \<le> y + 1" by (rule zdvd_imp_le) (use assms in simp)
    with assms show "y = 399" by simp
  qed simp
  moreover have "4 dvd y + 1" if "100 dvd y + 1"
    using that by (rule dvd_trans [rotated]) simp
  ultimately show ?thesis
    by (auto simp: year_end_def leap_def year_start_step) (auto simp: year_start_def)
qed

text \<open>Every day of an era is in one of its years.\<close>

lemma year_exists:
  assumes "0 \<le> doe" "doe \<le> 146096"
  obtains y where "0 \<le> y" "y \<le> 399" "year_start y \<le> doe" "doe \<le> year_end y"
proof -
  have "\<exists>y. 0 \<le> y \<and> y \<le> int n \<and> year_start y \<le> doe \<and> doe \<le> year_end y"
    if "n \<le> 399" "doe \<le> year_end (int n)" for n
    using that
  proof (induction n)
    case 0
    then show ?case using assms by (auto intro!: exI [of _ 0] simp: year_start_def)
  next
    case (Suc n)
    show ?case
    proof (cases "year_start (int n + 1) \<le> doe")
      case True
      with Suc.prems show ?thesis by (intro exI [of _ "int (Suc n)"]) (simp add: add.commute)
    next
      case False
      then have "doe \<le> year_end (int n)" using Suc.prems by (auto simp: year_end_def)
      with Suc show ?thesis by fastforce
    qed
  qed
  from this [of 399] assms that show thesis by (auto simp: year_end_def)
qed

section \<open>Days of a year\<close>

definition month_day :: "int \<Rightarrow> int \<times> int" where
  "month_day doy = (let mp = (5 * doy + 2) div 153
     in (if mp < 10 then mp + 3 else mp - 9, doy - (153 * mp + 2) div 5 + 1))"

definition march_date :: "int \<Rightarrow> int \<Rightarrow> int \<times> int \<times> int" where
  "march_date y doy = (case month_day doy of (m, d) \<Rightarrow> (if m \<le> 2 then y + 1 else y, m, d))"

definition days_of_month :: "bool \<Rightarrow> int \<Rightarrow> int" where
  "days_of_month lp m = (if m = 2 then if lp then 29 else 28 else if m \<in> {4, 6, 9, 11} then 30 else 31)"

lemma month_length_eq: "month_length y m = days_of_month (leap y) m"
  by (simp add: month_length_def days_of_month_def)

definition day_ok :: "bool \<Rightarrow> int \<Rightarrow> bool" where
  "day_ok lp doy = (case (month_day doy, month_day (doy + 1)) of ((m, d), (m', d')) \<Rightarrow>
     1 \<le> m \<and> m \<le> 12 \<and> 1 \<le> d \<and> d \<le> days_of_month lp m \<and>
     (if d < days_of_month lp m then m' = m \<and> d' = d + 1
      else m \<noteq> 2 \<and> d' = 1 \<and> m' = (if m < 12 then m + 1 else 1)))"

lemma day_table: "list_all (day_ok True) [0..364] \<and> list_all (day_ok False) [0..363]"
  by code_simp

lemma march_date_step:
  assumes "0 \<le> doy" "doy < (if leap (y + 1) then 365 else 364)"
  shows "march_date y (doy + 1) = next_date (march_date y doy)" and "valid_date (march_date y doy)"
proof -
  obtain m d m' d' where md: "month_day doy = (m, d)" "month_day (doy + 1) = (m', d')" by fastforce
  have "day_ok (leap (y + 1)) doy"
    using day_table assms by (cases "leap (y + 1)") (auto simp: list_all_iff)
  then show "march_date y (doy + 1) = next_date (march_date y doy)" and "valid_date (march_date y doy)"
    unfolding day_ok_def march_date_def next_date_def valid_date_def md month_length_eq
    by (auto simp: days_of_month_def split: if_splits)
qed

lemma march_last:
  "march_date (y + 1) 0 = next_date (march_date y (if leap (y + 1) then 365 else 364))"
  "valid_date (march_date y (if leap (y + 1) then 365 else 364))"
proof -
  have "month_day 0 = (3, 1)" "month_day 364 = (2, 28)" "month_day 365 = (2, 29)"
    by code_simp+
  then show "march_date (y + 1) 0 = next_date (march_date y (if leap (y + 1) then 365 else 364))"
    and "valid_date (march_date y (if leap (y + 1) then 365 else 364))"
    by (auto simp: march_date_def next_date_def valid_date_def month_length_def)
qed

section \<open>The closed formula\<close>

lemma sdiv_nonneg: "0 \<le> a \<Longrightarrow> 0 < b \<Longrightarrow> a sdiv b = a div (b :: int)"
  by (simp add: signed_divide_int_def sgn_if)

lemma era_of:
  fixes era doe :: int
  assumes "0 \<le> doe" "doe \<le> 146096" "z = era * 146097 + doe"
  shows "(if z \<ge> 0 then z else z - 146096) sdiv 146097 = era"
proof (cases "0 \<le> z")
  case True
  have "z div 146097 = era"
    using assms by (intro int_div_pos_eq [of _ _ _ doe]) auto
  with True show ?thesis by (simp add: sdiv_nonneg)
next
  case False
  have "(146096 - z) div 146097 = - era"
    using assms by (intro int_div_pos_eq [of _ _ _ "146096 - doe"]) auto
  with False show ?thesis
    by (simp add: signed_divide_int_def sgn_if)
qed

lemma civil_unfold:
  assumes "z0 + 719468 = z" "(if z \<ge> 0 then z else z - 146096) sdiv 146097 = era" "z - era * 146097 = doe"
    and "(doe - doe sdiv 1460 + doe sdiv 36524 - doe sdiv 146096) sdiv 365 = yoe"
    and "doe - (365 * yoe + yoe sdiv 4 - yoe sdiv 100) = doy"
    and "(5 * doy + 2) sdiv 153 = mp" "(153 * mp + 2) sdiv 5 = q"
  shows "civil_from_days z0 = (if (if mp < 10 then mp + 3 else mp - 9) \<le> 2 then yoe + era * 400 + 1
    else yoe + era * 400, if mp < 10 then mp + 3 else mp - 9, doy - q + 1)"
  by (simp only: civil_from_days_def Let_def assms)

lemma civil_in_year:
  assumes "0 \<le> y" "y \<le> 399" "year_start y \<le> doe" "doe \<le> year_end y" "0 \<le> doe" "doe \<le> 146096"
  shows "civil_from_days (era * 146097 + doe - 719468) = march_date (y + era * 400) (doe - year_start y)"
proof -
  let ?doy = "doe - year_start y"
  let ?mp = "(5 * ?doy + 2) div 153"
  have "squeezed doe div 365 = y"
    using year_of_between [OF assms(1-4)] by (simp add: year_of_def)
  moreover have "squeezed 0 \<le> squeezed doe"
    using assms(5) by (rule squeezed_mono)
  ultimately have yoe: "(doe - doe sdiv 1460 + doe sdiv 36524 - doe sdiv 146096) sdiv 365 = y"
    using assms(5) by (simp add: sdiv_nonneg squeezed_def)
  have doy: "doe - (365 * y + y sdiv 4 - y sdiv 100) = ?doy"
    using assms(1) by (simp add: sdiv_nonneg year_start_def)
  have mp: "(5 * ?doy + 2) sdiv 153 = ?mp"
    using assms(3) by (intro sdiv_nonneg) simp_all
  have "0 \<le> ?mp"
    using assms(3) by (simp add: pos_imp_zdiv_nonneg_iff)
  then have q: "(153 * ?mp + 2) sdiv 5 = (153 * ?mp + 2) div 5"
    by (intro sdiv_nonneg) simp_all
  have z: "era * 146097 + doe - 719468 + 719468 = era * 146097 + doe"
    and d: "era * 146097 + doe - era * 146097 = doe"
    by simp_all
  have "civil_from_days (era * 146097 + doe - 719468) =
      (if (if ?mp < 10 then ?mp + 3 else ?mp - 9) \<le> 2 then y + era * 400 + 1 else y + era * 400,
       if ?mp < 10 then ?mp + 3 else ?mp - 9, ?doy - (153 * ?mp + 2) div 5 + 1)"
    by (rule civil_unfold [OF z era_of [OF assms(5,6) refl] d yoe doy mp q])
  then show ?thesis
    by (simp only: march_date_def month_day_def Let_def prod.case)
qed

lemma year_end_le: "0 \<le> y \<Longrightarrow> y \<le> 399 \<Longrightarrow> year_end y \<le> 146096"
proof -
  assume "0 \<le> y" "y \<le> 399"
  moreover have "list_all (\<lambda>y. year_end y \<le> 146096) [0..399]"
    by code_simp
  ultimately show ?thesis by (simp add: list_all_iff)
qed

lemma day_split:
  obtains era doe y where "z = era * 146097 + doe - 719468" "0 \<le> doe" "doe \<le> 146096"
    "0 \<le> y" "y \<le> 399" "year_start y \<le> doe" "doe \<le> year_end y"
proof -
  let ?doe = "(z + 719468) mod 146097"
  have doe: "0 \<le> ?doe" "?doe \<le> 146096"
    using pos_mod_bound [of 146097 "z + 719468"] by simp_all
  obtain y where "0 \<le> y" "y \<le> 399" "year_start y \<le> ?doe" "?doe \<le> year_end y"
    using doe by (rule year_exists)
  with doe show thesis
    by (intro that [of "(z + 719468) div 146097" ?doe y]) (simp_all add: mult_div_mod_eq)
qed

lemma leap_era: "leap (y + era * 400) = leap y"
proof -
  have "(400 :: int) dvd era * 400" "(100 :: int) dvd era * 400" "(4 :: int) dvd era * 400"
    by (simp_all add: dvd_mult)
  then show ?thesis unfolding leap_def by (simp add: dvd_add_left_iff)
qed

lemma civil_step: "civil_from_days (z + 1) = next_date (civil_from_days z)" "valid_date (civil_from_days z)"
proof -
  obtain era doe y where z: "z = era * 146097 + doe - 719468" "0 \<le> doe" "doe \<le> 146096"
    and y: "0 \<le> y" "y \<le> 399" "year_start y \<le> doe" "doe \<le> year_end y"
    by (rule day_split)
  let ?Y = "y + era * 400" and ?doy = "doe - year_start y"
  have now: "civil_from_days z = march_date ?Y ?doy"
    unfolding z(1) using civil_in_year [OF y z(2,3)] .
  have span: "year_end y = year_start y + (if leap (?Y + 1) then 365 else 364)"
    using year_span [OF y(1,2)] leap_era [of "y + 1" era] by (simp add: algebra_simps)
  have "civil_from_days (z + 1) = next_date (march_date ?Y ?doy) \<and> valid_date (march_date ?Y ?doy)"
  proof (cases "doe < year_end y")
    case True
    then have "doe + 1 \<le> 146096"
      using year_end_le [OF y(1,2)] by simp
    moreover have next_day: "z + 1 = era * 146097 + (doe + 1) - 719468" using z(1) by simp
    ultimately have "civil_from_days (z + 1) = march_date ?Y (doe + 1 - year_start y)"
      unfolding next_day using True y z(2) by (intro civil_in_year) simp_all
    then have "civil_from_days (z + 1) = march_date ?Y (?doy + 1)"
      by (simp add: algebra_simps)
    with True y span show ?thesis
      using march_date_step [of ?doy ?Y] by (simp add: algebra_simps split: if_splits)
  next
    case False
    then have last: "?doy = (if leap (?Y + 1) then 365 else 364)" using y(4) span by simp
    have "civil_from_days (z + 1) = march_date (?Y + 1) 0"
    proof (cases "y = 399")
      case True
      with False y(4) have next_day: "z + 1 = (era + 1) * 146097 + 0 - 719468"
        using z(1) by (simp add: year_end_def)
      have "year_start 0 = 0" "0 \<le> year_end 0"
        by code_simp+
      then have "civil_from_days (z + 1) = march_date (0 + (era + 1) * 400) 0"
        unfolding next_day using civil_in_year [of 0 0 "era + 1"] by simp
      with True show ?thesis by (simp add: algebra_simps)
    next
      case not_last: False
      with False y(4) have doe: "doe + 1 = year_start (y + 1)" by (simp add: year_end_def)
      have "year_start (y + 1) \<le> year_end (y + 1)"
        using year_span [of "y + 1"] y(1,2) not_last by (simp split: if_splits)
      have next_day: "z + 1 = era * 146097 + (doe + 1) - 719468" using z(1) by simp
      have "civil_from_days (z + 1) = march_date (y + 1 + era * 400) (doe + 1 - year_start (y + 1))"
        unfolding next_day
        using \<open>year_start (y + 1) \<le> year_end (y + 1)\<close> doe z y not_last year_end_le [of "y + 1"]
        by (intro civil_in_year) simp_all
      with doe show ?thesis by (simp add: algebra_simps)
    qed
    with last march_last [of ?Y] show ?thesis by simp
  qed
  with now show "civil_from_days (z + 1) = next_date (civil_from_days z)" "valid_date (civil_from_days z)"
    by simp_all
qed

text \<open>
  Property C38. The closed formula is the Gregorian calendar: day 0 is the first of January 1970, the
  day after a date is the next date of the calendar with its leap years, over all days, before the
  epoch too, and every date is valid.
\<close>

theorem civil_from_days_is_calendar:
  "civil_from_days 0 = (1970, 1, 1) \<and> civil_from_days (z + 1) = next_date (civil_from_days z) \<and>
   valid_date (civil_from_days z)"
proof -
  have "civil_from_days 0 = (1970, 1, 1)" by code_simp
  with civil_step show ?thesis by blast
qed

section \<open>Timestamps\<close>

text \<open>Later days have later dates.\<close>

fun date_rank :: "int \<times> int \<times> int \<Rightarrow> int" where
  "date_rank (y, m, d) = 10000 * y + 100 * m + d"

lemma next_date_later: "valid_date date \<Longrightarrow> date_rank date < date_rank (next_date date)"
  by (cases date) (auto simp: valid_date_def next_date_def month_length_def split: if_splits)

lemma civil_mono: "a < b \<Longrightarrow> date_rank (civil_from_days a) < date_rank (civil_from_days b)"
proof (induction b rule: int_gr_induct)
  case base
  show ?case using next_date_later civil_step by simp
next
  case (step i)
  then show ?case using next_date_later [of "civil_from_days i"] civil_step [of i] by simp
qed

lemma civil_inject: "civil_from_days a = civil_from_days b \<longleftrightarrow> a = b"
  using civil_mono [of a b] civil_mono [of b a] by (metis less_irrefl linorder_neqE)

lemma civil_after_epoch:
  assumes "0 \<le> z" "civil_from_days z = (y, m, d)"
  shows "0 \<le> y \<and> 0 \<le> m \<and> 0 \<le> d"
proof -
  have "valid_date (y, m, d)" using civil_step(2) [of z] assms(2) by simp
  moreover have "date_rank (civil_from_days 0) \<le> date_rank (y, m, d)"
    using civil_mono [of 0 z] assms by (cases "z = 0") auto
  moreover have "date_rank (civil_from_days 0) = 19700101" by code_simp
  ultimately show ?thesis
    by (auto simp: valid_date_def month_length_def split: if_splits)
qed

lemma recompose:
  "n = (n div 1000 div 86400 * 86400 + (n div 1000 mod 86400 div 3600 * 3600 +
     (n div 1000 mod 86400 mod 3600 div 60 * 60 + n div 1000 mod 86400 mod 60))) * 1000 + n mod 1000"
  for n :: nat
proof -
  let ?s = "n div 1000 mod 86400"
  have "?s mod 60 = ?s mod 3600 mod 60" by (simp add: mod_mod_cancel)
  then have "?s mod 3600 div 60 * 60 + ?s mod 60 = ?s mod 3600"
    by (simp only: div_mult_mod_eq)
  then have "?s div 3600 * 3600 + (?s mod 3600 div 60 * 60 + ?s mod 60) = ?s"
    by (simp only: div_mult_mod_eq)
  then show ?thesis by (simp only: div_mult_mod_eq)
qed

text \<open>
  A timestamp determines its millisecond: two times of 64 bits that print alike are equal,
  so printing has an inverse on all timestamps the vault writes, whatever the year.
\<close>

lemma iso_from_unix_ms_inject:
  "iso_from_unix_ms a = iso_from_unix_ms b \<longleftrightarrow> a = b"
proof
  assume eq: "iso_from_unix_ms a = iso_from_unix_ms b"
  obtain ya ma da where ca: "civil_from_days (int (unat a div 1000 div 86400)) = (ya, ma, da)"
    by (metis prod_cases3)
  obtain yb mb db where cb: "civil_from_days (int (unat b div 1000 div 86400)) = (yb, mb, db)"
    by (metis prod_cases3)
  note nonneg = civil_after_epoch [OF _ ca] civil_after_epoch [OF _ cb]
  have fields: "nat ya = nat yb" "nat ma = nat mb" "nat da = nat db"
      "unat a div 1000 mod 86400 div 3600 = unat b div 1000 mod 86400 div 3600"
      "unat a div 1000 mod 86400 mod 3600 div 60 = unat b div 1000 mod 86400 mod 3600 div 60"
      "unat a div 1000 mod 86400 mod 60 = unat b div 1000 mod 86400 mod 60"
      "unat a mod 1000 = unat b mod 1000"
    using eq unfolding iso_from_unix_ms_def Let_def ca cb
    by (simp_all add: cut_at zero_padded_chars zero_padded_inject)
  then have "civil_from_days (int (unat a div 1000 div 86400)) = civil_from_days (int (unat b div 1000 div 86400))"
    using nonneg ca cb by (simp add: nat_eq_iff2)
  then have "unat a div 1000 div 86400 = unat b div 1000 div 86400"
    by (simp add: civil_inject)
  with fields have "(unat a div 1000 div 86400 * 86400 + (unat a div 1000 mod 86400 div 3600 * 3600 +
      (unat a div 1000 mod 86400 mod 3600 div 60 * 60 + unat a div 1000 mod 86400 mod 60))) * 1000 +
      unat a mod 1000 = unat b"
    by (simp only: recompose [symmetric])
  then have "unat a = unat b" by (simp only: recompose [symmetric])
  then show "a = b" by (rule word_unat_eq_iff [THEN iffD2])
qed simp

end
