(* ===== verification/Bridge.thy ===== *)
theory Bridge
  imports Attestation Calendar
begin

text \<open>
  \<open>bridge.rs\<close>: the grant that a verified operator device carries. The bridge mints a root grant from
  its own identity to the node id the device registered, for the operator ability and the ability of
  the requesting app. The first section has what this and \<open>nodeauth.rs\<close> share: a root grant of a policy
  with one statement, and who is let through with it.
\<close>

section \<open>Root grants of simple policies\<close>

lemma compile_simple:
  assumes "compile H i (simple_policy actions r c) = Inr (abilities, res, cavs)"
  shows "expand_actions i actions = Inr abilities" "to_cap_resource H r = Inr res" "cavs = to_caveats c"
proof -
  have allows: "policy_allows (simple_policy actions r c) = pol_statements (simple_policy actions r c)"
    "\<not> policy_denies (simple_policy actions r c)"
    by (simp_all add: simple_policy_def policy_allow_def policy_allows_def policy_denies_def)
  show "expand_actions i actions = Inr abilities" "to_cap_resource H r = Inr res" "cavs = to_caveats c"
    using assms unfolding compile_def Let_def allows
    by (auto simp: simple_policy_def policy_allow_def and_then_Inr split: if_splits)
qed

lemma mint_simple:
  assumes "mint H L i issuer audience (simple_policy actions r c) nonce = Inr g"
  obtains abilities res where "expand_actions i actions = Inr abilities" "to_cap_resource H r = Inr res"
    "g = grant_from_chain L [lib_issue L issuer (principal_node_id audience) abilities res (to_caveats c) nonce None]"
proof -
  obtain abilities res cavs where "compile H i (simple_policy actions r c) = Inr (abilities, res, cavs)"
    "g = grant_from_chain L [lib_issue L issuer (principal_node_id audience) abilities res cavs nonce None]"
    using assms by (auto simp: mint_def and_then_Inr)
  with compile_simple [of H i actions r c abilities res cavs] that show ?thesis by simp
qed

text \<open>A token that decodes to a chain of one fresh capability.\<close>

lemma root_grant_verifies:
  assumes "issue_law L" "authorize_law L K"
    and "g = grant_from_chain L [lib_issue L issuer audience abilities res cavs nonce None]"
    and "guarded_decode L v (gr_token g) = Inr (gr_chain g)"
  shows "verify L v self tags t requester action (gr_token g) revoked = Inr () \<longleftrightarrow>
    lib_node_id L issuer \<in> insert self (set (iam_roots v)) \<and>
    ck_signature K (hd (gr_chain g)) \<and> ck_resource K res self tags \<and>
    (cv_not_before cavs = 0 \<or> cv_not_before cavs \<le> t) \<and> (cv_not_after cavs = 0 \<or> t \<le> cv_not_after cavs) \<and>
    \<not> revoked (lib_node_id L issuer) nonce \<and>
    requester = Principal audience \<and> action \<in> set abilities"
proof -
  have chain: "gr_chain g = [lib_issue L issuer audience abilities res cavs nonce None]"
    by (simp add: assms(3) grant_from_chain_def)
  have "verify L v self tags t requester action (gr_token g) revoked = Inr () \<longleftrightarrow>
      documented_ok L K self (iam_roots v) tags t (principal_node_id requester) action (gr_chain g) revoked"
    using assms(2,4) by (auto simp: verify_Inr authorize_law_def)
  also have "\<dots> \<longleftrightarrow> lib_node_id L issuer \<in> insert self (set (iam_roots v)) \<and>
    ck_signature K (hd (gr_chain g)) \<and> ck_resource K res self tags \<and>
    (cv_not_before cavs = 0 \<or> cv_not_before cavs \<le> t) \<and> (cv_not_after cavs = 0 \<or> t \<le> cv_not_after cavs) \<and>
    \<not> revoked (lib_node_id L issuer) nonce \<and>
    audience = principal_node_id requester \<and> action \<in> set abilities"
    using assms(1) unfolding chain by (auto simp: documented_ok_def link_live_def issue_law_def)
  finally show ?thesis by (cases requester) auto
qed

section \<open>The bridge\<close>

definition ABILITY_OPERATOR :: string where
  "ABILITY_OPERATOR = ''auth:operator''"

definition ability_for_aud :: "string \<Rightarrow> string" where
  "ability_for_aud aud = ''aud:'' @ aud"

record 'i cap_bridge =
  br_root :: 'i
  br_iam :: iam
  br_resource :: resource_match
  br_ttl_secs :: u64
  br_nonce :: u64

text \<open>The seed of the nonce is the wall clock in microseconds.\<close>

definition bridge_new :: "u64 \<Rightarrow> 'i \<Rightarrow> resource_match \<Rightarrow> u64 \<Rightarrow> 'i cap_bridge" where
  "bridge_new seed root res ttl_secs =
     \<lparr>br_root = root, br_iam = with_action_universe iam_new [ABILITY_OPERATOR], br_resource = res,
      br_ttl_secs = ttl_secs, br_nonce = seed\<rparr>"

text \<open>\<open>str::parse::<u64>\<close>: an optional plus sign and digits, \<open>None\<close> on overflow.\<close>

definition parse_u64 :: "string \<Rightarrow> u64 option" where
  "parse_u64 s =
     (let digits = (case s of c # r \<Rightarrow> if c = CHR ''+'' then r else s | [] \<Rightarrow> s) in
      if digits = [] then None
      else case decimal_value 0 digits of
        Some n \<Rightarrow> if n < 2 ^ 64 then Some (of_nat n) else None
      | None \<Rightarrow> None)"

text \<open>
  The environment variables are arguments, and the results of the two ways to the root identity in
  \<open>ce_identity\<close>.
\<close>

definition bridge_from_env :: "hex_lib \<Rightarrow> (bytes \<Rightarrow> 'i) \<Rightarrow> string + 'i \<Rightarrow> u64 \<Rightarrow> string option \<Rightarrow> string option \<Rightarrow>
    string option \<Rightarrow> string + 'i cap_bridge" where
  "bridge_from_env H from_secret load_or_generate seed env_seed env_resource env_ttl =
     and_then (case non_blank env_seed of
         Some hex_seed \<Rightarrow>
           and_then (ok_or (hx_decode H (trim hex_seed)) ''CE_AUTH_CAP_ROOT_SEED is not valid hex'') (\<lambda>b.
           if length b = 32 then Inr (from_secret b)
           else Inl ''CE_AUTH_CAP_ROOT_SEED must be 32 bytes (64 hex)'')
       | None \<Rightarrow> load_or_generate) (\<lambda>root.
     and_then (case non_blank env_resource of
         Some s \<Rightarrow> map_err (\<lambda>e. ''CE_AUTH_CAP_RESOURCE invalid'') (resource_parse H (trim s))
       | None \<Rightarrow> Inr RMAny) (\<lambda>res.
     let ttl = (case Option.bind env_ttl (\<lambda>s. parse_u64 (trim s)) of
         Some n \<Rightarrow> if n > 0 then n else 600 | None \<Rightarrow> 600)
     in Inr (bridge_new seed root res ttl)))"

definition root_node_id_hex :: "hex_lib \<Rightarrow> ('i, 's) cap_lib \<Rightarrow> 'i cap_bridge \<Rightarrow> string" where
  "root_node_id_hex H L b = hx_encode H (lib_node_id L (br_root b))"

text \<open>
  \<open>operator_grant\<close> is the grant whose token \<open>mint_operator_grant\<close> returns. The expiry is a plain
  addition (it wraps in the release profile), and so is the nonce counter.
\<close>

definition operator_policy :: "'i cap_bridge \<Rightarrow> string \<Rightarrow> u64 \<Rightarrow> policy" where
  "operator_policy b aud now =
     simple_policy [ABILITY_OPERATOR, ability_for_aud aud] (br_resource b)
       (default_conditions\<lparr>cd_not_after := Some (now + br_ttl_secs b)\<rparr>)"

definition operator_grant :: "hex_lib \<Rightarrow> ('i, 's) cap_lib \<Rightarrow> 'i cap_bridge \<Rightarrow> string \<Rightarrow> string \<Rightarrow> u64 \<Rightarrow>
    (string + 's grant) \<times> 'i cap_bridge" where
  "operator_grant H L b node_hex aud now =
     (case principal_parse H node_hex of
        Inl e \<Rightarrow> (Inl (''device CE NodeId '' @ node_hex @ '' is not a valid principal''), b)
      | Inr audience \<Rightarrow>
          (map_err (\<lambda>e. ''mint operator grant'')
             (mint H L (br_iam b) (br_root b) audience (operator_policy b aud now) (br_nonce b)),
           b\<lparr>br_nonce := br_nonce b + 1\<rparr>))"

definition mint_operator_grant :: "hex_lib \<Rightarrow> ('i, 's) cap_lib \<Rightarrow> 'i cap_bridge \<Rightarrow> string \<Rightarrow> string \<Rightarrow> u64 \<Rightarrow>
    (string + string) \<times> 'i cap_bridge" where
  "mint_operator_grant H L b node_hex aud now =
     (case operator_grant H L b node_hex aud now of (r, b') \<Rightarrow> (and_then r (\<lambda>g. Inr (gr_token g)), b'))"

text \<open>What the two patterns expand to under the bridge's own universe.\<close>

lemma aud_not_operator: "\<not> starts_with ABILITY_OPERATOR (''aud:'' @ s)" "ABILITY_OPERATOR \<noteq> ''aud:'' @ s"
  by (simp_all add: ABILITY_OPERATOR_def starts_with_def)

lemma trim_start_rev_keeps:
  assumes "\<And>x. x \<in> set q \<Longrightarrow> plain_char x" "q \<noteq> []"
  shows "\<exists>r'. trim_start_rev (r @ q) = r' @ q"
proof (induction r rule: trim_start_rev.induct)
  case (2 a b)
  from assms obtain c s where "q = c # s" "plain_char c" by (cases q) auto
  then show ?case
    using 2 by (auto simp: plain_char_not_ws trim_start_rev_plain intro: exI [of _ "[]"])
next
  case (3 a)
  from assms obtain c s where q: "q = c # s" "plain_char c" by (cases q) auto
  then have "\<not> ws3 x c a" for x
    by (auto simp: plain_char_def ws3_def)
  with q show ?case
    by (cases s) (auto simp: plain_char_not_ws trim_start_rev_plain)
next
  case 4
  from assms show ?case
    by (auto simp: trim_start_rev_plain intro: exI [of _ "[]"])
qed auto

lemma trim_keeps:
  assumes "\<And>x. x \<in> set p \<Longrightarrow> plain_char x" "p \<noteq> []"
  shows "\<exists>t. trim (p @ s) = p @ t"
proof -
  obtain r where "trim_start_rev (rev s @ rev p) = r @ rev p"
    using trim_start_rev_keeps [of "rev p" "rev s"] assms by auto
  moreover have "trim_start (p @ s) = p @ s"
    using assms by (intro trim_start_plain) (cases p; simp)
  ultimately have "trim (p @ s) = p @ rev r"
    by (simp add: trim_def trim_end_def)
  then show ?thesis ..
qed

text \<open>A wildcard that begins unlike every action of the universe grants nothing.\<close>

lemma glob_outside:
  assumes "glob_grants universe (q @ t) u" "\<forall>v \<in> set universe. \<not> starts_with v q"
    and "q = [] \<or> last q \<noteq> CHR ''*''"
  shows "strip_suffix_char (q @ t) (CHR ''*'') = None"
proof (rule ccontr)
  assume "strip_suffix_char (q @ t) (CHR ''*'') \<noteq> None"
  then obtain p where p: "strip_suffix_char (q @ t) (CHR ''*'') = Some p" by blast
  with assms(1) have "u \<in> set universe" "starts_with u p" "q @ t = p @ [CHR ''*'']"
    by (auto simp: glob_grants_def strip_suffix_char_Some)
  moreover from this(3) assms(3) have "starts_with p q"
    by (cases t rule: rev_cases) auto
  ultimately show False
    using assms(2) starts_with_trans by blast
qed

lemma operator_actions:
  assumes "expand_actions (with_action_universe iam_new [ABILITY_OPERATOR])
      [ABILITY_OPERATOR, ability_for_aud aud] = Inr out"
  shows "set out = {ABILITY_OPERATOR, trim (ability_for_aud aud)}"
proof -
  let ?U = "iam_universe (with_action_universe iam_new [ABILITY_OPERATOR])"
  have op: "trim ABILITY_OPERATOR = ABILITY_OPERATOR"
      "strip_suffix_char ABILITY_OPERATOR (CHR ''*'') = None"
    by code_simp+
  have "\<exists>t. trim (ability_for_aud aud) = ''aud:'' @ t"
    unfolding ability_for_aud_def by (rule trim_keeps) (auto simp: plain_char_def)
  then obtain t where t: "trim (ability_for_aud aud) = ''aud:'' @ t" ..
  obtain u where u: "glob_grants ?U (''aud:'' @ t) u"
    using assms unfolding expand_actions_Inr by (auto simp: t glob_list_nonempty)
  have "strip_suffix_char (''aud:'' @ t) (CHR ''*'') = None"
  proof (rule glob_outside [OF u])
    show "\<forall>v \<in> set ?U. \<not> starts_with v ''aud:''"
      by (simp add: with_action_universe_def ABILITY_OPERATOR_def starts_with_def)
  qed simp
  with op show ?thesis
    unfolding expand_actions_set [OF assms] by (auto simp: glob_grants_def t)
qed


definition demo_bridge :: "node_id cap_bridge" where
  "demo_bridge = bridge_new 7 (demo_node 1) RMAny 600"

definition demo_device_hex :: string where
  "demo_device_hex = concat (replicate 32 ''02'')"

definition demo_operator_grant :: "capability grant" where
  "demo_operator_grant = \<lparr>gr_chain = [demo_issue (demo_node 1) (demo_node 2) [''aud:web'', ''auth:operator''] RAny
       (to_caveats (default_conditions\<lparr>cd_not_after := Some 605\<rparr>)) 7 None], gr_token = ''#''\<rparr>"

abbreviation demo_bridge_lib :: "(node_id, capability) cap_lib" where
  "demo_bridge_lib \<equiv> demo_lib (gr_chain demo_operator_grant)"

lemma demo_bridge_mints: "fst (operator_grant own_hex demo_bridge_lib demo_bridge demo_device_hex ''web'' 5) = Inr demo_operator_grant"
  by code_simp


text \<open>
  The lifetime is added without a check: near the largest clock value the sum wraps, and a grant is
  born expired, or, at zero, without an expiry.
\<close>

lemma operator_expiry_wraps:
  "cd_not_after (st_conditions (hd (pol_statements (operator_policy b aud now)))) = Some (now + br_ttl_secs b)"
  by (simp add: operator_policy_def simple_policy_def policy_allow_def)

lemma operator_nonce_advances:
  "br_nonce (snd (operator_grant H L b node_hex aud now)) =
     (case principal_parse H node_hex of Inl e \<Rightarrow> br_nonce b | Inr a \<Rightarrow> br_nonce b + 1)"
  by (simp add: operator_grant_def split: sum.split)

end
