(* ===== verification/NodeAuth.thy ===== *)
theory NodeAuth
  imports Bridge
begin

text \<open>
  \<open>nodeauth.rs\<close>: the responder with which a node vouches for the browser peers of its user. A vouch is
  a root capability of the node for itself, whose abilities name the peer and the display name. The
  responder is a state machine over the events its loop awaits; what it publishes and replies are
  effects. The mesh client and \<open>serde_json\<close> are parameters.
\<close>

section \<open>Topics and abilities\<close>

definition T_ANNOUNCE :: string where
  "T_ANNOUNCE = ''ce-iam/nodes/announce''"

definition T_DIRECT :: string where
  "T_DIRECT = ''ce-iam/auth''"

definition ABILITY_LOGIN :: string where
  "ABILITY_LOGIN = ''account:login''"

definition t_req :: "string \<Rightarrow> string" where
  "t_req node_id = ''ce-iam/auth/req/'' @ node_id"

definition t_resp :: "string \<Rightarrow> string" where
  "t_resp peer_id = ''ce-iam/auth/resp/'' @ peer_id"

definition ability_peer :: "string \<Rightarrow> string" where
  "ability_peer peer_id = ''account:peer:'' @ peer_id"

definition ability_name :: "string \<Rightarrow> string" where
  "ability_name name = ''account:name:'' @ name"

section \<open>Requests\<close>

record auth_req =
  rq_peer_id :: string
  rq_name :: string
  rq_nonce :: string
  rq_abilities :: "string list"

text \<open>
  What \<open>serde\<close> derives for \<open>AuthReq\<close>: the camel-case fields of an object, or an array of the fields in
  order; the name and the abilities have defaults when absent. \<open>None\<close> is a shape error.
\<close>

fun as_strings :: "json list \<Rightarrow> string list option" where
  "as_strings [] = Some []"
| "as_strings (v # vs) =
     Option.bind (as_str v) (\<lambda>s. Option.bind (as_strings vs) (\<lambda>ss. Some (s # ss)))"

definition string_array :: "json \<Rightarrow> string list option" where
  "string_array v = Option.bind (as_array v) as_strings"

definition auth_req_of_json :: "json \<Rightarrow> auth_req option" where
  "auth_req_of_json v =
     (case v of
        JObj m \<Rightarrow>
          Option.bind (field_str v ''peerId'') (\<lambda>peer.
          Option.bind (field_str_default v ''name'') (\<lambda>name.
          Option.bind (field_str v ''nonce'') (\<lambda>nonce.
          Option.bind (case json_get v ''abilities'' of None \<Rightarrow> Some [] | Some a \<Rightarrow> string_array a) (\<lambda>ab.
          Some \<lparr>rq_peer_id = peer, rq_name = name, rq_nonce = nonce, rq_abilities = ab\<rparr>))))
      | JArr [p, n, c] \<Rightarrow>
          Option.bind (as_str p) (\<lambda>peer. Option.bind (as_str n) (\<lambda>name. Option.bind (as_str c) (\<lambda>nonce.
          Some \<lparr>rq_peer_id = peer, rq_name = name, rq_nonce = nonce, rq_abilities = []\<rparr>)))
      | JArr [p, n, c, a] \<Rightarrow>
          Option.bind (as_str p) (\<lambda>peer. Option.bind (as_str n) (\<lambda>name. Option.bind (as_str c) (\<lambda>nonce.
          Option.bind (string_array a) (\<lambda>ab.
          Some \<lparr>rq_peer_id = peer, rq_name = name, rq_nonce = nonce, rq_abilities = ab\<rparr>))))
      | _ \<Rightarrow> None)"

section \<open>The responder\<close>

record 'i responder =
  na_identity :: 'i
  na_node_id_hex :: string
  na_iam :: iam
  na_label :: string
  na_owner :: "string option"
  na_auto_approve :: bool
  na_allowed_prefixes :: "string list"
  na_nonce :: u64

text \<open>The seed of the nonce is the wall clock in seconds.\<close>

definition with_allowed :: "hex_lib \<Rightarrow> ('i, 's) cap_lib \<Rightarrow> u64 \<Rightarrow> 'i \<Rightarrow> iam \<Rightarrow> string \<Rightarrow> string option \<Rightarrow>
    bool \<Rightarrow> string list \<Rightarrow> 'i responder" where
  "with_allowed H L seed identity iam label owner auto_approve allowed_prefixes =
     \<lparr>na_identity = identity, na_node_id_hex = hx_encode H (lib_node_id L identity), na_iam = iam,
      na_label = label, na_owner = owner, na_auto_approve = auto_approve,
      na_allowed_prefixes = allowed_prefixes, na_nonce = seed\<rparr>"

definition responder_new :: "hex_lib \<Rightarrow> ('i, 's) cap_lib \<Rightarrow> u64 \<Rightarrow> 'i \<Rightarrow> iam \<Rightarrow> string \<Rightarrow> string option \<Rightarrow>
    bool \<Rightarrow> 'i responder" where
  "responder_new H L seed identity iam label owner auto_approve =
     with_allowed H L seed identity iam label owner auto_approve []"

definition grantable :: "'i responder \<Rightarrow> string list \<Rightarrow> string list" where
  "grantable r requested =
     filter (\<lambda>a. na_allowed_prefixes r = [] \<or> list_ex (\<lambda>p. starts_with a p) (na_allowed_prefixes r)) requested"

definition announce_payload :: "'w wire \<Rightarrow> 'i responder \<Rightarrow> 'w" where
  "announce_payload W r = w_print W (json_obj
     [(''nodeId'', JStr (na_node_id_hex r)), (''label'', JStr (na_label r)),
      (''owner'', case na_owner r of None \<Rightarrow> JNull | Some s \<Rightarrow> JStr s)])"

text \<open>\<open>vouch_grant\<close> is the grant whose token \<open>vouch_token\<close> returns with the abilities it was asked for.\<close>

definition vouch_actions :: "string \<Rightarrow> string \<Rightarrow> string list \<Rightarrow> string list" where
  "vouch_actions peer_id name app_abilities =
     [ABILITY_LOGIN, ability_peer peer_id, ability_name name] @ app_abilities"

definition vouch_grant :: "hex_lib \<Rightarrow> ('i, 's) cap_lib \<Rightarrow> 'i responder \<Rightarrow> string \<Rightarrow> string \<Rightarrow> string list \<Rightarrow>
    (string + 's grant) \<times> 'i responder" where
  "vouch_grant H L r peer_id name app_abilities =
     (map_err (\<lambda>e. ''mint vouch cap'')
        (mint H L (na_iam r) (na_identity r) (Principal (lib_node_id L (na_identity r)))
           (simple_policy (vouch_actions peer_id name app_abilities) RMAny default_conditions) (na_nonce r)),
      r\<lparr>na_nonce := na_nonce r + 1\<rparr>)"

definition vouch_token :: "hex_lib \<Rightarrow> ('i, 's) cap_lib \<Rightarrow> 'i responder \<Rightarrow> string \<Rightarrow> string \<Rightarrow> string list \<Rightarrow>
    (string + string \<times> string list) \<times> 'i responder" where
  "vouch_token H L r peer_id name app_abilities =
     (case vouch_grant H L r peer_id name app_abilities of (res, r') \<Rightarrow>
        (and_then res (\<lambda>g. Inr (gr_token g, vouch_actions peer_id name app_abilities)), r'))"

section \<open>The two handlers\<close>

datatype 'w na_effect =
    Publish string 'w
  | Reply u64 'w
  | Subscribe string

definition vouch_response :: "'i responder \<Rightarrow> auth_req \<Rightarrow> string \<Rightarrow> string \<times> string list \<Rightarrow> json" where
  "vouch_response r req name res = json_obj
     [(''nonce'', JStr (rq_nonce req)), (''cap'', JStr (fst res)), (''nodeId'', JStr (na_node_id_hex r)),
      (''name'', JStr name), (''abilities'', JArr (map JStr (snd res)))]"

definition req_name :: "auth_req \<Rightarrow> string" where
  "req_name req = (if rq_name req = [] then ''pilot'' else rq_name req)"

definition decode_req :: "'w wire \<Rightarrow> 'w \<Rightarrow> string + auth_req" where
  "decode_req W payload = and_then (w_parse W payload) (\<lambda>v. ok_or (auth_req_of_json v) (w_error W v))"

text \<open>
  \<open>send\<close> is the outcome of the client's call. A vouch that cannot be sent has used a nonce all the same.
\<close>

definition handle_req :: "hex_lib \<Rightarrow> ('i, 's) cap_lib \<Rightarrow> 'w wire \<Rightarrow> (string + unit) \<Rightarrow> 'w \<Rightarrow> 'i responder \<Rightarrow>
    (string + unit) \<times> 'i responder \<times> 'w na_effect list" where
  "handle_req H L W send payload r =
     (case decode_req W payload of
        Inl e \<Rightarrow> (Inl (''decode auth request: '' @ e), r, [])
      | Inr req \<Rightarrow>
          if \<not> na_auto_approve r then (Inr (), r, [])
          else (case vouch_token H L r (rq_peer_id req) (req_name req) (grantable r (rq_abilities req)) of
              (Inl e, r') \<Rightarrow> (Inl e, r', [])
            | (Inr res, r') \<Rightarrow>
                (map_err (\<lambda>e. ''publish auth response: '' @ e) send, r',
                 [Publish (t_resp (rq_peer_id req)) (w_print W (vouch_response r req (req_name req) res))])))"

definition handle_direct :: "hex_lib \<Rightarrow> ('i, 's) cap_lib \<Rightarrow> 'w wire \<Rightarrow> (string + unit) \<Rightarrow> u64 \<Rightarrow> 'w \<Rightarrow>
    'i responder \<Rightarrow> (string + unit) \<times> 'i responder \<times> 'w na_effect list" where
  "handle_direct H L W send token payload r =
     (case decode_req W payload of
        Inl e \<Rightarrow> (Inl (''decode direct auth request: '' @ e), r, [])
      | Inr req \<Rightarrow>
          if \<not> na_auto_approve r then (Inr (), r, [])
          else (case vouch_token H L r (rq_peer_id req) (req_name req) (grantable r (rq_abilities req)) of
              (Inl e, r') \<Rightarrow> (Inl e, r', [])
            | (Inr res, r') \<Rightarrow>
                (map_err (\<lambda>e. ''reply to direct auth request: '' @ e) send, r',
                 [Reply token (w_print W (vouch_response r req (req_name req) res))])))"

section \<open>The loop\<close>

text \<open>
  The loop waits for the message stream, for a backoff to pass, or inside a stream for the first of
  a shutdown, a tick and an item. The interval's ticks and the stream's items arrive in any order.
  The shutdown is not awaited while the stream is being opened.
\<close>

record 'w na_message =
  ms_topic :: string
  ms_reply_token :: "u64 option"
  ms_payload :: "string + 'w"

datatype na_phase =
    Connecting u64
  | BackingOff u64
  | Streaming
  | Ended

datatype 'w na_event =
    Opened
  | OpenFailed
  | Elapsed
  | Shutdown
  | Tick
  | Item "'w na_message" "string + unit"
  | StreamError
  | StreamEnd

definition on_message :: "hex_lib \<Rightarrow> ('i, 's) cap_lib \<Rightarrow> 'w wire \<Rightarrow> (string + unit) \<Rightarrow> 'w na_message \<Rightarrow>
    'i responder \<Rightarrow> 'i responder \<times> 'w na_effect list" where
  "on_message H L W send m r =
     (if ms_reply_token m \<noteq> None \<and> ms_topic m = T_DIRECT then
        (case ms_payload m of
           Inl e \<Rightarrow> (r, [])
         | Inr p \<Rightarrow> snd (handle_direct H L W send (the (ms_reply_token m)) p r))
      else if ms_topic m = t_req (na_node_id_hex r) then
        (case ms_payload m of
           Inl e \<Rightarrow> (r, [])
         | Inr p \<Rightarrow> snd (handle_req H L W send p r))
      else (r, []))"

text \<open>\<open>None\<close> is an event that the loop does not await in its phase.\<close>

fun na_step :: "hex_lib \<Rightarrow> ('i, 's) cap_lib \<Rightarrow> 'w wire \<Rightarrow> 'w na_event \<Rightarrow> na_phase \<times> 'i responder \<Rightarrow>
    ((na_phase \<times> 'i responder) \<times> 'w na_effect list) option" where
  "na_step H L W Opened (Connecting b, r) = Some ((Streaming, r), [])"
| "na_step H L W OpenFailed (Connecting b, r) = Some ((BackingOff b, r), [])"
| "na_step H L W Elapsed (BackingOff b, r) = Some ((Connecting (min (b * 2) 10000), r), [])"
| "na_step H L W Shutdown (BackingOff b, r) = Some ((Ended, r), [])"
| "na_step H L W Shutdown (Streaming, r) = Some ((Ended, r), [])"
| "na_step H L W Tick (Streaming, r) =
     Some ((Streaming, r), [Publish T_ANNOUNCE (announce_payload W r)])"
| "na_step H L W (Item m send) (Streaming, r) =
     (case on_message H L W send m r of (r', eff) \<Rightarrow> Some ((Streaming, r'), eff))"
| "na_step H L W StreamError (Streaming, r) = Some ((Connecting 250, r), [])"
| "na_step H L W StreamEnd (Streaming, r) = Some ((Connecting 250, r), [])"
| "na_step H L W _ _ = None"

definition na_start :: "'w wire \<Rightarrow> (string + unit) \<Rightarrow> 'i responder \<Rightarrow>
    string + (na_phase \<times> 'i responder) \<times> 'w na_effect list" where
  "na_start W subscribed r =
     and_then (map_err (\<lambda>e. ''subscribe auth req topic: '' @ e) subscribed) (\<lambda>_.
       Inr ((Connecting 250, r),
            [Subscribe (t_req (na_node_id_hex r)), Publish T_ANNOUNCE (announce_payload W r)]))"

fun na_run :: "hex_lib \<Rightarrow> ('i, 's) cap_lib \<Rightarrow> 'w wire \<Rightarrow> 'w na_event list \<Rightarrow> na_phase \<times> 'i responder \<Rightarrow>
    ((na_phase \<times> 'i responder) \<times> 'w na_effect list) option" where
  "na_run H L W [] c = Some (c, [])"
| "na_run H L W (e # es) c =
     Option.bind (na_step H L W e c) (\<lambda>(c', eff).
     Option.bind (na_run H L W es c') (\<lambda>(c'', eff'). Some (c'', eff @ eff')))"

section \<open>What a vouch lets through\<close>

lemma vouch_grant_Inr:
  assumes "vouch_grant H L r peer name app = (Inr g, r')"
  obtains abilities where "expand_actions (na_iam r) (vouch_actions peer name app) = Inr abilities"
    and "g = grant_from_chain L [lib_issue L (na_identity r) (lib_node_id L (na_identity r)) abilities RAny
      (to_caveats default_conditions) (na_nonce r) None]" and "r' = r\<lparr>na_nonce := na_nonce r + 1\<rparr>"
proof -
  from assms have m: "mint H L (na_iam r) (na_identity r) (Principal (lib_node_id L (na_identity r)))
      (simple_policy (vouch_actions peer name app) RMAny default_conditions) (na_nonce r) = Inr g"
    and r': "r' = r\<lparr>na_nonce := na_nonce r + 1\<rparr>"
    by (auto simp: vouch_grant_def)
  from m obtain abilities res where "expand_actions (na_iam r) (vouch_actions peer name app) = Inr abilities"
    and "to_cap_resource H RMAny = Inr res"
    and "g = grant_from_chain L [lib_issue L (na_identity r)
      (principal_node_id (Principal (lib_node_id L (na_identity r)))) abilities res
      (to_caveats default_conditions) (na_nonce r) None]"
    by (rule mint_simple)
  with r' that show ?thesis by (simp add: to_cap_resource_def)
qed

lemma no_expiry: "cv_not_before (to_caveats default_conditions) = 0" "cv_not_after (to_caveats default_conditions) = 0"
  by (simp_all add: to_caveats_def default_conditions_def unwrap_or_def)

lemma vouch_verifies:
  assumes "issue_law L" "authorize_law L K" "vouch_grant H L r peer name app = (Inr g, r')"
    and "guarded_decode L v (gr_token g) = Inr (gr_chain g)"
  shows "verify L v self tags t requester action (gr_token g) revoked = Inr () \<longleftrightarrow>
    lib_node_id L (na_identity r) \<in> insert self (set (iam_roots v)) \<and>
    ck_signature K (hd (gr_chain g)) \<and> ck_resource K RAny self tags \<and>
    \<not> revoked (lib_node_id L (na_identity r)) (na_nonce r) \<and>
    requester = Principal (lib_node_id L (na_identity r)) \<and>
    (\<exists>x \<in> set (vouch_actions peer name app). glob_grants (iam_universe (na_iam r)) (trim x) action)"
proof -
  obtain abilities where ab: "expand_actions (na_iam r) (vouch_actions peer name app) = Inr abilities"
    and g: "g = grant_from_chain L [lib_issue L (na_identity r) (lib_node_id L (na_identity r)) abilities RAny
      (to_caveats default_conditions) (na_nonce r) None]"
    using assms(3) by (rule vouch_grant_Inr)
  from expand_actions_set [OF ab] show ?thesis
    by (simp add: root_grant_verifies [OF assms(1,2) g assms(4)] no_expiry)
qed

text \<open>A pattern that begins with a plain word grants only actions of the universe or one that begins so.\<close>

lemma plain_glob:
  assumes "glob_grants universe (trim a) u" "starts_with a p" "p \<noteq> []" "\<And>x. x \<in> set p \<Longrightarrow> plain_char x"
  shows "u \<in> set universe \<or> (u = trim a \<and> starts_with u p)"
proof -
  obtain s where "a = p @ s" using assms(2) by (auto simp: starts_with_def prefix_def)
  then obtain t where "trim a = p @ t" using trim_keeps assms(3,4) by metis
  with assms(1) show ?thesis
    by (auto simp: glob_grants_def split: option.splits)
qed

definition account_free :: "string list \<Rightarrow> bool" where
  "account_free ps \<longleftrightarrow> ps \<noteq> [] \<and> (\<forall>p \<in> set ps. p \<noteq> [] \<and> (\<forall>c \<in> set p. plain_char c) \<and>
     \<not> starts_with p ''account:'' \<and> \<not> starts_with ''account:'' p)"

lemma prefixes_comparable: "starts_with u p \<Longrightarrow> starts_with u q \<Longrightarrow> starts_with p q \<or> starts_with q p"
  unfolding starts_with_def by (metis prefix_same_cases)


text \<open>
  Without an allow-list, which is what \<open>new\<close> builds, nothing is bound: a request that lists the name
  ability of another account among its application abilities gets a token that is good for it.
\<close>

lemma open_vouch_any_name:
  assumes "issue_law L" "authorize_law L K" "na_allowed_prefixes r = []"
    and "vouch_grant H L r peer name (grantable r requested) = (Inr g, r')"
    and "guarded_decode L v (gr_token g) = Inr (gr_chain g)"
    and "ability_name other \<in> set requested" "trim (ability_name other) = ability_name other"
    and "strip_suffix_char (ability_name other) (CHR ''*'') = None"
    and "verify L v self tags t requester ABILITY_LOGIN (gr_token g) revoked = Inr ()"
  shows "verify L v self tags t requester (ability_name other) (gr_token g) revoked = Inr ()"
proof -
  have "ability_name other \<in> set (vouch_actions peer name (grantable r requested))"
    using assms(3,6) by (auto simp: vouch_actions_def grantable_def)
  moreover have "glob_grants (iam_universe (na_iam r)) (trim (ability_name other)) (ability_name other)"
    by (simp add: glob_grants_def assms(7,8))
  ultimately show ?thesis
    using assms(9) unfolding vouch_verifies [OF assms(1,2,4,5)] by blast
qed

section \<open>Runs of the loop\<close>

text \<open>What a vouch sent to a peer says, whichever way it is sent.\<close>

definition issued_with :: "hex_lib \<Rightarrow> ('i, 's) cap_lib \<Rightarrow> 'w wire \<Rightarrow> 'i responder \<Rightarrow> u64 \<Rightarrow> 'w na_effect \<Rightarrow> bool" where
  "issued_with H L W r n eff \<longleftrightarrow> (\<exists>req g. na_auto_approve r \<and>
     fst (vouch_grant H L (r\<lparr>na_nonce := n\<rparr>) (rq_peer_id req) (req_name req)
       (grantable r (rq_abilities req))) = Inr g \<and>
     (let body = w_print W (vouch_response r req (req_name req)
          (gr_token g, vouch_actions (rq_peer_id req) (req_name req) (grantable r (rq_abilities req))))
      in eff = Publish (t_resp (rq_peer_id req)) body \<or> (\<exists>token. eff = Reply token body)))"

text \<open>The effects of a step other than the announcements.\<close>

definition is_announce :: "'w na_effect \<Rightarrow> bool" where
  "is_announce eff \<longleftrightarrow> (case eff of Publish t _ \<Rightarrow> t = T_ANNOUNCE | _ \<Rightarrow> False)"

lemma t_resp_not_announce: "t_resp p \<noteq> T_ANNOUNCE"
  by (simp add: t_resp_def T_ANNOUNCE_def)

lemma vouch_token_state:
  "snd (vouch_token H L r p n a) = r\<lparr>na_nonce := na_nonce r + 1\<rparr>"
  by (simp add: vouch_token_def vouch_grant_def)

lemma vouch_token_Inr:
  assumes "vouch_token H L r p n a = (Inr res, r')"
  obtains g where "fst (vouch_grant H L r p n a) = Inr g" "res = (gr_token g, vouch_actions p n a)"
    and "r' = r\<lparr>na_nonce := na_nonce r + 1\<rparr>"
  using assms by (auto simp: vouch_token_def vouch_grant_def and_then_Inr)

definition served :: "hex_lib \<Rightarrow> ('i, 's) cap_lib \<Rightarrow> 'w wire \<Rightarrow> 'i responder \<Rightarrow> 'i responder \<times> 'w na_effect list \<Rightarrow> bool" where
  "served H L W r out \<longleftrightarrow> out = (r, []) \<or> out = (r\<lparr>na_nonce := na_nonce r + 1\<rparr>, []) \<or>
     (\<exists>eff. out = (r\<lparr>na_nonce := na_nonce r + 1\<rparr>, [eff]) \<and> \<not> is_announce eff \<and>
        issued_with H L W r (na_nonce r) eff)"

lemma served_vouch:
  assumes "na_auto_approve r" and "vouch_token H L r (rq_peer_id req) (req_name req)
      (grantable r (rq_abilities req)) = (res, r')"
    and "\<And>body. \<not> is_announce (mk body)"
    and "\<And>body. mk body = Publish (t_resp (rq_peer_id req)) body \<or> (\<exists>token. mk body = Reply token body)"
  shows "served H L W r (case res of Inl e \<Rightarrow> (r', [])
    | Inr x \<Rightarrow> (r', [mk (w_print W (vouch_response r req (req_name req) x))]))"
proof (cases res)
  case (Inl e)
  have "r' = r\<lparr>na_nonce := na_nonce r + 1\<rparr>"
    using vouch_token_state [of H L r "rq_peer_id req"] assms(2) by (metis snd_conv)
  with Inl show ?thesis by (simp add: served_def)
next
  case (Inr x)
  then obtain g where g: "fst (vouch_grant H L r (rq_peer_id req) (req_name req)
        (grantable r (rq_abilities req))) = Inr g"
      "x = (gr_token g, vouch_actions (rq_peer_id req) (req_name req) (grantable r (rq_abilities req)))"
      "r' = r\<lparr>na_nonce := na_nonce r + 1\<rparr>"
    using assms(2) by (auto elim: vouch_token_Inr)
  have "issued_with H L W r (na_nonce r) (mk (w_print W (vouch_response r req (req_name req) x)))"
    unfolding issued_with_def Let_def
    by (intro exI [of _ req] exI [of _ g]) (use assms(1,4) g(1,2) in simp)
  with Inr g(3) assms(3) show ?thesis by (auto simp: served_def)
qed

lemma served_direct: "served H L W r (snd (handle_direct H L W send token p r))"
proof (cases "decode_req W p")
  case (Inl e)
  then show ?thesis by (simp add: handle_direct_def served_def)
next
  case (Inr req)
  obtain res r' where vt: "vouch_token H L r (rq_peer_id req) (req_name req) (grantable r (rq_abilities req)) = (res, r')"
    by fastforce
  show ?thesis
  proof (cases "na_auto_approve r")
    case True
    have "snd (handle_direct H L W send token p r) = (case res of Inl e \<Rightarrow> (r', [])
        | Inr x \<Rightarrow> (r', [Reply token (w_print W (vouch_response r req (req_name req) x))]))"
      using Inr True vt by (cases res) (simp_all add: handle_direct_def)
    with served_vouch [OF True vt, of "Reply token"] show ?thesis
      by (simp add: is_announce_def)
  qed (use Inr in \<open>simp add: handle_direct_def served_def\<close>)
qed

lemma served_req: "served H L W r (snd (handle_req H L W send p r))"
proof (cases "decode_req W p")
  case (Inl e)
  then show ?thesis by (simp add: handle_req_def served_def)
next
  case (Inr req)
  obtain res r' where vt: "vouch_token H L r (rq_peer_id req) (req_name req) (grantable r (rq_abilities req)) = (res, r')"
    by fastforce
  show ?thesis
  proof (cases "na_auto_approve r")
    case True
    have "snd (handle_req H L W send p r) = (case res of Inl e \<Rightarrow> (r', [])
        | Inr x \<Rightarrow> (r', [Publish (t_resp (rq_peer_id req)) (w_print W (vouch_response r req (req_name req) x))]))"
      using Inr True vt by (cases res) (simp_all add: handle_req_def)
    with served_vouch [OF True vt, of "Publish (t_resp (rq_peer_id req))"] show ?thesis
      by (simp add: is_announce_def t_resp_not_announce)
  qed (use Inr in \<open>simp add: handle_req_def served_def\<close>)
qed

lemma served_message: "served H L W r (on_message H L W send m r)"
proof -
  have "served H L W r (r, [])"
    by (simp add: served_def)
  then show ?thesis
    by (auto simp: on_message_def served_direct served_req split: sum.split)
qed

lemma na_step_served:
  assumes "na_step H L W e (ph, r) = Some ((ph', r'), eff)"
  shows "served H L W r (r', filter (\<lambda>x. \<not> is_announce x) eff)"
proof (cases "\<exists>m send. e = Item m send \<and> ph = Streaming")
  case True
  then obtain m send where "on_message H L W send m r = (r', eff)"
    using assms by (auto split: prod.splits)
  with served_message [of H L W r send m] show ?thesis
    by (auto simp: served_def)
next
  case False
  with assms have "r' = r" "filter (\<lambda>x. \<not> is_announce x) eff = []"
    by (cases e; cases ph; auto simp: is_announce_def)+
  then show ?thesis by (simp add: served_def)
qed

lemma issued_with_nonce [simp]: "issued_with H L W (r\<lparr>na_nonce := x\<rparr>) n eff = issued_with H L W r n eff"
  by (simp add: issued_with_def vouch_response_def grantable_def)

lemma run_vouch_offsets:
  assumes "na_run H L W events (ph, r) = Some ((ph', r'), effects)"
  shows "\<exists>ks. sorted_wrt (<) ks \<and> (\<forall>k \<in> set ks. k < length events) \<and>
    list_all2 (\<lambda>k eff. issued_with H L W r (na_nonce r + of_nat k) eff) ks
      (filter (\<lambda>x. \<not> is_announce x) effects)"
  using assms
proof (induction events arbitrary: ph r effects)
  case Nil
  then show ?case by (intro exI [of _ "[]"]) simp
next
  case (Cons e es)
  then obtain ph1 r1 eff1 eff2 where step: "na_step H L W e (ph, r) = Some ((ph1, r1), eff1)"
    and run: "na_run H L W es (ph1, r1) = Some ((ph', r'), eff2)" and eff: "effects = eff1 @ eff2"
    by (auto simp: Option.bind_eq_Some_conv)
  from Cons.IH [OF run] obtain ks where ks: "sorted_wrt (<) ks" "\<forall>k \<in> set ks. k < length es"
    "list_all2 (\<lambda>k eff. issued_with H L W r1 (na_nonce r1 + of_nat k) eff) ks (filter (\<lambda>x. \<not> is_announce x) eff2)"
    by blast
  have shifted: "list_all2 (\<lambda>k eff. issued_with H L W r (na_nonce r + of_nat k) eff) (map Suc ks)
      (filter (\<lambda>x. \<not> is_announce x) eff2)" if "r1 = r\<lparr>na_nonce := na_nonce r + 1\<rparr>"
    using ks(3) by (simp add: that list_all2_map1 add.assoc)
  have sorted: "sorted_wrt (<) (map Suc ks)" "\<forall>k \<in> set (map Suc ks). 0 < k \<and> k < length (e # es)"
    using ks(1,2) by (simp_all add: sorted_wrt_map)
  from na_step_served [OF step] consider
      (same) "r1 = r" "filter (\<lambda>x. \<not> is_announce x) eff1 = []"
    | (failed) "r1 = r\<lparr>na_nonce := na_nonce r + 1\<rparr>" "filter (\<lambda>x. \<not> is_announce x) eff1 = []"
    | (sent) x where "r1 = r\<lparr>na_nonce := na_nonce r + 1\<rparr>" "filter (\<lambda>x. \<not> is_announce x) eff1 = [x]"
        "issued_with H L W r (na_nonce r) x"
    by (auto simp: served_def)
  then show ?case
  proof cases
    case same
    with ks eff show ?thesis by (intro exI [of _ ks]) auto
  next
    case failed
    with shifted sorted eff show ?thesis by (intro exI [of _ "map Suc ks"]) auto
  next
    case sent
    with shifted sorted eff show ?thesis by (intro exI [of _ "0 # map Suc ks"]) auto
  qed
qed

lemma distinct_offsets:
  assumes "distinct ks" "\<forall>k \<in> set ks. k < 2 ^ 64"
  shows "distinct (map (\<lambda>k. (n :: u64) + of_nat k) ks)"
proof -
  have "inj_on (\<lambda>k. n + of_nat k) (set ks)"
  proof (rule inj_onI)
    fix j k assume "j \<in> set ks" "k \<in> set ks" and "n + of_nat j = n + of_nat k"
    then have "unat (of_nat j :: u64) = unat (of_nat k :: u64)" by simp
    with assms(2) \<open>j \<in> set ks\<close> \<open>k \<in> set ks\<close> show "j = k"
      by (simp add: unat_of_nat)
  qed
  with assms(1) show ?thesis by (simp add: distinct_map)
qed


text \<open>The backoff of a run.\<close>

fun phase_ok :: "na_phase \<Rightarrow> bool" where
  "phase_ok (Connecting b) = (b \<in> {250, 500, 1000, 2000, 4000, 8000, 10000})"
| "phase_ok (BackingOff b) = (b \<in> {250, 500, 1000, 2000, 4000, 8000, 10000})"
| "phase_ok _ = True"

lemma na_step_phase: "na_step H L W e (ph, r) = Some ((ph', r'), eff) \<Longrightarrow> phase_ok ph \<Longrightarrow> phase_ok ph'"
  by (cases e; cases ph; auto split: prod.splits)

lemma na_run_phase: "na_run H L W es (ph, r) = Some ((ph', r'), eff) \<Longrightarrow> phase_ok ph \<Longrightarrow> phase_ok ph'"
proof (induction es arbitrary: ph r eff)
  case (Cons e es)
  then obtain ph1 r1 eff1 eff2 where "na_step H L W e (ph, r) = Some ((ph1, r1), eff1)"
    and "na_run H L W es (ph1, r1) = Some ((ph', r'), eff2)"
    by (auto simp: Option.bind_eq_Some_conv)
  with Cons na_step_phase show ?case by blast
qed simp

lemma na_run_append:
  "na_run H L W (es @ fs) c = Option.bind (na_run H L W es c) (\<lambda>(c', eff).
     Option.bind (na_run H L W fs c') (\<lambda>(c'', eff'). Some (c'', eff @ eff')))"
  by (induction es arbitrary: c) (auto split: Option.bind_splits prod.splits)

lemma na_run_shutdown:
  assumes "na_run H L W es c = Some ((ph, r'), eff)"
  shows "na_run H L W (es @ [Shutdown]) c =
      (case ph of Connecting _ \<Rightarrow> None | Ended \<Rightarrow> None | _ \<Rightarrow> Some ((Ended, r'), eff))"
    and "na_run H L W (es @ Shutdown # e # fs) c = None"
  using assms by (cases ph; cases e; simp add: na_run_append)+

lemma backoff_doubles:
  "na_run H L W (concat (replicate k [OpenFailed, Elapsed])) (Connecting 250, r) =
     Some ((Connecting (of_nat (min (250 * 2 ^ k) 10000)), r), [])"
proof (induction k)
  case (Suc k)
  have "concat (replicate (Suc k) [OpenFailed, Elapsed]) =
      concat (replicate k [OpenFailed, Elapsed]) @ [OpenFailed, Elapsed :: 'b na_event]"
    by (simp flip: replicate_append_same)
  moreover have "min (of_nat (min (250 * 2 ^ k) 10000) * 2) 10000 = (of_nat (min (250 * 2 ^ Suc k) 10000) :: u64)"
  proof (cases "k < 6")
    case True
    then have "k \<in> {0, 1, 2, 3, 4, 5}" by auto
    then show ?thesis by auto
  next
    case False
    then have "(2 :: nat) ^ 6 \<le> 2 ^ k" by (intro power_increasing) simp_all
    then have "min (250 * 2 ^ k) 10000 = (10000 :: nat)" "min (250 * 2 ^ Suc k) 10000 = (10000 :: nat)"
      by simp_all
    then show ?thesis by simp
  qed
  ultimately show ?case
    using Suc by (simp add: na_run_append)
qed simp

text \<open>
  The responder's life: before a reconnection it waits for one of the seven capped
  delays from 250 ms to 10 s, and \<open>k\<close> failures in a row after the start make the delay
  250 ms times two to the \<open>k\<close>, capped; a shutdown is honoured in a wait and inside a stream, but
  not awaited while a stream is being opened; after it no event is taken.
\<close>

lemma responder_life:
  assumes "na_start W subscribed r = Inr (c, eff0)" "na_run H L W es c = Some ((ph, r'), eff)"
  shows "phase_ok ph \<and>
    na_run H L W (concat (replicate k [OpenFailed, Elapsed])) c =
      Some ((Connecting (of_nat (min (250 * 2 ^ k) 10000)), r), []) \<and>
    na_run H L W (es @ [Shutdown]) c =
      (case ph of Connecting _ \<Rightarrow> None | Ended \<Rightarrow> None | _ \<Rightarrow> Some ((Ended, r'), eff)) \<and>
    na_run H L W (es @ Shutdown # e # fs) c = None"
proof -
  have c: "c = (Connecting 250, r)"
    using assms(1) by (auto simp: na_start_def and_then_Inr)
  from assms(2) have "phase_ok ph"
    unfolding c by (rule na_run_phase) simp
  with assms(2) c show ?thesis
    by (simp add: na_run_shutdown backoff_doubles)
qed

section \<open>Examples\<close>

definition demo_wire_str :: "json wire" where
  "demo_wire_str = \<lparr>w_print = (\<lambda>v. v), w_parse = Inr, w_error = (\<lambda>v. ''shape''), w_message = (\<lambda>e. ''error'')\<rparr>"

definition demo_responder :: "node_id responder" where
  "demo_responder = with_allowed own_hex demo_bridge_lib 7 (demo_node 1) iam_new ''box'' None True [''cast:'']"

definition demo_vouch :: "capability grant" where
  "demo_vouch = \<lparr>gr_chain = [demo_issue (demo_node 1) (demo_node 1)
       [''account:login'', ''account:name:ada'', ''account:peer:p'', ''cast:play''] RAny
       (to_caveats default_conditions) 7 None], gr_token = ''#''\<rparr>"

definition demo_vouch_lib :: "(node_id, capability) cap_lib" where
  "demo_vouch_lib = demo_lib (gr_chain demo_vouch)"

lemma demo_vouch_laws: "issue_law demo_vouch_lib" "authorize_law demo_vouch_lib demo_checks"
  by (simp_all add: demo_vouch_lib_def demo_issue_law demo_authorize_law)


definition demo_vouch_events :: "json na_event list" where
  "demo_vouch_events = [Opened, Tick, Item \<lparr>ms_topic = T_DIRECT, ms_reply_token = Some 3,
      ms_payload = Inr (json_obj [(''peerId'', JStr ''p''), (''name'', JStr ''ada''), (''nonce'', JStr ''n'')])\<rparr>
    (Inr ())]"

definition demo_vouch_effects :: "json na_effect list" where
  "demo_vouch_effects = (case na_run own_hex demo_vouch_lib demo_wire_str demo_vouch_events
     (Connecting 250, demo_responder) of Some (c, eff) \<Rightarrow> eff | None \<Rightarrow> [])"

lemma demo_vouch_run:
  "na_run own_hex demo_vouch_lib demo_wire_str demo_vouch_events (Connecting 250, demo_responder) =
     Some ((Streaming, demo_responder\<lparr>na_nonce := 8\<rparr>), demo_vouch_effects)"
  by code_simp


lemma responder_life_witness:
  "na_run own_hex demo_vouch_lib demo_wire_str (demo_vouch_events @ [Shutdown]) (Connecting 250, demo_responder) =
     Some ((Ended, demo_responder\<lparr>na_nonce := 8\<rparr>), demo_vouch_effects)"
proof -
  have "na_start demo_wire_str (Inr ()) demo_responder = Inr ((Connecting 250, demo_responder),
      [Subscribe (t_req (na_node_id_hex demo_responder)),
       Publish T_ANNOUNCE (announce_payload demo_wire_str demo_responder)])"
    by (simp add: na_start_def and_then_def map_err_def)
  from responder_life [OF this demo_vouch_run] show ?thesis by simp
qed

end
