(* ===== verification/Commands.thy ===== *)
theory Commands
  imports NodeAuth
begin

text \<open>
  The commands of \<open>main.rs\<close> over the components: what each reads, which store it changes and what it
  prints or fails with. A command gets the outcome of everything outside the program (the identity,
  the data directory, the clock, the node's answers, the faults of the file system) from its environment;
  \<open>cli_output\<close> is what it prints before formatting, and \<open>DeniedWith\<close> is the exit with status 1.
\<close>

record ('i, 's) cli =
  cl_hex :: hex_lib
  cl_lib :: "('i, 's) cap_lib"
  cl_identity :: "string + 'i"
  cl_scratch :: 'i
  cl_dir :: "iam_error + string"
  cl_now :: u64
  cl_pid :: string
  cl_read :: read_faults
  cl_write :: write_faults
  cl_key :: scope_key_fn
  cl_catalogs :: "catalog_log json_format"
  cl_wallets :: "wallet_map json_format"
  cl_roots :: "roots_map json_format"
  cl_devices :: "dev_map json_format"
  cl_cache :: "cached_revocations json_format"
  cl_answer :: node_answer

datatype cli_error = CIam iam_error | CIamWith string iam_error | CText string

datatype cli_output =
    Said string "string list"
  | PrintId string
  | PrintToken string
  | PrintTokenScope string scope
  | PrintScope scope
  | Allowed
  | DeniedWith iam_error
  | PrintPolicy policy
  | PrintRole role
  | PrintNames "string list" "string list"
  | PrintEffective "effective_grant list"
  | PrintAudit "audit_entry list"
  | PrintWallet "wallet_entry list"
  | PrintEntry wallet_entry scope
  | PrintRoots "(root_entry \<times> bool) list"
  | PrintDevices "(string \<times> device) list"
  | PrintRevoked nat "(string \<times> u64) list"

type_synonym cli_result = "(cli_error + cli_output) outcome \<times> fs"

definition CE_CLOUD_ACTIONS :: "string list" where
  "CE_CLOUD_ACTIONS = [''storage:read'', ''storage:write'', ''storage:list'', ''storage:delete'',
     ''db:read'', ''db:write'', ''db:admin'', ''run:deploy'', ''run:invoke'', ''run:kill'',
     ''drive:read'', ''drive:write'', ''drive:share'', ''exec'', ''sync'', ''tunnel'']"

definition ce_cloud_action_universe :: "string list" where
  "ce_cloud_action_universe = CE_CLOUD_ACTIONS"

definition iam_service :: iam where
  "iam_service = with_action_universe iam_new ce_cloud_action_universe"

section \<open>Conditions\<close>

record condition_args =
  co_expires_in :: u64
  co_activates_in :: u64
  co_max_cpu :: "u32 option"
  co_max_mem_mb :: "u32 option"
  co_max_credits :: "u64 option"
  co_allowed_ports :: "u16 list"
  co_path_prefix :: "string option"

definition build_conditions :: "u64 \<Rightarrow> condition_args \<Rightarrow> conditions" where
  "build_conditions now c =
     \<lparr>cd_not_before = (if co_activates_in c = 0 then None
        else Some (saturating_add_u64 now (co_activates_in c))),
      cd_not_after = (if co_expires_in c = 0 then None
        else Some (saturating_add_u64 now (co_expires_in c))),
      cd_max_cpu = co_max_cpu c, cd_max_mem_mb = co_max_mem_mb c, cd_max_credits = co_max_credits c,
      cd_allowed_ports = (if co_allowed_ports c = [] then None else Some (co_allowed_ports c)),
      cd_path_prefix = co_path_prefix c\<rparr>"

section \<open>Helpers\<close>

definition load_identity :: "('i, 's) cli \<Rightarrow> cli_error + 'i" where
  "load_identity E = map_err CText (cl_identity E)"

definition parse_arg :: "('i, 's) cli \<Rightarrow> string \<Rightarrow> string \<Rightarrow> cli_error + principal" where
  "parse_arg E context s = map_err (\<lambda>e. CText context) (principal_parse (cl_hex E) s)"

definition open_catalog_store :: "('i, 's) cli \<Rightarrow> fs \<Rightarrow> cli_error + catalog_store" where
  "open_catalog_store E fs = and_then (map_err CIam (cl_dir E)) (\<lambda>dir.
     map_err (CIamWith ''opening catalog: '') (catalog_store_open (cl_hex E) (cl_catalogs E) (cl_read E) dir fs))"

definition open_wallet :: "('i, 's) cli \<Rightarrow> fs \<Rightarrow> cli_error + wallet" where
  "open_wallet E fs = and_then (map_err CIam (cl_dir E)) (\<lambda>dir.
     map_err (CIamWith ''opening wallet: '') (wallet_open (cl_wallets E) (cl_read E) dir fs))"

definition open_roots :: "('i, 's) cli \<Rightarrow> fs \<Rightarrow> cli_error + roots" where
  "open_roots E fs = and_then (map_err CIam (cl_dir E)) (\<lambda>dir.
     map_err (CIamWith ''opening roots: '') (roots_open (cl_roots E) (cl_read E) dir fs))"

text \<open>The rest of a command, after an operation on a store.\<close>

definition after_op :: "(iam_error + 'a) outcome \<times> 'st \<times> fs \<Rightarrow> ('a \<Rightarrow> 'st \<Rightarrow> cli_output) \<Rightarrow> cli_result" where
  "after_op res out =
     (case res of (Stopped, st, fs) \<Rightarrow> (Stopped, fs)
      | (Returned (Inl e), st, fs) \<Rightarrow> (Returned (Inl (CIam e)), fs)
      | (Returned (Inr x), st, fs) \<Rightarrow> (Returned (Inr (out x st)), fs))"

definition with_result :: "cli_error + 'a \<Rightarrow> fs \<Rightarrow> ('a \<Rightarrow> cli_result) \<Rightarrow> cli_result" where
  "with_result r fs k = (case r of Inl e \<Rightarrow> (Returned (Inl e), fs) | Inr x \<Rightarrow> k x)"

definition pure_result :: "cli_error + cli_output \<Rightarrow> fs \<Rightarrow> cli_result" where
  "pure_result r fs = (Returned r, fs)"

section \<open>Minting and verifying\<close>

definition cmd_whoami :: "('i, 's) cli \<Rightarrow> cli_error + cli_output" where
  "cmd_whoami E = and_then (load_identity E) (\<lambda>i. Inr (PrintId (hx_encode (cl_hex E) (lib_node_id (cl_lib E) i))))"

record grant_args =
  ga_to :: string
  ga_actions :: "string list"
  ga_resource :: string
  ga_conditions :: condition_args
  ga_nonce :: u64
  ga_parent :: "string option"
  ga_role :: "string option"
  ga_json :: bool

text \<open>\<open>None\<close> of \<open>attenuate\<close> is its panic on a chain without links, which \<open>decode\<close> never returns.\<close>

definition requested_policy :: "('i, 's) cli \<Rightarrow> grant_args \<Rightarrow> cli_error + policy" where
  "requested_policy E a =
     (if ga_actions a = [] then Inl (CText ''provide --action (one or more) or --role'')
      else and_then (map_err CIam (resource_parse (cl_hex E) (ga_resource a))) (\<lambda>res.
        Inr (simple_policy (ga_actions a) res (build_conditions (cl_now E) (ga_conditions a)))))"

definition make_grant :: "('i, 's) cli \<Rightarrow> grant_args \<Rightarrow> 'i \<Rightarrow> principal \<Rightarrow> fs \<Rightarrow> cli_error + 's grant" where
  "make_grant E a identity audience fs =
     (case ga_role a of
        Some role \<Rightarrow>
          if ga_parent a \<noteq> None
          then Inl (CText ''--role mints a root grant and cannot be combined with --parent'')
          else and_then (open_catalog_store E fs) (\<lambda>store.
            map_err CIam (mint_role (cl_hex E) (cl_lib E) iam_service identity audience (cs_catalog store)
              role (ga_nonce a)))
      | None \<Rightarrow> and_then (requested_policy E a) (\<lambda>policy.
          case ga_parent a of
            None \<Rightarrow> map_err CIam (mint (cl_hex E) (cl_lib E) iam_service identity audience policy (ga_nonce a))
          | Some parent_token \<Rightarrow>
              and_then (map_err (CIamWith ''decoding --parent: '') (iam_decode (cl_lib E) iam_service parent_token))
                (\<lambda>parent. case attenuate (cl_hex E) (cl_lib E) iam_service identity parent audience policy (ga_nonce a) of
                   Some r \<Rightarrow> map_err CIam r
                 | None \<Rightarrow> Inl (CText ''panic''))))"

definition print_grant :: "('i, 's) cli \<Rightarrow> bool \<Rightarrow> 's grant \<Rightarrow> cli_error + cli_output" where
  "print_grant E json g =
     (if json then and_then (map_err CIam (inspect (cl_hex E) (cl_lib E) iam_service (gr_token g)))
        (\<lambda>scope. Inr (PrintTokenScope (gr_token g) scope))
      else Inr (PrintToken (gr_token g)))"

definition cmd_grant :: "('i, 's) cli \<Rightarrow> grant_args \<Rightarrow> fs \<Rightarrow> cli_error + cli_output" where
  "cmd_grant E a fs =
     and_then (load_identity E) (\<lambda>identity.
     and_then (parse_arg E ''parsing --to'' (ga_to a)) (\<lambda>audience.
     and_then (make_grant E a identity audience fs) (print_grant E (ga_json a))))"

record verify_args =
  ve_token :: "string option"
  ve_wallet_label :: "string option"
  ve_requester :: string
  ve_action :: string
  ve_on_node :: "string option"
  ve_tags :: "string list"
  ve_no_revocation_check :: bool
  ve_fail_closed :: bool
  ve_revocation_ttl :: u64
  ve_use_roots :: bool

definition verify_service :: "('i, 's) cli \<Rightarrow> verify_args \<Rightarrow> fs \<Rightarrow> cli_error + iam" where
  "verify_service E a fs =
     (if ve_use_roots a then and_then (open_roots E fs) (\<lambda>roots.
        Inr (with_accepted_roots iam_service (accepted_at roots (cl_now E))))
      else Inr iam_service)"

definition verify_node :: "('i, 's) cli \<Rightarrow> verify_args \<Rightarrow> 'i \<Rightarrow> cli_error + node_id" where
  "verify_node E a identity =
     (case ve_on_node a of
        Some h \<Rightarrow> and_then (parse_arg E ''parsing --on-node'' h) (\<lambda>p. Inr (principal_node_id p))
      | None \<Rightarrow> Inr (lib_node_id (cl_lib E) identity))"

definition verify_token :: "('i, 's) cli \<Rightarrow> verify_args \<Rightarrow> fs \<Rightarrow> cli_error + string" where
  "verify_token E a fs =
     (case (ve_token a, ve_wallet_label a) of
        (Some t, None) \<Rightarrow> Inr t
      | (None, Some label) \<Rightarrow> and_then (open_wallet E fs) (\<lambda>wallet.
          ok_or (wallet_token wallet label) (CText (''no grant labeled '' @ label)))
      | (Some _, Some _) \<Rightarrow> Inl (CText ''pass exactly one of --token or --wallet-label'')
      | (None, None) \<Rightarrow> Inl (CText ''pass --token or --wallet-label''))"

definition verdict :: "iam_error + unit \<Rightarrow> cli_output" where
  "verdict r = (case r of Inr _ \<Rightarrow> Allowed | Inl e \<Rightarrow> DeniedWith e)"

definition cmd_verify :: "('i, 's) cli \<Rightarrow> verify_args \<Rightarrow> fs \<Rightarrow> cli_result" where
  "cmd_verify E a fs =
     with_result (load_identity E) fs (\<lambda>identity.
     with_result (verify_service E a fs) fs (\<lambda>iam.
     with_result (parse_arg E ''parsing --requester'' (ve_requester a)) fs (\<lambda>requester.
     with_result (verify_node E a identity) fs (\<lambda>on_node.
     with_result (verify_token E a fs) fs (\<lambda>token.
     case resolve_revocation (cl_hex E) (cl_cache E) (cl_pid E) (cl_write E) (cl_read E) (cl_dir E)
            (cl_answer E) (ve_no_revocation_check a) (ve_fail_closed a) (ve_revocation_ttl a) (cl_now E) fs of
       (Stopped, fs') \<Rightarrow> (Stopped, fs')
     | (Returned (Inl e), fs') \<Rightarrow> (Returned (Inl (CIam e)), fs')
     | (Returned (Inr revset), fs') \<Rightarrow>
         (Returned (Inr (verdict (verify (cl_lib E) iam on_node (ve_tags a) (cl_now E) requester
            (ve_action a) token (rv_predicate revset)))), fs'))))))"

text \<open>The chain of the two requests: \<open>revoked\<close> asks the node twice and prints the size of the first answer.\<close>

definition cmd_revoke :: "(http_request \<Rightarrow> http_answer) \<Rightarrow> string \<Rightarrow> string option \<Rightarrow> u64 \<Rightarrow> cli_error + cli_output" where
  "cmd_revoke post node token nonce =
     and_then (map_err (CIamWith ''submitting revocation: '') (submit_revoke post node token nonce)) (\<lambda>tx_id.
       Inr (if tx_id = [] then Said ''submitted RevokeCapability for nonce'' [decimal_digits (unat nonce)]
            else Said ''submitted RevokeCapability for nonce as tx'' [decimal_digits (unat nonce), tx_id]))"

definition cmd_revoked :: "('i, 's) cli \<Rightarrow> node_answer \<Rightarrow> cli_error + cli_output" where
  "cmd_revoked E second =
     and_then (map_err (CIamWith ''fetching revoked set: '') (rv_fetch (cl_hex E) (cl_answer E))) (\<lambda>set.
     and_then (map_err (\<lambda>e. CText (''fetching revoked set: '' @ e)) second) (\<lambda>pairs.
       Inr (PrintRevoked (card (rv_revoked set)) pairs)))"

section \<open>Policies and roles\<close>

text \<open>\<open>input\<close> is what \<open>read_file_or_stdin\<close> or \<open>read_arg_or_stdin\<close> returns; \<open>parse\<close> is \<open>serde_json\<close>.\<close>

definition read_arg_or_stdin :: "string option \<Rightarrow> string + string \<Rightarrow> cli_error + string" where
  "read_arg_or_stdin arg stdin =
     (case arg of Some s \<Rightarrow> Inr s
      | None \<Rightarrow> and_then (map_err (\<lambda>e. CText ''reading stdin'') stdin) (\<lambda>s. Inr (trim s)))"

definition policy_new :: "('i, 's) cli \<Rightarrow> string list \<Rightarrow> string \<Rightarrow> condition_args \<Rightarrow> cli_error + cli_output" where
  "policy_new E actions resource conds =
     and_then (map_err CIam (resource_parse (cl_hex E) resource)) (\<lambda>res.
       Inr (PrintPolicy (simple_policy actions res (build_conditions (cl_now E) conds))))"

definition policy_validate :: "('i, 's) cli \<Rightarrow> (string \<Rightarrow> string + policy) \<Rightarrow> cli_error + string \<Rightarrow> cli_error + cli_output" where
  "policy_validate E parse input =
     and_then input (\<lambda>s.
     and_then (map_err CIam (policy_from_json parse s)) (\<lambda>policy.
     and_then (map_err (CIamWith ''policy does not compile to a grant: '')
         (mint_policy (cl_hex E) (cl_key E) (cl_lib E) iam_service (cl_scratch E)
            (Principal (lib_node_id (cl_lib E) (cl_scratch E))) policy 0)) (\<lambda>grants.
     Inr (Said ''OK: statements, capability grants''
       [decimal_digits (length (pol_statements policy)), decimal_digits (length grants)]))))"

definition policy_inspect :: "('i, 's) cli \<Rightarrow> string \<Rightarrow> cli_error + cli_output" where
  "policy_inspect E token =
     and_then (map_err CIam (inspect (cl_hex E) (cl_lib E) iam_service token)) (\<lambda>scope. Inr (PrintScope scope))"

datatype role_cmd =
    RolePut string "string option" "cli_error + string"
  | RoleGet string
  | RoleList
  | RoleRm string
  | RoleAttach string string
  | RoleDetach string string
  | RoleEffective string
  | RoleAudit u64
  | RoleCompact

definition cli_actor :: "('i, 's) cli \<Rightarrow> principal option" where
  "cli_actor E = map_option (\<lambda>i. Principal (lib_node_id (cl_lib E) i)) (ok (load_identity E))"

definition apply_op :: "('i, 's) cli \<Rightarrow> catalog_op \<Rightarrow> (catalog_store \<Rightarrow> cli_output) \<Rightarrow> fs \<Rightarrow> cli_result" where
  "apply_op E op out fs =
     with_result (open_catalog_store E fs) fs (\<lambda>store.
       after_op (catalog_store_apply (cl_hex E) (cl_catalogs E) (cl_pid E) (cl_write E) op (cli_actor E) store fs)
         (\<lambda>_ st. out st))"

fun cmd_role :: "('i, 's) cli \<Rightarrow> (string \<Rightarrow> string + policy) \<Rightarrow> role_cmd \<Rightarrow> fs \<Rightarrow> cli_result" where
  "cmd_role E parse (RolePut name description input) fs =
     with_result input fs (\<lambda>s.
     with_result (map_err CIam (policy_from_json parse s)) fs (\<lambda>policy.
       apply_op E (PutRole \<lparr>role_name = name, role_description = description, role_policy = policy\<rparr>)
         (\<lambda>st. Said ''put role (catalog version)'' [name, decimal_digits (op_count st)]) fs))"
| "cmd_role E parse (RoleGet name) fs =
     with_result (open_catalog_store E fs) fs (\<lambda>store.
       pure_result (and_then (ok_or (get_role (cs_catalog store) name) (CText (''no such role '' @ name)))
         (\<lambda>r. Inr (PrintRole r))) fs)"
| "cmd_role E parse RoleList fs =
     with_result (open_catalog_store E fs) fs (\<lambda>store.
       pure_result (Inr (PrintNames (list_roles (cs_catalog store)) (list_policies (cs_catalog store)))) fs)"
| "cmd_role E parse (RoleRm name) fs = apply_op E (RemoveRole name) (\<lambda>st. Said ''removed role'' [name]) fs"
| "cmd_role E parse (RoleAttach p role) fs =
     with_result (parse_arg E ''parsing principal'' p) fs (\<lambda>principal.
       apply_op E (AttachRole principal role)
         (\<lambda>st. Said ''attached role'' [role, principal_display (cl_hex E) principal]) fs)"
| "cmd_role E parse (RoleDetach p role) fs =
     with_result (parse_arg E ''parsing principal'' p) fs (\<lambda>principal.
       apply_op E (DetachRole principal role)
         (\<lambda>st. Said ''detached role'' [role, principal_display (cl_hex E) principal]) fs)"
| "cmd_role E parse (RoleEffective p) fs =
     with_result (parse_arg E ''parsing principal'' p) fs (\<lambda>principal.
     with_result (open_catalog_store E fs) fs (\<lambda>store.
       pure_result (and_then (map_err CIam (effective_grants (cl_hex E) (cl_key E) (cs_catalog store) principal))
         (\<lambda>eff. Inr (PrintEffective eff))) fs))"
| "cmd_role E parse (RoleAudit since) fs =
     with_result (open_catalog_store E fs) fs (\<lambda>store.
       pure_result (Inr (PrintAudit (audit_since (cs_catalog store) since))) fs)"
| "cmd_role E parse RoleCompact fs =
     with_result (open_catalog_store E fs) fs (\<lambda>store.
       after_op (catalog_store_compact (cl_hex E) (cl_catalogs E) (cl_pid E) (cl_write E) store fs)
         (\<lambda>_ st. Said ''compacted catalog op-log to ops'' [decimal_digits (op_count st)]))"

section \<open>The wallet\<close>

datatype wallet_cmd =
    WalletAdd string "string option" "string option" "string + string"
  | WalletList
  | WalletShow string
  | WalletRm string

fun cmd_wallet :: "('i, 's) cli \<Rightarrow> wallet_cmd \<Rightarrow> fs \<Rightarrow> cli_result" where
  "cmd_wallet E (WalletAdd label token note stdin) fs =
     with_result (read_arg_or_stdin token stdin) fs (\<lambda>t.
     with_result (open_wallet E fs) fs (\<lambda>wallet.
       after_op (wallet_add (cl_wallets E) (cl_lib E) iam_service (cl_pid E) (cl_write E) label t note
           (cl_now E) wallet fs)
         (\<lambda>_ _. Said ''stored grant'' [label])))"
| "cmd_wallet E WalletList fs =
     with_result (open_wallet E fs) fs (\<lambda>wallet. pure_result (Inr (PrintWallet (wallet_list wallet))) fs)"
| "cmd_wallet E (WalletShow label) fs =
     with_result (open_wallet E fs) fs (\<lambda>wallet.
       pure_result (and_then (ok_or (wallet_get wallet label) (CText (''no grant labeled '' @ label))) (\<lambda>entry.
         and_then (map_err CIam (inspect (cl_hex E) (cl_lib E) iam_service (we_token entry))) (\<lambda>scope.
           Inr (PrintEntry entry scope)))) fs)"
| "cmd_wallet E (WalletRm label) fs =
     with_result (open_wallet E fs) fs (\<lambda>wallet.
       after_op (wallet_remove (cl_wallets E) (cl_pid E) (cl_write E) label wallet fs)
         (\<lambda>removed _. if removed then Said ''removed grant'' [label] else Said ''no grant labeled'' [label]))"

section \<open>Roots\<close>

datatype root_cmd =
    RootAdd string "string option" u64 u64
  | RootList
  | RootRetire string u64
  | RootRm string
  | RootReissue string u64 bool

text \<open>The window of a new root, from its two flags.\<close>

definition root_start :: "u64 \<Rightarrow> u64 \<Rightarrow> u64" where
  "root_start now valid_in = (if valid_in = 0 then 0 else saturating_add_u64 now valid_in)"

definition root_end :: "u64 \<Rightarrow> u64 \<Rightarrow> u64 \<Rightarrow> u64" where
  "root_end now valid_in valid_for =
     (if valid_for = 0 then 0
      else let not_before = root_start now valid_in;
               start = (if not_before = 0 then now else not_before)
           in saturating_add_u64 start valid_for)"

fun cmd_root :: "('i, 's) cli \<Rightarrow> root_cmd \<Rightarrow> fs \<Rightarrow> cli_result" where
  "cmd_root E (RootAdd key_arg label valid_in valid_for) fs =
     with_result (parse_arg E ''parsing root key'' key_arg) fs (\<lambda>key.
     with_result (open_roots E fs) fs (\<lambda>roots.
       after_op (roots_add (cl_hex E) (cl_roots E) (cl_pid E) (cl_write E) key label
           (root_start (cl_now E) valid_in) (root_end (cl_now E) valid_in valid_for) roots fs)
         (\<lambda>_ _. Said ''added root'' [principal_display (cl_hex E) key])))"
| "cmd_root E RootList fs =
     with_result (open_roots E fs) fs (\<lambda>roots.
       pure_result (Inr (PrintRoots (map (\<lambda>e. (e, entry_accepted_at e (cl_now E))) (roots_all roots)))) fs)"
| "cmd_root E (RootRetire key_arg in_secs) fs =
     with_result (parse_arg E ''parsing root key'' key_arg) fs (\<lambda>key.
     with_result (open_roots E fs) fs (\<lambda>roots.
       after_op (roots_retire (cl_hex E) (cl_roots E) (cl_pid E) (cl_write E) key
           (saturating_add_u64 (cl_now E) in_secs) roots fs)
         (\<lambda>found _. Said (if found then ''retiring root'' else ''no such root'')
            [principal_display (cl_hex E) key])))"
| "cmd_root E (RootRm key_arg) fs =
     with_result (parse_arg E ''parsing root key'' key_arg) fs (\<lambda>key.
     with_result (open_roots E fs) fs (\<lambda>roots.
       after_op (roots_remove (cl_hex E) (cl_roots E) (cl_pid E) (cl_write E) key roots fs)
         (\<lambda>found _. Said (if found then ''removed root'' else ''no such root'')
            [principal_display (cl_hex E) key])))"
| "cmd_root E (RootReissue token nonce json) fs =
     pure_result (and_then (load_identity E) (\<lambda>identity.
       and_then (map_err (CIamWith ''decoding token: '') (iam_decode (cl_lib E) iam_service token)) (\<lambda>g.
       case reissue_under (cl_lib E) identity g nonce of
         Some r \<Rightarrow> and_then (map_err CIam r) (print_grant E json)
       | None \<Rightarrow> Inl (CText ''panic'')))) fs"

section \<open>Devices\<close>

datatype device_cmd =
    DeviceClaim string string "string option"
  | DeviceRequest string string "string option" string
  | DeviceList
  | DeviceApprove string
  | DeviceRevoke string

definition resolve_node_id :: "('i, 's) cli \<Rightarrow> string option \<Rightarrow> cli_error + string" where
  "resolve_node_id E explicit =
     (case explicit of
        Some s \<Rightarrow> and_then (parse_arg E ''parsing --node-id'' s) (\<lambda>_. Inr s)
      | None \<Rightarrow> and_then (load_identity E) (\<lambda>i. Inr (hx_encode (cl_hex E) (lib_node_id (cl_lib E) i))))"

definition with_devices :: "('i, 's) cli \<Rightarrow> fs \<Rightarrow> (dev_store \<Rightarrow> fs \<Rightarrow> cli_result) \<Rightarrow> cli_result" where
  "with_devices E fs k =
     with_result (map_err CIam (cl_dir E)) fs (\<lambda>dir.
     case dev_open (cl_devices E) (cl_read E) (cl_write E) (cl_now E) dir [] fs of
       (Stopped, fs') \<Rightarrow> (Stopped, fs')
     | (Returned (Inl e), fs') \<Rightarrow> (Returned (Inl (CText ''opening device store'')), fs')
     | (Returned (Inr st), fs') \<Rightarrow> k st fs')"

definition after_dev :: "'a dev_result \<Rightarrow> ('a \<Rightarrow> cli_error + cli_output) \<Rightarrow> cli_result" where
  "after_dev res out =
     (case res of (Stopped, st, fs) \<Rightarrow> (Stopped, fs)
      | (Returned (Inl e), st, fs) \<Rightarrow> (Returned (Inl (CText e)), fs)
      | (Returned (Inr x), st, fs) \<Rightarrow> (Returned (out x), fs))"

fun cmd_device :: "('i, 's) cli \<Rightarrow> device_cmd \<Rightarrow> fs \<Rightarrow> cli_result" where
  "cmd_device E (DeviceClaim dev pub_b64 node) fs =
     with_result (resolve_node_id E node) fs (\<lambda>node_id.
     with_devices E fs (\<lambda>st fs.
       after_dev (dev_claim (cl_devices E) (cl_write E) (cl_now E) dev pub_b64 node_id st fs) (\<lambda>claimed.
         if claimed then Inr (Said ''claimed device as admin'' [dev, node_id])
         else Inl (CText ''an admin device already exists''))))"
| "cmd_device E (DeviceRequest dev pub_b64 node label) fs =
     with_result (resolve_node_id E node) fs (\<lambda>node_id.
     with_devices E fs (\<lambda>st fs.
       after_dev (dev_request (cl_devices E) (cl_write E) (cl_now E) dev pub_b64 node_id label st fs) (\<lambda>role.
         Inr (Said ''device is now'' [dev, role, node_id]))))"
| "cmd_device E DeviceList fs =
     with_devices E fs (\<lambda>st fs. pure_result (Inr (PrintDevices (dev_list (ds_map st)))) fs)"
| "cmd_device E (DeviceApprove dev) fs =
     with_devices E fs (\<lambda>st fs.
       after_dev (dev_approve (cl_devices E) (cl_write E) dev st fs) (\<lambda>approved.
         if approved then Inr (Said ''approved device (now admin)'' [dev])
         else Inl (CText (''no pending device to approve: '' @ dev))))"
| "cmd_device E (DeviceRevoke dev) fs =
     with_devices E fs (\<lambda>st fs.
       after_dev (dev_revoke (cl_devices E) (cl_write E) dev st fs) (\<lambda>res.
         case res of
           Removed \<Rightarrow> Inr (Said ''revoked device'' [dev])
         | NotFound \<Rightarrow> Inl (CText (''no such device '' @ dev))
         | LastAdmin \<Rightarrow> Inl (CText ''refusing to revoke the last admin device'')))"

section \<open>The node responder\<close>

definition node_auth_responder :: "('i, 's) cli \<Rightarrow> string \<Rightarrow> string option \<Rightarrow> bool \<Rightarrow> string list \<Rightarrow>
    cli_error + 'i responder" where
  "node_auth_responder E label owner no_approve grant_prefixes =
     and_then (load_identity E) (\<lambda>identity.
       let node_id = hx_encode (cl_hex E) (lib_node_id (cl_lib E) identity)
       in Inr (with_allowed (cl_hex E) (cl_lib E) (cl_now E) identity iam_new
            (if label = [] then take 8 node_id else label) owner (\<not> no_approve) grant_prefixes))"

section \<open>A grant and its verification\<close>

lemma guarded_decode_roots [simp]: "guarded_decode L (with_accepted_roots i rs) token = guarded_decode L i token"
  by (simp add: guarded_decode_def with_accepted_roots_def cong: if_cong)

lemma with_result_ok:
  assumes "with_result r fs k = (Returned (Inr out), fs')"
  obtains x where "r = Inr x" "k x = (Returned (Inr out), fs')"
  using assms by (cases r) (auto simp: with_result_def)

text \<open>What a verification that comes to a verdict has looked up.\<close>

lemma cmd_verify_cases:
  assumes "cmd_verify E a fs = (Returned (Inr out), fs')"
  obtains identity iam requester on_node token rv where "cl_identity E = Inr identity"
    and "verify_service E a fs = Inr iam" "parse_arg E ''parsing --requester'' (ve_requester a) = Inr requester"
    and "verify_node E a identity = Inr on_node" "verify_token E a fs = Inr token"
    and "resolve_revocation (cl_hex E) (cl_cache E) (cl_pid E) (cl_write E) (cl_read E) (cl_dir E)
      (cl_answer E) (ve_no_revocation_check a) (ve_fail_closed a) (ve_revocation_ttl a) (cl_now E) fs =
      (Returned (Inr rv), fs')"
    and "out = verdict (verify (cl_lib E) iam on_node (ve_tags a) (cl_now E) requester (ve_action a) token
      (rv_predicate rv))"
proof -
  from assms obtain identity iam requester on_node token where
      "load_identity E = Inr identity" "verify_service E a fs = Inr iam"
      "parse_arg E ''parsing --requester'' (ve_requester a) = Inr requester"
      "verify_node E a identity = Inr on_node" "verify_token E a fs = Inr token"
    and rest: "(case resolve_revocation (cl_hex E) (cl_cache E) (cl_pid E) (cl_write E) (cl_read E) (cl_dir E)
            (cl_answer E) (ve_no_revocation_check a) (ve_fail_closed a) (ve_revocation_ttl a) (cl_now E) fs of
       (Stopped, fs') \<Rightarrow> (Stopped, fs')
     | (Returned (Inl e), fs') \<Rightarrow> (Returned (Inl (CIam e)), fs')
     | (Returned (Inr revset), fs') \<Rightarrow>
         (Returned (Inr (verdict (verify (cl_lib E) iam on_node (ve_tags a) (cl_now E) requester
            (ve_action a) token (rv_predicate revset)))), fs')) = (Returned (Inr out), fs')"
    unfolding cmd_verify_def by (elim with_result_ok)
  moreover from rest obtain rv where
      "resolve_revocation (cl_hex E) (cl_cache E) (cl_pid E) (cl_write E) (cl_read E) (cl_dir E)
        (cl_answer E) (ve_no_revocation_check a) (ve_fail_closed a) (ve_revocation_ttl a) (cl_now E) fs =
        (Returned (Inr rv), fs')"
      "out = verdict (verify (cl_lib E) iam on_node (ve_tags a) (cl_now E) requester (ve_action a) token
        (rv_predicate rv))"
    by (auto split: prod.splits outcome.splits sum.splits)
  ultimately show thesis
    using that by (simp add: load_identity_def)
qed

lemma verdict_Allowed: "verdict r = Allowed \<longleftrightarrow> r = Inr ()"
  by (simp add: verdict_def split: sum.split)

lemma verify_service_iam:
  "verify_service E a fs = Inr iam \<Longrightarrow> \<exists>rs. iam = with_accepted_roots iam_service rs \<or> iam = iam_service"
  by (auto simp: verify_service_def and_then_Inr split: if_splits)

lemma saturating_add_pos: "saturating_add_u64 now d = 0 \<Longrightarrow> d = 0"
proof -
  assume "saturating_add_u64 now d = 0"
  then have "min (unat now + unat d) (2 ^ 64 - 1) = 0"
    by (metis saturating_add_u64_min unat_0)
  then have "unat d = 0" by (simp add: min_def split: if_splits)
  then show "d = 0" by (simp add: unat_eq_0)
qed

lemma saturating_add_0 [simp]: "saturating_add_u64 now d = 0 \<longleftrightarrow> now = 0 \<and> d = 0"
proof
  assume sum: "saturating_add_u64 now d = 0"
  then have "d = 0" by (rule saturating_add_pos)
  moreover have "now \<le> saturating_add_u64 now d" by (rule saturating_add_u64_ge)
  ultimately show "now = 0 \<and> d = 0" using sum by simp
next
  assume "now = 0 \<and> d = 0"
  then show "saturating_add_u64 now d = 0" by (simp add: saturating_add_u64_def)
qed

lemma build_window:
  "cv_not_before (to_caveats (build_conditions now c)) = 0 \<or> cv_not_before (to_caveats (build_conditions now c)) \<le> t
     \<longleftrightarrow> co_activates_in c = 0 \<or> saturating_add_u64 now (co_activates_in c) \<le> t"
  "cv_not_after (to_caveats (build_conditions now c)) = 0 \<or> t \<le> cv_not_after (to_caveats (build_conditions now c))
     \<longleftrightarrow> co_expires_in c = 0 \<or> t \<le> saturating_add_u64 now (co_expires_in c)"
  by (auto simp: to_caveats_def build_conditions_def unwrap_or_def)

text \<open>The capability behind a root grant that was made from actions.\<close>

lemma make_grant_root:
  assumes "make_grant E a identity audience fs = Inr g" "ga_role a = None" "ga_parent a = None"
  obtains abilities rm res where "expand_actions iam_service (ga_actions a) = Inr abilities"
    and "resource_parse (cl_hex E) (ga_resource a) = Inr rm" "to_cap_resource (cl_hex E) rm = Inr res"
    and "g = grant_from_chain (cl_lib E) [lib_issue (cl_lib E) identity (principal_node_id audience) abilities res
      (to_caveats (build_conditions (cl_now E) (ga_conditions a))) (ga_nonce a) None]"
proof -
  let ?c = "build_conditions (cl_now E) (ga_conditions a)"
  from assms obtain rm where rm: "resource_parse (cl_hex E) (ga_resource a) = Inr rm"
    and m: "mint (cl_hex E) (cl_lib E) iam_service identity audience (simple_policy (ga_actions a) rm ?c)
      (ga_nonce a) = Inr g"
    by (auto simp: make_grant_def requested_policy_def and_then_Inr split: if_splits)
  from m obtain abilities res where "expand_actions iam_service (ga_actions a) = Inr abilities"
    and "to_cap_resource (cl_hex E) rm = Inr res"
    and "g = grant_from_chain (cl_lib E) [lib_issue (cl_lib E) identity (principal_node_id audience) abilities res
      (to_caveats ?c) (ga_nonce a) None]"
    by (rule mint_simple)
  with rm show thesis using that by blast
qed

text \<open>
  Property C5. End to end: a root grant that \<open>ce-iam grant\<close> makes from actions is allowed by a later
  \<open>ce-iam verify\<close> of the same node if and only if the requester is the one granted to, one of the
  action patterns covers the action, the resource and signature checks pass, the nonce is not in the
  revocation set resolved then, and the time is inside the window; a lifetime or a delay too large for
  the clock saturates, so it never makes the window end earlier or begin sooner.
\<close>

theorem cli_grant_then_verify:
  assumes "issue_law (cl_lib E)" "authorize_law (cl_lib E) K"
    and "cl_identity E = Inr identity" "ga_role a = None" "ga_parent a = None"
    and "make_grant E a identity audience fs0 = Inr g"
    and "guarded_decode (cl_lib E) iam_service (gr_token g) = Inr (gr_chain g)"
    and "cl_lib E' = cl_lib E" "cl_identity E' = cl_identity E"
    and "ve_token v = Some (gr_token g)" "ve_on_node v = None"
    and "cmd_verify E' v fs = (Returned (Inr out), fs')"
  shows "\<exists>rv requester res. parse_arg E' ''parsing --requester'' (ve_requester v) = Inr requester \<and>
    and_then (resource_parse (cl_hex E) (ga_resource a)) (to_cap_resource (cl_hex E)) = Inr res \<and>
    fst (resolve_revocation (cl_hex E') (cl_cache E') (cl_pid E') (cl_write E') (cl_read E') (cl_dir E')
      (cl_answer E') (ve_no_revocation_check v) (ve_fail_closed v) (ve_revocation_ttl v) (cl_now E') fs) =
      Returned (Inr rv) \<and>
    (out = Allowed \<longleftrightarrow>
       requester = audience \<and>
       (\<exists>x \<in> set (ga_actions a). glob_grants (iam_universe iam_service) (trim x) (ve_action v)) \<and>
       ck_signature K (hd (gr_chain g)) \<and> ck_resource K res (lib_node_id (cl_lib E) identity) (ve_tags v) \<and>
       \<not> is_revoked rv (lib_node_id (cl_lib E) identity) (ga_nonce a) \<and>
       (co_activates_in (ga_conditions a) = 0 \<or>
          saturating_add_u64 (cl_now E) (co_activates_in (ga_conditions a)) \<le> cl_now E') \<and>
       (co_expires_in (ga_conditions a) = 0 \<or>
          cl_now E' \<le> saturating_add_u64 (cl_now E) (co_expires_in (ga_conditions a))))"
proof -
  let ?c = "build_conditions (cl_now E) (ga_conditions a)" and ?self = "lib_node_id (cl_lib E) identity"
  obtain identity' iam requester on_node token rv where looked:
      "cl_identity E' = Inr identity'" "verify_service E' v fs = Inr iam"
      "parse_arg E' ''parsing --requester'' (ve_requester v) = Inr requester"
      "verify_node E' v identity' = Inr on_node" "verify_token E' v fs = Inr token"
    and rev: "resolve_revocation (cl_hex E') (cl_cache E') (cl_pid E') (cl_write E') (cl_read E') (cl_dir E')
      (cl_answer E') (ve_no_revocation_check v) (ve_fail_closed v) (ve_revocation_ttl v) (cl_now E') fs =
      (Returned (Inr rv), fs')"
    and out: "out = verdict (verify (cl_lib E') iam on_node (ve_tags v) (cl_now E') requester (ve_action v)
      token (rv_predicate rv))"
    using assms(12) by (rule cmd_verify_cases)
  have same: "on_node = ?self" "token = gr_token g"
    using looked(1,4,5) assms(3,8-11)
    by (auto simp: verify_node_def verify_token_def split: option.splits)
  have dec: "guarded_decode (cl_lib E) iam (gr_token g) = Inr (gr_chain g)"
    using verify_service_iam [OF looked(2)] assms(7) by auto
  obtain abilities rm res where ab: "expand_actions iam_service (ga_actions a) = Inr abilities"
    and rm: "resource_parse (cl_hex E) (ga_resource a) = Inr rm" and res: "to_cap_resource (cl_hex E) rm = Inr res"
    and g: "g = grant_from_chain (cl_lib E) [lib_issue (cl_lib E) identity (principal_node_id audience) abilities res
      (to_caveats ?c) (ga_nonce a) None]"
    using assms(6,4,5) by (rule make_grant_root)
  have "Principal (principal_node_id audience) = audience" by (cases audience) simp
  then have "out = Allowed \<longleftrightarrow>
      requester = audience \<and>
      (\<exists>x \<in> set (ga_actions a). glob_grants (iam_universe iam_service) (trim x) (ve_action v)) \<and>
      ck_signature K (hd (gr_chain g)) \<and> ck_resource K res ?self (ve_tags v) \<and>
      \<not> is_revoked rv ?self (ga_nonce a) \<and>
      (co_activates_in (ga_conditions a) = 0 \<or>
         saturating_add_u64 (cl_now E) (co_activates_in (ga_conditions a)) \<le> cl_now E') \<and>
      (co_expires_in (ga_conditions a) = 0 \<or>
         cl_now E' \<le> saturating_add_u64 (cl_now E) (co_expires_in (ga_conditions a)))"
    unfolding out verdict_Allowed same assms(8) root_grant_verifies [OF assms(1,2) g dec] build_window
    by (auto simp: expand_actions_set [OF ab] rv_predicate_def)
  with looked(3) rm res rev show ?thesis
    by (intro exI [of _ rv] exI [of _ requester] exI [of _ res]) (simp add: and_then_def)
qed

section \<open>A root added on the command line\<close>

lemma load_after_write:
  assumes "json_law J" "atomic_write_json J pid F p v fs = (Returned (Inr ()), fs')"
    and "load_json_or_default J d R p fs' = Inr x"
  shows "x = v"
proof -
  have "ok (jf_print J v) \<noteq> None" "fs' (path_key p) = ok (jf_print J v)"
    using json_file.put_ok [OF assms(2)] by auto
  then obtain s where "jf_print J v = Inr s" "fs' (path_key p) = Some s"
    by (auto simp: ok_def split: sum.splits)
  then show ?thesis
    using assms(1,3) by (auto simp: load_json_or_default_def json_law_def split: option.splits if_splits)
qed

lemma open_roots_Inr:
  "open_roots E fs = Inr r \<longleftrightarrow> (\<exists>dir m. cl_dir E = Inr dir \<and>
     load_json_or_default (cl_roots E) [] (cl_read E) (path_join dir ''roots.json'') fs = Inr m \<and>
     r = \<lparr>ro_roots = m, ro_path = Some (path_join dir ''roots.json'')\<rparr>)"
  by (auto simp: open_roots_def roots_open_def Let_def and_then_Inr)

lemma roots_add_saved:
  assumes "roots_add H J pid F key label nb na r fs = (Returned (Inr ()), r', fs')" "ro_path r = Some p"
  shows "atomic_write_json J pid F p (ro_roots r') fs = (Returned (Inr ()), fs')"
  using assms by (auto simp: roots_add_def roots_save_def save_opt_def Let_def split: if_splits prod.splits)

lemma after_op_ok:
  assumes "after_op res out = (Returned (Inr x), fs')"
  obtains y st where "res = (Returned (Inr y), st, fs')" "x = out y st"
  using assms by (auto simp: after_op_def split: prod.splits outcome.splits sum.splits)

lemma roots_add_window:
  assumes "hex_lib_ok H" "roots_inv H r" "roots_add H J pid F key label nb na r fs = (Returned (Inr ()), r', fs')"
  shows "is_accepted r' (principal_node_id q) t =
    (if q = key then (nb = 0 \<or> nb \<le> t) \<and> (na = 0 \<or> t \<le> na) else is_accepted r (principal_node_id q) t)"
  unfolding is_accepted_iff accepted_iff [OF assms(1,2)] accepted_iff [OF assms(1) roots_add_inv [OF assms(2,3)]]
  using roots_add_entries [OF assms(3)] principal_hex_inj [OF assms(1), of q key]
  by (auto simp: btree_simps entry_accepted_at_def not_less not_le)

text \<open>
  Property C36. Every later invocation sees the root: after \<open>root add\<close> has succeeded, the file opens to a
  set that accepts the key exactly from its start (now plus the delay) to its end (start plus the
  lifetime), both saturating and unbounded when the flag is zero, and every other root as before.
\<close>

theorem cli_root_add_window:
  assumes "hex_lib_ok (cl_hex E)" "json_law (cl_roots E)" "open_roots E fs = Inr r0" "roots_inv (cl_hex E) r0"
    and "principal_parse (cl_hex E) key_arg = Inr key"
    and "cmd_root E (RootAdd key_arg label valid_in valid_for) fs = (Returned (Inr out), fs')"
    and "cl_roots E' = cl_roots E" "cl_dir E' = cl_dir E" "open_roots E' fs' = Inr r1"
  shows "is_accepted r1 (principal_node_id q) t =
    (if q = key then
       (valid_in = 0 \<or> saturating_add_u64 (cl_now E) valid_in \<le> t) \<and>
       (valid_for = 0 \<or> t \<le> saturating_add_u64
          (if valid_in = 0 then cl_now E else saturating_add_u64 (cl_now E) valid_in) valid_for)
     else is_accepted r0 (principal_node_id q) t)"
proof -
  let ?nb = "root_start (cl_now E) valid_in" and ?na = "root_end (cl_now E) valid_in valid_for"
  from assms(3,5,6) have "after_op (roots_add (cl_hex E) (cl_roots E) (cl_pid E) (cl_write E) key label ?nb ?na r0 fs)
      (\<lambda>_ _. Said ''added root'' [principal_display (cl_hex E) key]) = (Returned (Inr out), fs')"
    by (simp add: with_result_def parse_arg_def map_err_def)
  then obtain u r' where add: "roots_add (cl_hex E) (cl_roots E) (cl_pid E) (cl_write E) key label ?nb ?na r0 fs =
      (Returned (Inr ()), r', fs')"
    by (rule after_op_ok) auto
  obtain dir m where dir: "cl_dir E = Inr dir" "ro_path r0 = Some (path_join dir ''roots.json'')"
      "load_json_or_default (cl_roots E) [] (cl_read E') (path_join dir ''roots.json'') fs' = Inr m"
      "ro_roots r1 = m"
    using assms(3,7,8,9) by (auto simp: open_roots_Inr)
  have "m = ro_roots r'"
    by (rule load_after_write [OF assms(2) roots_add_saved [OF add dir(2)] dir(3)])
  then have r1: "is_accepted r1 = is_accepted r'"
    using dir(4) by (simp add: is_accepted_def fun_eq_iff)
  have start: "?nb = 0 \<longleftrightarrow> valid_in = 0"
    by (simp add: root_start_def)
  have stop: "?na = (if valid_for = 0 then 0
      else saturating_add_u64 (if valid_in = 0 then cl_now E else saturating_add_u64 (cl_now E) valid_in) valid_for)"
    unfolding root_end_def Let_def start by (simp add: root_start_def)
  have "is_accepted r' (principal_node_id q) t =
      (if q = key then (?nb = 0 \<or> ?nb \<le> t) \<and> (?na = 0 \<or> t \<le> ?na) else is_accepted r0 (principal_node_id q) t)"
    by (rule roots_add_window [OF assms(1,4) add])
  then show ?thesis
    unfolding r1 start stop by (simp add: root_start_def)
qed

section \<open>Examples\<close>

definition demo_args :: condition_args where
  "demo_args = \<lparr>co_expires_in = 18446744073709551615, co_activates_in = 0, co_max_cpu = None, co_max_mem_mb = None,
     co_max_credits = None, co_allowed_ports = [], co_path_prefix = None\<rparr>"

definition demo_grant_args :: grant_args where
  "demo_grant_args = \<lparr>ga_to = demo_device_hex, ga_actions = [''db:*''], ga_resource = ''*'',
     ga_conditions = demo_args, ga_nonce = 7, ga_parent = None, ga_role = None, ga_json = False\<rparr>"

definition demo_cli_grant :: "capability grant" where
  "demo_cli_grant = \<lparr>gr_chain = [demo_issue (demo_node 1) (demo_node 2) [''db:admin'', ''db:read'', ''db:write''] RAny
       (to_caveats (default_conditions\<lparr>cd_not_after := Some (- 1)\<rparr>)) 7 None], gr_token = ''#''\<rparr>"

definition demo_cli :: "(node_id, capability) cli" where
  "demo_cli = \<lparr>cl_hex = own_hex, cl_lib = demo_lib (gr_chain demo_cli_grant), cl_identity = Inr (demo_node 1),
     cl_scratch = demo_node 9, cl_dir = Inr ''iam'', cl_now = 5, cl_pid = ''1'', cl_read = no_read_faults,
     cl_write = no_faults, cl_key = demo_key, cl_catalogs = demo_json, cl_wallets = demo_wallet_json,
     cl_roots = demo_roots_json, cl_devices = demo_dev_json, cl_cache = demo_cache_json, cl_answer = Inr []\<rparr>"

definition demo_verify_args :: verify_args where
  "demo_verify_args = \<lparr>ve_token = Some ''#'', ve_wallet_label = None, ve_requester = demo_device_hex,
     ve_action = ''db:read'', ve_on_node = None, ve_tags = [], ve_no_revocation_check = True,
     ve_fail_closed = False, ve_revocation_ttl = 300, ve_use_roots = False\<rparr>"

lemma demo_cli_laws: "issue_law (cl_lib demo_cli)" "authorize_law (cl_lib demo_cli) demo_checks"
  by (simp_all add: demo_cli_def demo_issue_law demo_authorize_law)

theorem cli_grant_then_verify_witness:
  "cmd_verify (demo_cli\<lparr>cl_now := 99\<rparr>) demo_verify_args (\<lambda>k. None) = (Returned (Inr Allowed), \<lambda>k. None) \<and>
   99 \<le> saturating_add_u64 (5 :: u64) 18446744073709551615"
proof -
  have i: "cl_identity demo_cli = Inr (demo_node 1)" "ga_role demo_grant_args = None" "ga_parent demo_grant_args = None"
    by (simp_all add: demo_cli_def demo_grant_args_def)
  have g: "make_grant demo_cli demo_grant_args (demo_node 1) (Principal (demo_node 2)) (\<lambda>k. None) = Inr demo_cli_grant"
    by code_simp
  have d: "guarded_decode (cl_lib demo_cli) iam_service (gr_token demo_cli_grant) = Inr (gr_chain demo_cli_grant)"
    by code_simp
  have e: "cl_lib (demo_cli\<lparr>cl_now := 99\<rparr>) = cl_lib demo_cli" "cl_identity (demo_cli\<lparr>cl_now := 99\<rparr>) = cl_identity demo_cli"
      "ve_token demo_verify_args = Some (gr_token demo_cli_grant)" "ve_on_node demo_verify_args = None"
    by (simp_all add: demo_verify_args_def demo_cli_grant_def)
  have v: "fst (cmd_verify (demo_cli\<lparr>cl_now := 99\<rparr>) demo_verify_args (\<lambda>k. None)) = Returned (Inr Allowed)"
    by code_simp
  moreover have "snd (cmd_verify (demo_cli\<lparr>cl_now := 99\<rparr>) demo_verify_args (\<lambda>k. None)) = (\<lambda>k. None)"
    by (simp add: cmd_verify_def with_result_def resolve_revocation_def demo_verify_args_def split: sum.split)
  ultimately have c: "cmd_verify (demo_cli\<lparr>cl_now := 99\<rparr>) demo_verify_args (\<lambda>k. None) = (Returned (Inr Allowed), \<lambda>k. None)"
    by (metis prod.collapse)
  have "co_expires_in (ga_conditions demo_grant_args) \<noteq> 0" "cl_now demo_cli = 5"
    "co_expires_in (ga_conditions demo_grant_args) = 18446744073709551615"
    by (simp_all add: demo_grant_args_def demo_args_def demo_cli_def)
  with cli_grant_then_verify [OF demo_cli_laws i g d e c] c show ?thesis by auto
qed

definition demo_added_roots :: roots_map where
  "demo_added_roots = [(principal_hex own_hex (Principal (demo_node 2)),
     \<lparr>re_key = Principal (demo_node 2), re_label = None, re_not_before = 15, re_not_after = 35\<rparr>)]"

definition demo_file_json :: "roots_map json_format" where
  "demo_file_json = \<lparr>jf_print = (\<lambda>m. if m = demo_added_roots then Inr ''r'' else Inl ''unsupported''),
     jf_parse = (\<lambda>s. if s = ''r'' then Inr demo_added_roots else Inl ''unsupported'')\<rparr>"

definition demo_root_cli :: "(node_id, capability) cli" where
  "demo_root_cli = demo_cli\<lparr>cl_roots := demo_file_json\<rparr>"

definition demo_root_added :: cli_result where
  "demo_root_added = cmd_root demo_root_cli (RootAdd demo_device_hex None 10 20) (\<lambda>k. None)"

theorem cli_root_add_window_witness:
  "is_accepted \<lparr>ro_roots = demo_added_roots, ro_path = Some (path_join ''iam'' ''roots.json'')\<rparr> (demo_node 2) 35 \<and>
   \<not> is_accepted \<lparr>ro_roots = demo_added_roots, ro_path = Some (path_join ''iam'' ''roots.json'')\<rparr> (demo_node 2) 14"
proof -
  have hex: "hex_lib_ok (cl_hex demo_root_cli)"
    by (simp add: demo_root_cli_def demo_cli_def own_hex_codec)
  have J: "json_law (cl_roots demo_root_cli)"
    by (simp add: demo_root_cli_def demo_file_json_def json_law_def)
  have o0: "open_roots demo_root_cli (\<lambda>k. None) = Inr \<lparr>ro_roots = [], ro_path = Some (path_join ''iam'' ''roots.json'')\<rparr>"
    by code_simp
  have inv: "roots_inv (cl_hex demo_root_cli) \<lparr>ro_roots = [], ro_path = Some (path_join ''iam'' ''roots.json'')\<rparr>"
    by (simp add: roots_inv_def btree_simps)
  have key: "principal_parse (cl_hex demo_root_cli) demo_device_hex = Inr (Principal (demo_node 2))"
    by code_simp
  have "fst demo_root_added = Returned (Inr (Said ''added root'' [demo_device_hex]))"
    by code_simp
  then have c: "cmd_root demo_root_cli (RootAdd demo_device_hex None 10 20) (\<lambda>k. None) =
      (Returned (Inr (Said ''added root'' [demo_device_hex])), snd demo_root_added)"
    by (simp add: demo_root_added_def prod_eq_iff)
  have o1: "open_roots demo_root_cli (snd demo_root_added) =
      Inr \<lparr>ro_roots = demo_added_roots, ro_path = Some (path_join ''iam'' ''roots.json'')\<rparr>"
    by code_simp
  have "cl_now demo_root_cli = 5" by (simp add: demo_root_cli_def demo_cli_def)
  with cli_root_add_window [OF hex J o0 inv key c refl refl o1, of "Principal (demo_node 2)"]
  show ?thesis by (simp add: saturating_add_u64_def)
qed

end
