(* ===== verification/SecretCommands.thy ===== *)
theory SecretCommands
  imports Commands
begin

text \<open>
  The \<open>secret\<close> commands of \<open>main.rs\<close> over the vault, the device key file they share with the library's
  turnkey entry points in \<open>lib.rs\<close>, and the generation of secret material. Randomness, terminals, standard
  input and the process that \<open>secret use\<close> spawns are in the environment.
\<close>

section \<open>The device key file\<close>

text \<open>
  \<open>from_json\<close>, \<open>to_json\<close> and \<open>generate\<close> are those of \<open>ce_secrets_rs\<close>. The file is written in place: a write
  that fails or is cut off leaves a part of it.
\<close>

record 'k key_format =
  kf_from_json :: "string \<Rightarrow> string + 'k"
  kf_to_json :: "'k \<Rightarrow> string + string"

definition key_file :: "string \<Rightarrow> path" where
  "key_file dir = path_join dir ''secrets-device.json''"

definition write_in_place :: "write_faults \<Rightarrow> path \<Rightarrow> string \<Rightarrow> fs \<Rightarrow> (string + unit) outcome \<times> fs" where
  "write_in_place F p content fs =
     (case wf_write F of
        IoOk \<Rightarrow> (Returned (Inr ()), fs(path_key p := Some content))
      | IoFails e \<Rightarrow> (Returned (Inl e), fs(path_key p := Some (take (wf_written F) content)))
      | IoStops \<Rightarrow> (Stopped, fs(path_key p := Some (take (wf_written F) content))))"

definition create_device_key :: "'k key_format \<Rightarrow> write_faults \<Rightarrow> string + 'k \<Rightarrow> path \<Rightarrow> fs \<Rightarrow>
    (string + 'k) outcome \<times> fs" where
  "create_device_key J F generated p fs =
     (case and_then (map_err (\<lambda>e. ''generate device key: '' @ e) generated)
             (\<lambda>k. and_then (kf_to_json J k) (\<lambda>json. Inr (k, json))) of
        Inl e \<Rightarrow> (Returned (Inl e), fs)
      | Inr (k, json) \<Rightarrow>
          (case write_in_place F p json fs of
             (Stopped, fs') \<Rightarrow> (Stopped, fs')
           | (Returned (Inl e), fs') \<Rightarrow> (Returned (Inl (''write: '' @ e)), fs')
           | (Returned (Inr _), fs') \<Rightarrow> (Returned (Inr k), fs')))"

definition load_or_create_device_key :: "'k key_format \<Rightarrow> iam_error + string \<Rightarrow> read_faults \<Rightarrow> write_faults \<Rightarrow>
    string + 'k \<Rightarrow> fs \<Rightarrow> (string + 'k) outcome \<times> fs" where
  "load_or_create_device_key J dir R F generated fs =
     (case dir of
        Inl e \<Rightarrow> (Returned (Inl ''iam dir''), fs)
      | Inr d \<Rightarrow>
          (case wf_mkdir F of
             IoFails e \<Rightarrow> (Returned (Inl (''create: '' @ e)), fs)
           | IoStops \<Rightarrow> (Stopped, fs)
           | IoOk \<Rightarrow>
               (let p = key_file d in
                case (if rf_stat R = None then fs (path_key p) else None) of
                  None \<Rightarrow> create_device_key J F generated p fs
                | Some raw \<Rightarrow>
                    (case rf_read R of
                       Some e \<Rightarrow> (Returned (Inl (''read: '' @ e)), fs)
                     | None \<Rightarrow>
                         if trim raw \<noteq> []
                         then (Returned (map_err (\<lambda>e. ''parse device key: '' @ e) (kf_from_json J raw)), fs)
                         else create_device_key J F generated p fs))))"

text \<open>The namespace is the device's own unless one is given, and the node is the one of \<open>--node\<close>.\<close>

definition open_vault :: "('j, 'p) key_pair \<Rightarrow> string option \<Rightarrow> string option \<Rightarrow> string \<Rightarrow> string option \<Rightarrow>
    string option \<Rightarrow> string option \<Rightarrow> 'net \<Rightarrow> mesh_client \<times> 'net mesh_state \<times> ('j, 'p) vault" where
  "open_vault device ns_flag kv_node_flag node token env_kv_node env_relay net =
     (let ns = unwrap_or ns_flag (dk_id device) in
      case mesh_connect env_kv_node env_relay ns (unwrap_or kv_node_flag node) token net of
        (client, st) \<Rightarrow> (client, st, \<lparr>va_device = device, va_ns = ns\<rparr>))"

text \<open>\<open>open_vault_default\<close>, \<open>open_vault_default_ns\<close> and \<open>open_vault_ns_authed\<close> of \<open>lib.rs\<close>.\<close>

definition open_vault_with :: "('j, 'p) key_pair \<Rightarrow> string \<Rightarrow> string \<Rightarrow> string option \<Rightarrow> string option \<Rightarrow>
    string option \<Rightarrow> 'net \<Rightarrow> mesh_client \<times> 'net mesh_state \<times> ('j, 'p) vault" where
  "open_vault_with device ns default_url token env_kv_node env_relay net =
     (case mesh_connect env_kv_node env_relay ns default_url token net of
        (client, st) \<Rightarrow> (client, st, \<lparr>va_device = device, va_ns = ns\<rparr>))"

definition open_vault_default :: "('j, 'p) key_pair \<Rightarrow> string \<Rightarrow> string option \<Rightarrow> string option \<Rightarrow>
    string option \<Rightarrow> 'net \<Rightarrow> mesh_client \<times> 'net mesh_state \<times> ('j, 'p) vault" where
  "open_vault_default device = open_vault_with device (dk_id device)"

definition open_vault_ns_authed :: "('j, 'p) key_pair \<Rightarrow> string \<Rightarrow> string \<Rightarrow> string \<Rightarrow> string option \<Rightarrow> string option \<Rightarrow>
    string option \<Rightarrow> 'net \<Rightarrow> mesh_client \<times> 'net mesh_state \<times> ('j, 'p) vault" where
  "open_vault_ns_authed device ns caps default_url token env_kv_node env_relay net =
     (case mesh_connect env_kv_node env_relay ns default_url token net of
        (client, st) \<Rightarrow> (mesh_with_caps caps client, st, \<lparr>va_device = device, va_ns = ns\<rparr>))"

section \<open>Secret material\<close>

text \<open>
  \<open>to_lowercase\<close> as far as a comparison with ASCII names can see it: the ASCII letters, and the Kelvin
  sign, the one other character whose lower case is ASCII.
\<close>

fun fold_kelvin :: "string \<Rightarrow> string" where
  "fold_kelvin (a # b # c # s) =
     (if a = CHR 0xE2 \<and> b = CHR 0x84 \<and> c = CHR 0xAA then CHR ''k'' # fold_kelvin s
      else a # fold_kelvin (b # c # s))"
| "fold_kelvin s = s"

definition kind_lower :: "string \<Rightarrow> string" where
  "kind_lower s = to_ascii_lower (fold_kelvin s)"

definition password_alphabet :: string where
  "password_alphabet = ''ABCDEFGHJKLMNPQRSTUVWXYZabcdefghijkmnopqrstuvwxyz23456789!@#$%^&*-_=+''"

definition password_char :: "byte \<Rightarrow> char" where
  "password_char b = password_alphabet ! (unat b mod length password_alphabet)"

definition set_version :: "bytes \<Rightarrow> bytes" where
  "set_version b = (let b = b[6 := or (and (b ! 6) 0x0F) 0x40] in b[8 := or (and (b ! 8) 0x3F) 0x80])"

definition substring :: "nat \<Rightarrow> nat \<Rightarrow> string \<Rightarrow> string" where
  "substring i j s = take (j - i) (drop i s)"

definition uuid_v4 :: "(bytes \<Rightarrow> string) \<Rightarrow> bytes \<Rightarrow> string" where
  "uuid_v4 hex random =
     (let h = hex (set_version random) in
      substring 0 8 h @ ''-'' @ substring 8 12 h @ ''-'' @ substring 12 16 h @ ''-'' @ substring 16 20 h @
      ''-'' @ substring 20 32 h)"

text \<open>\<open>random n\<close> is what \<open>fill_random\<close> fills \<open>n\<close> bytes with; \<open>hex\<close> and \<open>b64\<close> are the encoders of \<open>ce_secrets_rs\<close>.\<close>

definition generate_secret_material :: "(bytes \<Rightarrow> string) \<Rightarrow> (bytes \<Rightarrow> string) \<Rightarrow> (nat \<Rightarrow> bytes) \<Rightarrow> string \<Rightarrow>
    nat option \<Rightarrow> string + string" where
  "generate_secret_material hex b64 random kind0 len =
     (let kind = kind_lower kind0 in
      if kind \<in> {''token'', ''hex''} then Inr (hex (random (unwrap_or len 32)))
      else if kind \<in> {''password'', ''pass''} then Inr (map password_char (random (unwrap_or len 24)))
      else if kind = ''base64'' then Inr (b64 (random (unwrap_or len 32)))
      else if kind = ''uuid'' then Inr (uuid_v4 hex (random 16))
      else if kind \<in> {''aes-256'', ''aes256''} then Inr (hex (random 32))
      else Inl ''unsupported secret type'')"

section \<open>Names of environment variables\<close>

text \<open>
  \<open>upper\<close> is \<open>str::to_uppercase\<close>. A character of several bytes becomes one underscore: its
  continuation bytes go.
\<close>

definition env_char :: "char \<Rightarrow> char" where
  "env_char c = (let n = of_char c :: nat in
     if (48 \<le> n \<and> n \<le> 57) \<or> (65 \<le> n \<and> n \<le> 90) \<or> (97 \<le> n \<and> n \<le> 122) then c else CHR ''_'')"

definition env_name :: "(string \<Rightarrow> string) \<Rightarrow> string \<Rightarrow> string" where
  "env_name upper name = map env_char (filter (\<lambda>c. \<not> is_continuation c) (upper name))"

section \<open>The commands\<close>

record ('j, 'p) secret_env =
  se_hex :: hex_lib
  se_rnd :: vrandom
  se_random :: "nat \<Rightarrow> bytes"
  se_enc_hex :: "bytes \<Rightarrow> string"
  se_enc_b64 :: "bytes \<Rightarrow> string"
  se_now1 :: string
  se_now2 :: string
  se_secs :: u64
  se_stdin :: "string + string"
  se_terminal :: bool
  se_upper :: "string \<Rightarrow> string"
  se_lossy :: "bytes \<Rightarrow> string"
  se_spawn :: "string list \<Rightarrow> (string \<times> string) list \<Rightarrow> string + int option"

datatype secret_cmd =
    SecInit string
  | SecRecover string
  | SecGen string string "nat option"
  | SecPut string string
  | SecGet string bool
  | SecRotate string
  | SecList
  | SecRm string
  | SecGrant string string "string option"
  | SecUse "string list"
  | SecEnrolIssue string u64
  | SecEnrolRedeem string string

datatype secret_output =
    VaultCreated string
  | AlreadyEnrolled
  | VaultAlreadyExists
  | VaultRecovered string
  | StoredSecret secret_meta
  | Revealed bytes
  | RotatedSecret secret_meta
  | SecretList "secret_meta list"
  | DeletedSecret string
  | GrantedTo string "string list" string string
  | ExitWith int
  | EnrolToken string
  | DeviceEnrolled

definition trim_newlines :: "string \<Rightarrow> string" where
  "trim_newlines s = rev (dropWhile (\<lambda>c. c = CHR 0x0D \<or> c = CHR 0x0A) (rev s))"

definition read_secret_value :: "('j, 'p) secret_env \<Rightarrow> string + string" where
  "read_secret_value E = and_then (map_err (\<lambda>e. ''reading value: '' @ e) (se_stdin E)) (\<lambda>s. Inr (trim_newlines s))"

definition into_bytes :: "string \<Rightarrow> bytes" where
  "into_bytes s = map (\<lambda>c. of_nat (of_char c)) s"

definition require_enrolled :: "'st store_ops \<Rightarrow> ('j, 'p) vault \<Rightarrow> ('st, string, unit) act" where
  "require_enrolled S V =
     act_then (is_enrolled S V) (\<lambda>enrolled.
     if enrolled then act_ret ()
     else act_then (vault_exists S) (\<lambda>there.
       if there then act_fail ''this device is not enrolled'' else act_fail ''no vault yet''))"

definition material :: "('j, 'p) secret_env \<Rightarrow> string \<Rightarrow> nat option \<Rightarrow> string + string" where
  "material E kind len = generate_secret_material (se_enc_hex E) (se_enc_b64 E) (se_random E) kind len"

definition put_material :: "('j, 'p, 'w, 's) vcrypto \<Rightarrow> 'st store_ops \<Rightarrow> ('j, 'p) vault \<Rightarrow> ('j, 'p) secret_env \<Rightarrow>
    string \<Rightarrow> string \<Rightarrow> string \<Rightarrow> ('st, string, secret_meta) act" where
  "put_material C S V E name value kind =
     put_secret C S V (se_rnd E) (se_now1 E) (se_now2 E) name (into_bytes value) kind"

fun reveal_env :: "('j, 'p, 'w, 's) vcrypto \<Rightarrow> 'st store_ops \<Rightarrow> ('j, 'p) vault \<Rightarrow> ('j, 'p) secret_env \<Rightarrow>
    string list \<Rightarrow> ('st, string, (string \<times> string) list) act" where
  "reveal_env C S V E [] = act_ret []"
| "reveal_env C S V E (name # names) =
     act_then (get_secret C S V name) (\<lambda>rs.
     act_then (reveal_env C S V E names) (\<lambda>rest.
       act_ret ((env_name (se_upper E) name, se_lossy E (rs_bytes rs)) # rest)))"

definition read_names :: "string \<Rightarrow> string list" where
  "read_names s = filter (\<lambda>x. x \<noteq> []) (map trim (split_on (CHR '','') s))"

definition before_dashes :: "string list \<Rightarrow> (string list \<times> string list) option" where
  "before_dashes rest =
     (if ''--'' \<in> set rest then Some (takeWhile (\<lambda>x. x \<noteq> ''--'') rest, tl (dropWhile (\<lambda>x. x \<noteq> ''--'') rest))
      else None)"

text \<open>The redemption of a token can panic on a malformed one, which is the outcome \<open>None\<close>.\<close>

fun secret_act :: "('j, 'p, 'w, 's) vcrypto \<Rightarrow> 'st store_ops \<Rightarrow> ('j, 'p) vault \<Rightarrow> ('j, 'p) secret_env \<Rightarrow>
    secret_cmd \<Rightarrow> ('st, string, secret_output) act" where
  "secret_act C S V E (SecInit label) =
     act_then (vault_init C S V (se_rnd E) (se_now1 E) (se_now2 E) label) (\<lambda>created.
     if created then act_ret (VaultCreated (dk_id (va_device V)))
     else act_then (is_enrolled S V) (\<lambda>enrolled.
       act_ret (if enrolled then AlreadyEnrolled else VaultAlreadyExists)))"
| "secret_act C S V E (SecRecover label) =
     act_then (recover C S V (se_rnd E) (se_now1 E) (se_now2 E) label) (\<lambda>_.
     act_ret (VaultRecovered (dk_id (va_device V))))"
| "secret_act C S V E (SecGen name kind len) =
     act_then (require_enrolled S V) (\<lambda>_.
     act_then (act_lift (material E kind len)) (\<lambda>value.
     act_then (put_material C S V E name value kind) (\<lambda>meta. act_ret (StoredSecret meta))))"
| "secret_act C S V E (SecPut name kind) =
     act_then (require_enrolled S V) (\<lambda>_.
     act_then (act_lift (read_secret_value E)) (\<lambda>value.
     if value = [] then act_fail ''empty value''
     else act_then (put_material C S V E name value kind) (\<lambda>meta. act_ret (StoredSecret meta))))"
| "secret_act C S V E (SecGet name force) =
     (if se_terminal E \<and> \<not> force then act_fail ''refusing to print a secret to a terminal''
      else act_then (get_secret C S V name) (\<lambda>rs. act_ret (Revealed (rs_bytes rs))))"
| "secret_act C S V E (SecRotate name) =
     act_then (require_enrolled S V) (\<lambda>_.
     act_then (get_secret C S V name) (\<lambda>existing.
     act_then (act_lift (material E (rs_kind existing) None)) (\<lambda>value.
     act_then (put_material C S V E name value (rs_kind existing)) (\<lambda>meta. act_ret (RotatedSecret meta)))))"
| "secret_act C S V E SecList = act_then (list_secrets S) (\<lambda>metas. act_ret (SecretList metas))"
| "secret_act C S V E (SecRm name) = act_then (delete_secret S name) (\<lambda>_. act_ret (DeletedSecret name))"
| "secret_act C S V E (SecGrant audience read expires) =
     act_then (require_enrolled S V) (\<lambda>_.
     if read_names read = [] then act_fail ''--read <name,name> required''
     else act_then (issue_grant (se_hex E) C S V (se_random E 8) (vr_sign (se_rnd E)) (se_now1 E) audience
         (read_names read) expires) (\<lambda>g.
       act_ret (GrantedTo audience (read_names read) (ig_id g) (ig_token g))))"
| "secret_act C S V E (SecUse rest) =
     (case before_dashes rest of
        None \<Rightarrow> act_fail ''usage: secret use <names> -- <command>''
      | Some (names, command) \<Rightarrow>
          if names = [] \<or> command = [] then act_fail ''need at least one <name> and a command after --''
          else act_then (require_enrolled S V) (\<lambda>_.
            act_then (reveal_env C S V E names) (\<lambda>env.
            act_then (act_lift (map_err (\<lambda>e. ''spawning: '' @ e) (se_spawn E command env))) (\<lambda>status.
              act_ret (ExitWith (unwrap_or status 0))))))"
| "secret_act C S V E (SecEnrolIssue label ttl) =
     act_then (require_enrolled S V) (\<lambda>_.
     act_then (issue_enrol_token C S V (se_rnd E) (se_random E 32) (se_secs E) (se_secs E) label ttl) (\<lambda>token.
       act_ret (EnrolToken token)))"
| "secret_act C S V E (SecEnrolRedeem token label) = act_fail ''redeemed by cmd_secret''"

definition cmd_secret :: "('j, 'p, 'w, 's) vcrypto \<Rightarrow> 'st store_ops \<Rightarrow> ('j, 'p) vault \<Rightarrow> ('j, 'p) secret_env \<Rightarrow>
    secret_cmd \<Rightarrow> 'st \<Rightarrow> (string + secret_output) option \<times> 'st" where
  "cmd_secret C S V E cmd st =
     (case cmd of
        SecEnrolRedeem token label \<Rightarrow>
          (case (if token = ''-'' then read_secret_value E else Inr token) of
             Inl e \<Rightarrow> (Some (Inl e), st)
           | Inr t \<Rightarrow>
               (case redeem_enrol_token C S V (se_rnd E) (se_secs E) (se_now1 E) t label st of
                  (r, st') \<Rightarrow> (map_option (\<lambda>r. and_then r (\<lambda>_. Inr DeviceEnrolled)) r, st')))
      | _ \<Rightarrow> (case secret_act C S V E cmd st of (r, st') \<Rightarrow> (Some r, st')))"

section \<open>Shapes of the material\<close>

lemma b64_encode_append: "b64_encode (xs @ ys) = b64_encode xs @ b64_encode ys"
  by (induction xs) simp_all

lemma length_b64_encode: "length (b64_encode xs) = 2 * length xs"
  by (induction xs) simp_all

lemma b64_encode_nth: "i < length xs \<Longrightarrow> b64_encode xs ! (2 * i) = hex_digit (unat (xs ! i) div 16)"
proof (induction xs arbitrary: i)
  case (Cons x xs)
  then show ?case by (cases i) simp_all
qed simp

lemma b64_encode_lower: "c \<in> set (b64_encode xs) \<Longrightarrow> lower_hex_char c"
  by (rule vault_hex.enc_digits)

definition uuid_shape :: "string \<Rightarrow> bool" where
  "uuid_shape s \<longleftrightarrow> (\<exists>a b c d e. s = a @ ''-'' @ b @ ''-'' @ c @ ''-'' @ d @ ''-'' @ e \<and>
     map length [a, b, c, d, e] = [8, 4, 4, 4, 12] \<and> (\<forall>x \<in> set (a @ b @ c @ d @ e). lower_hex_char x) \<and>
     hd c = CHR ''4'' \<and> hd d \<in> {CHR ''8'', CHR ''9'', CHR ''a'', CHR ''b''})"

lemma unat_high: "unat (w :: byte) div 16 = unat (drop_bit 4 w)"
  by (simp add: drop_bit_eq_div unat_div)

lemma version_nibble: "unat (or (and (x :: byte) 0x0F) 0x40) div 16 = 4"
  unfolding unat_high
  by (simp add: drop_bit_and drop_bit_or drop_bit_eq_div [of 4 "15"] drop_bit_eq_div [of 4 "64"])

lemma low_two: "and (y :: byte) 3 \<in> {0, 1, 2, 3}"
proof -
  have "and y 3 = take_bit 2 y" by (simp add: take_bit_eq_mask mask_eq_exp_minus_1)
  then have "unat (and y 3) < 4" by (simp add: take_bit_eq_mod unat_mod)
  then have "unat (and y 3) \<in> {0, 1, 2, 3}" by auto
  then show ?thesis by (auto simp: word_unat_eq_iff)
qed

lemma variant_nibble: "unat (or (and (x :: byte) 0x3F) 0x80) div 16 \<in> {8, 9, 10, 11}"
proof -
  have "drop_bit 4 (or (and x 0x3F) 0x80) = or (and (drop_bit 4 x) 3) 8"
    by (simp add: drop_bit_and drop_bit_or drop_bit_eq_div [of 4 "63"] drop_bit_eq_div [of 4 "128"])
  with low_two [of "drop_bit 4 x"] show ?thesis unfolding unat_high by auto
qed

lemma uuid_v4_shape:
  assumes "length b = 16"
  shows "uuid_shape (uuid_v4 b64_encode b)"
proof -
  let ?b = "set_version b"
  let ?h = "b64_encode ?b"
  have len: "length ?b = 16" "length ?h = 32"
    using assms by (simp_all add: set_version_def Let_def length_b64_encode)
  have "?b ! 6 = or (and (b ! 6) 0x0F) 0x40" "?b ! 8 = or (and (b ! 8) 0x3F) 0x80"
    using assms by (simp_all add: set_version_def Let_def)
  then have "?h ! 12 = hex_digit 4" "?h ! 16 \<in> hex_digit ` {8, 9, 10, 11}"
    using b64_encode_nth [of 6 ?b] b64_encode_nth [of 8 ?b] len version_nibble variant_nibble [of "b ! 8"]
    by auto
  moreover have "hd (substring 12 16 ?h) = ?h ! 12" "hd (substring 16 20 ?h) = ?h ! 16"
    using len by (simp_all add: substring_def hd_take hd_drop_conv_nth)
  moreover have "hex_digit 4 = CHR ''4''" "hex_digit 8 = CHR ''8''" "hex_digit 9 = CHR ''9''"
    "hex_digit 10 = CHR ''a''" "hex_digit 11 = CHR ''b''"
    by code_simp+
  ultimately have heads: "hd (substring 12 16 ?h) = CHR ''4''"
      "hd (substring 16 20 ?h) \<in> {CHR ''8'', CHR ''9'', CHR ''a'', CHR ''b''}"
    by auto
  have low: "lower_hex_char x" if "x \<in> set (substring i j ?h)" for x i j
    using that by (auto simp: substring_def dest!: in_set_takeD in_set_dropD b64_encode_lower)
  show ?thesis
    unfolding uuid_shape_def
  proof (intro exI conjI)
    show "uuid_v4 b64_encode b = substring 0 8 ?h @ ''-'' @ substring 8 12 ?h @ ''-'' @ substring 12 16 ?h @
        ''-'' @ substring 16 20 ?h @ ''-'' @ substring 20 32 ?h"
      by (simp only: uuid_v4_def Let_def)
    show "map length [substring 0 8 ?h, substring 8 12 ?h, substring 12 16 ?h, substring 16 20 ?h,
        substring 20 32 ?h] = [8, 4, 4, 4, 12]"
      by (simp add: substring_def len)
    show "\<forall>x \<in> set (substring 0 8 ?h @ substring 8 12 ?h @ substring 12 16 ?h @ substring 16 20 ?h @
        substring 20 32 ?h). lower_hex_char x"
      using low by auto
  qed (rule heads)+
qed

lemma password_char_alphabet: "password_char b \<in> set password_alphabet"
proof -
  have "unat b mod length password_alphabet < length password_alphabet"
    by (rule mod_less_divisor) (simp add: password_alphabet_def)
  then show ?thesis unfolding password_char_def by (rule nth_mem)
qed


lemma env_name_chars:
  "c \<in> set (env_name upper name) \<Longrightarrow> c = CHR ''_'' \<or> (48 :: nat) \<le> of_char c \<and> of_char c \<le> (57 :: nat) \<or>
     (65 :: nat) \<le> of_char c \<and> of_char c \<le> (90 :: nat) \<or> (97 :: nat) \<le> of_char c \<and> of_char c \<le> (122 :: nat)"
  by (auto simp: env_name_def env_char_def Let_def)

section \<open>One key for the command line and the library\<close>

definition key_law :: "'k key_format \<Rightarrow> bool" where
  "key_law J \<longleftrightarrow> (\<forall>k s. kf_to_json J k = Inr s \<longrightarrow> kf_from_json J s = Inr k \<and> trim s \<noteq> [])"

lemma create_device_key_Inr:
  assumes "create_device_key J F generated p fs = (Returned (Inr k), fs')"
  obtains s where "kf_to_json J k = Inr s" "fs' = fs(path_key p := Some s)"
  using assms by (auto simp: create_device_key_def write_in_place_def and_then_Inr
      split: sum.splits io.splits prod.splits)

text \<open>
  The device key is stable: once an invocation (of the command line or of the library, which
  use the same file) has returned a key, every later one that can read the file returns the same key and
  leaves the file system alone, whatever a fresh generation would have given.
\<close>

lemma device_key_stable:
  assumes "key_law J"
    and "load_or_create_device_key J dir R F generated fs = (Returned (Inr k), fs1)"
    and "rf_stat R = None" "rf_stat R' = None" "rf_read R' = None" "wf_mkdir F' = IoOk"
  shows "load_or_create_device_key J dir R' F' generated' fs1 = (Returned (Inr k), fs1)"
proof -
  obtain d where d: "dir = Inr d"
    using assms(2) by (cases dir) (simp_all add: load_or_create_device_key_def)
  have "\<exists>raw. fs1 (path_key (key_file d)) = Some raw \<and> trim raw \<noteq> [] \<and> kf_from_json J raw = Inr k"
  proof (cases "\<exists>raw. fs (path_key (key_file d)) = Some raw \<and> trim raw \<noteq> []")
    case True
    then show ?thesis
      using assms(2,3) d by (auto simp: load_or_create_device_key_def Let_def split: io.splits option.splits)
  next
    case False
    then have "create_device_key J F generated (key_file d) fs = (Returned (Inr k), fs1)"
      using assms(2,3) d by (auto simp: load_or_create_device_key_def Let_def split: io.splits option.splits)
    then obtain s where "kf_to_json J k = Inr s" "fs1 = fs(path_key (key_file d) := Some s)"
      by (rule create_device_key_Inr)
    with assms(1) show ?thesis by (auto simp: key_law_def)
  qed
  then show ?thesis
    using assms(4-6) d by (auto simp: load_or_create_device_key_def Let_def)
qed

text \<open>A file that cannot be examined counts as absent: a fresh key replaces the one that was there.\<close>

lemma unexaminable_key_replaced:
  assumes "rf_stat R = Some e" "wf_mkdir F = IoOk" "wf_write F = IoOk" "kf_to_json J k' = Inr s"
  shows "load_or_create_device_key J (Inr d) R F (Inr k') fs =
    (Returned (Inr k'), fs(path_key (key_file d) := Some s))"
  using assms by (simp add: load_or_create_device_key_def create_device_key_def write_in_place_def
      and_then_def map_err_def)

section \<open>Rotation\<close>

context kv_store
begin

lemma require_enrolled_Inr:
  assumes "ok s" "require_enrolled S V s = (Inr u, s')"
  shows "ok s' \<and> view s' = view s \<and> view s (device_key (dk_id (va_device V))) \<noteq> None"
proof -
  obtain b s1 where r: "is_enrolled S V s = (Inr b, s1)"
    and rest: "(if b then act_ret () else act_then (vault_exists S) (\<lambda>there.
       if there then act_fail ''this device is not enrolled'' else act_fail ''no vault yet'')) s1 = (Inr u, s')"
    using assms(2) unfolding require_enrolled_def by (auto simp: act_then_Inr)
  have b: "b" "s' = s1" using rest by (auto simp: act_then_Inr split: if_splits)
  obtain m where m: "so_get S (device_key (dk_id (va_device V))) s = (Inr m, s1)" "b = (m \<noteq> None)"
    using r by (auto simp: is_enrolled_def act_then_Inr)
  from get_Inr [OF assms(1) m(1)] b m(2) show ?thesis by auto
qed

lemma rotate_Inr:
  assumes "ok s" "enrol_laws C gen" "secret_act C S V E (SecRotate name) s = (Inr out, s1)"
    and "get_secret C S V name s1 = (Inr rs, s2)"
  shows "\<exists>rec mat meta. view s (secret_key name) = Some rec \<and>
    material E (unwrap_or (get_str rec ''type'') ''opaque'') None = Inr mat \<and> out = RotatedSecret meta \<and>
    sm_version meta = unwrap_or (get_u64 rec ''version'') 0 + 1 \<and>
    rs_bytes rs = into_bytes mat \<and> rs_kind rs = unwrap_or (get_str rec ''type'') ''opaque'' \<and>
    (\<forall>k. k \<noteq> secret_key name \<longrightarrow> view s1 k = view s k)"
proof -
  obtain u sa existing sb mat meta where
      enrolled: "require_enrolled S V s = (Inr u, sa)"
    and got: "get_secret C S V name sa = (Inr existing, sb)"
    and mt: "material E (rs_kind existing) None = Inr mat"
    and put: "put_material C S V E name mat (rs_kind existing) sb = (Inr meta, s1)"
    and out: "out = RotatedSecret meta"
    using assms(3) by (auto simp: act_then_Inr)
  have sa: "ok sa" "view sa = view s"
    using require_enrolled_Inr [OF assms(1) enrolled] by simp_all
  obtain rec where rec: "view sa (secret_key name) = Some rec"
      "rs_kind existing = unwrap_or (get_str rec ''type'') ''opaque''" "ok sb" "view sb = view sa"
    using sa(1) got by (rule get_secret_Inr)
  note stored = put [unfolded put_material_def put_secret_def]
  obtain rec' where new: "meta = next_meta C (se_now1 E) (se_now2 E) name (into_bytes mat) (rs_kind existing)
      None False (view sb (secret_key name))" "view s1 = (view sb)(secret_key name \<mapsto> rec')"
    using store_secret_Inr [OF rec(3) stored] by metis
  have "held_master C (va_device V) (view s1) = held_master C (va_device V) (view sb)"
    using new(2) by (simp add: held_master_def)
  from secret_round_trip [OF rec(3) assms(2) stored this assms(4)]
  have "rs_bytes rs = into_bytes mat" "rs_kind rs = rs_kind existing" by simp_all
  with mt out rec sa(2) new show ?thesis
    by (intro exI [of _ rec] exI [of _ mat] exI [of _ meta]) (simp add: next_meta_def unwrap_or_def)
qed

end

text \<open>
  Property C26. Rotating over the lossy mesh: when \<open>secret rotate\<close> reports success, what the vault then
  reveals is fresh material generated for the stored type (at its default length), under the same type and
  the next version, and no other record has changed.
\<close>

theorem secret_rotate_exact:
  assumes "enrol_laws C gen" "mesh_ok K me c st"
    and "cmd_secret C (mesh_store (ke_wire K) (kv_node K me fate disc) c) V E (SecRotate name) st =
      (Some (Inr out), st1)"
    and "get_secret C (mesh_store (ke_wire K) (kv_node K me fate disc) c) V name st1 = (Inr rs, st2)"
  shows "\<exists>rec mat meta. mesh_view st (secret_key name) = Some rec \<and>
    material E (unwrap_or (get_str rec ''type'') ''opaque'') None = Inr mat \<and> out = RotatedSecret meta \<and>
    sm_version meta = unwrap_or (get_u64 rec ''version'') 0 + 1 \<and>
    rs_bytes rs = into_bytes mat \<and> rs_kind rs = unwrap_or (get_str rec ''type'') ''opaque'' \<and>
    (\<forall>k. k \<noteq> secret_key name \<longrightarrow> mesh_view st1 k = mesh_view st k)"
proof -
  have "secret_act C (mesh_store (ke_wire K) (kv_node K me fate disc) c) V E (SecRotate name) st = (Inr out, st1)"
    using assms(3) by (simp add: cmd_secret_def split: prod.splits)
  from mesh.rotate_Inr [OF assms(2,1) this assms(4)] show ?thesis .
qed

section \<open>Examples\<close>


definition demo_key_json :: "nat key_format" where
  "demo_key_json = \<lparr>kf_from_json = (\<lambda>s. Inr (length s - 1)), kf_to_json = (\<lambda>k. Inr (replicate (Suc k) (CHR ''x'')))\<rparr>"

lemma demo_key_file_law: "key_law demo_key_json"
proof -
  have "trim (replicate (Suc k) (CHR ''x'')) = replicate (Suc k) (CHR ''x'')" for k
    by (rule trim_plain) (auto simp: plain_char_def)
  then show ?thesis by (auto simp: key_law_def demo_key_json_def)
qed

lemma device_key_stable_witness:
  "load_or_create_device_key demo_key_json (Inr ''iam'') no_read_faults no_faults (Inr 9)
     ((\<lambda>k. None)(path_key (key_file ''iam'') := Some ''xxx'')) =
   (Returned (Inr 2), (\<lambda>k. None)(path_key (key_file ''iam'') := Some ''xxx''))"
proof (rule device_key_stable [OF demo_key_file_law])
  show "load_or_create_device_key demo_key_json (Inr ''iam'') no_read_faults no_faults (Inr 2) (\<lambda>k. None) =
      (Returned (Inr 2), (\<lambda>k. None)(path_key (key_file ''iam'') := Some ''xxx''))"
    by (simp add: load_or_create_device_key_def create_device_key_def write_in_place_def no_faults_def
        no_read_faults_def and_then_def map_err_def demo_key_json_def Let_def eval_nat_numeral)
qed (simp_all add: no_faults_def no_read_faults_def)

definition demo_secret_env :: "(nat, nat) secret_env" where
  "demo_secret_env = \<lparr>se_hex = own_hex, se_rnd = demo_rnd, se_random = (\<lambda>n. []),
     se_enc_hex = b64_encode, se_enc_b64 = (\<lambda>b. ''z''), se_now1 = ''t5'', se_now2 = ''t6'', se_secs = 100,
     se_stdin = Inl ''closed'', se_terminal = False, se_upper = (\<lambda>s. s), se_lossy = (\<lambda>b. []),
     se_spawn = (\<lambda>c e. Inr None)\<rparr>"

definition demo_stored :: "(string + secret_meta) \<times> authkv mesh_state" where
  "demo_stored = store_secret demo_C demo_vault_store demo_owner demo_rnd ''t3'' ''t4'' ''k'' [1] ''base64'' None False
     demo_vault_mesh"

definition demo_rotated :: "(string + secret_output) option \<times> authkv mesh_state" where
  "demo_rotated = cmd_secret demo_C demo_vault_store demo_owner demo_secret_env (SecRotate ''k'') (snd demo_stored)"

definition demo_revealed :: "(string + revealed_secret) \<times> authkv mesh_state" where
  "demo_revealed = get_secret demo_C demo_vault_store demo_owner ''k'' (snd demo_rotated)"

lemma demo_stored_ok: "is_ok (fst demo_stored)"
  by code_simp

lemma demo_stored_view: "map_option (\<lambda>rec. (get_str rec ''type'', get_u64 rec ''version''))
      (mesh_view (snd demo_stored) (secret_key ''k'')) = Some (Some ''base64'', Some 1)"
  by code_simp

lemma demo_rotated_steps: "demo_rotated =
    apfst Some ((act_then (require_enrolled demo_vault_store demo_owner) (\<lambda>_.
     act_then (get_secret demo_C demo_vault_store demo_owner ''k'') (\<lambda>existing.
     act_then (act_lift (material demo_secret_env (rs_kind existing) None)) (\<lambda>value.
     act_then (put_material demo_C demo_vault_store demo_owner demo_secret_env ''k'' value (rs_kind existing)) (\<lambda>meta.
       act_ret (RotatedSecret meta)))))) (snd demo_stored))"
  by (simp add: demo_rotated_def cmd_secret_def apfst_def map_prod_def split_def)

lemma demo_material: "material demo_secret_env ''base64'' None = Inr ''z''"
  by code_simp

lemma demo_rotated_ok: "case fst demo_rotated of Some r \<Rightarrow> is_ok r | None \<Rightarrow> False"
  unfolding demo_rotated_steps by code_simp

lemma demo_revealed_ok: "is_ok (fst demo_revealed)"
  unfolding demo_revealed_def demo_rotated_steps by code_simp

theorem secret_rotate_exact_witness:
  "\<exists>rs meta. fst demo_rotated = Some (Inr (RotatedSecret meta)) \<and> sm_version meta = 2 \<and>
     fst demo_revealed = Inr rs \<and> rs_bytes rs = into_bytes ''z'' \<and> rs_kind rs = ''base64''"
proof -
  obtain out rs meta0 where r: "fst demo_rotated = Some (Inr out)" and g: "fst demo_revealed = Inr rs"
      and p: "fst demo_stored = Inr meta0"
    using demo_stored_ok demo_rotated_ok demo_revealed_ok by (auto simp: is_ok_def split: option.splits sum.splits)
  have "store_secret demo_C demo_vault_store demo_owner demo_rnd ''t3'' ''t4'' ''k'' [1] ''base64'' None False
      demo_vault_mesh = (Inr meta0, snd demo_stored)"
    using p by (simp add: demo_stored_def prod_eq_iff)
  then have ok: "mesh_ok demo_mesh_env demo_peer demo_client (snd demo_stored)"
    by (rule mesh.store_secret_Inr [OF demo_vault_mesh_ok])
  have rot: "cmd_secret demo_C demo_vault_store demo_owner demo_secret_env (SecRotate ''k'') (snd demo_stored) =
      (Some (Inr out), snd demo_rotated)"
    using r by (simp add: demo_rotated_def prod_eq_iff)
  have get: "get_secret demo_C demo_vault_store demo_owner ''k'' (snd demo_rotated) = (Inr rs, snd demo_revealed)"
    using g by (simp add: demo_revealed_def prod_eq_iff)
  have view: "map_option (\<lambda>rec. (get_str rec ''type'', get_u64 rec ''version''))
      (mesh_view (snd demo_stored) (secret_key ''k'')) = Some (Some ''base64'', Some 1)"
    by (rule demo_stored_view)
  obtain rec mat meta where rec: "mesh_view (snd demo_stored) (secret_key ''k'') = Some rec"
    and out: "material demo_secret_env (unwrap_or (get_str rec ''type'') ''opaque'') None = Inr mat"
      "out = RotatedSecret meta" "sm_version meta = unwrap_or (get_u64 rec ''version'') 0 + 1"
      "rs_bytes rs = into_bytes mat" "rs_kind rs = unwrap_or (get_str rec ''type'') ''opaque''"
    using secret_rotate_exact [OF demo_enrol_laws ok rot get] by blast
  from view rec have "get_str rec ''type'' = Some ''base64''" "get_u64 rec ''version'' = Some 1"
    by simp_all
  with out r g demo_material show ?thesis by (simp add: unwrap_or_def)
qed

end
