(* ===== verification/Program.thy ===== *)
theory Program
  imports SecretCommands
begin

text \<open>
  The program as a whole: \<open>main\<close> of \<open>main.rs\<close>, which runs one command, and histories of invocations on
  one data directory. The lemmas follow every command to the files it may change; the theorems are
  about what any history leaves on disk, with faults and crashes anywhere.
\<close>

section \<open>One invocation\<close>

datatype 'x command =
    Whoami
  | GrantCmd grant_args
  | VerifyCmd verify_args
  | RevokeCmd "http_request \<Rightarrow> http_answer" string "string option" u64
  | RevokedCmd node_answer
  | PolicyNew "string list" string condition_args
  | PolicyValidate "cli_error + string"
  | PolicyInspect string
  | RoleCmd role_cmd
  | WalletCmd wallet_cmd
  | RootCmd root_cmd
  | DeviceCmd device_cmd
  | SecretCmd secret_cmd
  | NodeAuthCmd string "string option" bool "string list" "string + unit" "'x na_event list"

datatype 'x main_output =
    Printed cli_output
  | VaultDone secret_output
  | Served "'x na_effect list option"

text \<open>What the secret commands take from outside beside the environment of the other commands.\<close>

record ('j, 'p, 'w, 'v, 'x, 'net) vault_cli =
  vl_crypto :: "('j, 'p, 'w, 'v) vcrypto"
  vl_keys :: "('j, 'p) key_pair key_format"
  vl_generated :: "string + ('j, 'p) key_pair"
  vl_env :: "('j, 'p) secret_env"
  vl_wire :: "'x wire"
  vl_api :: "('x, 'net) node_api"
  vl_ns :: "string option"
  vl_kv_node :: "string option"
  vl_node :: string
  vl_token :: "string option"
  vl_env_kv_node :: "string option"
  vl_env_relay :: "string option"

type_synonym ('x, 'net) main_result = "(cli_error + 'x main_output) outcome \<times> fs \<times> 'net"

text \<open>\<open>secret use\<close> looks at its arguments before it opens the vault.\<close>

fun usage_error :: "secret_cmd \<Rightarrow> string option" where
  "usage_error (SecUse rest) =
     (case before_dashes rest of
        None \<Rightarrow> Some ''usage: secret use <names> -- <command>''
      | Some (names, command) \<Rightarrow>
          if names = [] \<or> command = [] then Some ''need at least one <name> and a command after --'' else None)"
| "usage_error _ = None"

definition run_secret :: "('i, 's) cli \<Rightarrow> ('j, 'p, 'w, 'v, 'x, 'net) vault_cli \<Rightarrow> secret_cmd \<Rightarrow> fs \<Rightarrow> 'net \<Rightarrow>
    ('x, 'net) main_result" where
  "run_secret E X cmd fs net =
     (case usage_error cmd of
        Some e \<Rightarrow> (Returned (Inl (CText e)), fs, net)
      | None \<Rightarrow>
          (case load_or_create_device_key (vl_keys X) (cl_dir E) (cl_read E) (cl_write E) (vl_generated X) fs of
             (Stopped, fs') \<Rightarrow> (Stopped, fs', net)
           | (Returned (Inl e), fs') \<Rightarrow> (Returned (Inl (CText e)), fs', net)
           | (Returned (Inr device), fs') \<Rightarrow>
               (case open_vault device (vl_ns X) (vl_kv_node X) (vl_node X) (vl_token X) (vl_env_kv_node X)
                       (vl_env_relay X) net of
                  (client, st, V) \<Rightarrow>
                    (case cmd_secret (vl_crypto X) (mesh_store (vl_wire X) (vl_api X) client) V (vl_env X) cmd st of
                       (r, st') \<Rightarrow>
                         (Returned (case r of None \<Rightarrow> Inl (CText ''panic'') | Some r \<Rightarrow> map_sum CText VaultDone r),
                          fs', ms_net st')))))"

definition run_node_auth :: "('i, 's) cli \<Rightarrow> 'x wire \<Rightarrow> string \<Rightarrow> string option \<Rightarrow> bool \<Rightarrow> string list \<Rightarrow>
    string + unit \<Rightarrow> 'x na_event list \<Rightarrow> cli_error + 'x main_output" where
  "run_node_auth E W label owner no_approve allowed subscribed events =
     and_then (node_auth_responder E label owner no_approve allowed) (\<lambda>r.
     and_then (map_err CText (na_start W subscribed r)) (\<lambda>(c, eff).
       Inr (Served (map_option (\<lambda>(_, eff'). eff @ eff') (na_run (cl_hex E) (cl_lib E) W events c)))))"

definition on_files :: "cli_result \<Rightarrow> 'net \<Rightarrow> ('x, 'net) main_result" where
  "on_files res net = (case res of (r, fs') \<Rightarrow> (map_outcome (map_sum id Printed) r, fs', net))"

fun main_cmd :: "('i, 's) cli \<Rightarrow> ('j, 'p, 'w, 'v, 'x, 'net) vault_cli \<Rightarrow> (string \<Rightarrow> string + policy) \<Rightarrow>
    'x command \<Rightarrow> fs \<Rightarrow> 'net \<Rightarrow> ('x, 'net) main_result" where
  "main_cmd E X parse Whoami fs net = on_files (pure_result (cmd_whoami E) fs) net"
| "main_cmd E X parse (GrantCmd a) fs net = on_files (pure_result (cmd_grant E a fs) fs) net"
| "main_cmd E X parse (VerifyCmd a) fs net = on_files (cmd_verify E a fs) net"
| "main_cmd E X parse (RevokeCmd post node token nonce) fs net =
     on_files (pure_result (cmd_revoke post node token nonce) fs) net"
| "main_cmd E X parse (RevokedCmd second) fs net = on_files (pure_result (cmd_revoked E second) fs) net"
| "main_cmd E X parse (PolicyNew actions resource conds) fs net =
     on_files (pure_result (policy_new E actions resource conds) fs) net"
| "main_cmd E X parse (PolicyValidate input) fs net =
     on_files (pure_result (policy_validate E parse input) fs) net"
| "main_cmd E X parse (PolicyInspect token) fs net = on_files (pure_result (policy_inspect E token) fs) net"
| "main_cmd E X parse (RoleCmd c) fs net = on_files (cmd_role E parse c fs) net"
| "main_cmd E X parse (WalletCmd c) fs net = on_files (cmd_wallet E c fs) net"
| "main_cmd E X parse (RootCmd c) fs net = on_files (cmd_root E c fs) net"
| "main_cmd E X parse (DeviceCmd c) fs net = on_files (cmd_device E c fs) net"
| "main_cmd E X parse (SecretCmd c) fs net = run_secret E X c fs net"
| "main_cmd E X parse (NodeAuthCmd label owner no_approve allowed subscribed events) fs net =
     (Returned (run_node_auth E (vl_wire X) label owner no_approve allowed subscribed events), fs, net)"

section \<open>Which file a command may change\<close>

fun role_writes :: "role_cmd \<Rightarrow> bool" where
  "role_writes (RolePut _ _ _) = True"
| "role_writes (RoleRm _) = True"
| "role_writes (RoleAttach _ _) = True"
| "role_writes (RoleDetach _ _) = True"
| "role_writes RoleCompact = True"
| "role_writes _ = False"

fun wallet_writes :: "wallet_cmd \<Rightarrow> bool" where
  "wallet_writes (WalletAdd _ _ _ _) = True"
| "wallet_writes (WalletRm _) = True"
| "wallet_writes _ = False"

fun root_writes :: "root_cmd \<Rightarrow> bool" where
  "root_writes (RootAdd _ _ _ _) = True"
| "root_writes (RootRetire _ _) = True"
| "root_writes (RootRm _) = True"
| "root_writes _ = False"

fun device_writes :: "device_cmd \<Rightarrow> bool" where
  "device_writes DeviceList = False"
| "device_writes _ = True"

text \<open>The store a command may change, if any: its name in the data directory and its temporary file.\<close>

fun own_file :: "string \<Rightarrow> 'x command \<Rightarrow> (string \<times> string) option" where
  "own_file pid (RoleCmd c) = (if role_writes c then Some (''catalog.json'', temp_name ''catalog.json'' pid) else None)"
| "own_file pid (WalletCmd c) = (if wallet_writes c then Some (''wallet.json'', temp_name ''wallet.json'' pid) else None)"
| "own_file pid (RootCmd c) = (if root_writes c then Some (''roots.json'', temp_name ''roots.json'' pid) else None)"
| "own_file pid (DeviceCmd c) = (if device_writes c then Some (''devices.json'', ''devices.json.tmp'') else None)"
| "own_file pid (VerifyCmd a) =
     (if ve_no_revocation_check a then None
      else Some (''revocation-cache.json'', temp_name ''revocation-cache.json'' pid))"
| "own_file pid (SecretCmd c) =
     (if usage_error c = None then Some (''secrets-device.json'', ''secrets-device.json'') else None)"
| "own_file pid _ = None"

definition may_change :: "string \<Rightarrow> (string \<times> string) option \<Rightarrow> file_key \<Rightarrow> bool" where
  "may_change d own k \<longleftrightarrow> (case own of None \<Rightarrow> False | Some (name, tmp) \<Rightarrow> k = (d, name) \<or> k = (d, tmp))"

definition only_changes :: "(file_key \<Rightarrow> bool) \<Rightarrow> fs \<Rightarrow> fs \<Rightarrow> bool" where
  "only_changes C fs fs' \<longleftrightarrow> (\<forall>k. \<not> C k \<longrightarrow> fs' k = fs k)"

lemma only_changes_refl [simp]: "only_changes C fs fs"
  by (simp add: only_changes_def)

lemma only_changes_mono: "only_changes C fs fs' \<Longrightarrow> (\<And>k. C k \<Longrightarrow> D k) \<Longrightarrow> only_changes D fs fs'"
  unfolding only_changes_def by blast

lemma store_keys [simp]:
  "path_key (path_join d name) = (d, name)"
  "temp_key (path_join d name) pid = (d, temp_name name pid)"
  by (simp_all add: path_key_def temp_key_def path_join_def unwrap_or_def)

text \<open>The temporary files are hidden; no store is.\<close>

lemma temp_name_hidden: "temp_name name pid = c # s \<Longrightarrow> c = CHR ''.''"
  by (simp add: temp_name_def)

lemma store_not_temp [simp]:
  "''catalog.json'' \<noteq> temp_name name pid"
  "''wallet.json'' \<noteq> temp_name name pid"
  "''roots.json'' \<noteq> temp_name name pid"
  "''revocation-cache.json'' \<noteq> temp_name name pid"
  "''devices.json'' \<noteq> temp_name name pid"
  "''secrets-device.json'' \<noteq> temp_name name pid"
  by (auto dest: temp_name_hidden [OF sym])

text \<open>
  What every command does to the files: nothing, or one atomic write of a value of its store to its
  file, by whatever way it ends.
\<close>

definition writes :: "('i, 's) cli \<Rightarrow> 'a json_format \<Rightarrow> string \<Rightarrow> ('a \<Rightarrow> bool) \<Rightarrow> fs \<Rightarrow> fs \<Rightarrow> bool" where
  "writes E J name P fs fs' \<longleftrightarrow> fs' = fs \<or>
     (\<exists>d v w. cl_dir E = Inr d \<and> P v \<and>
        atomic_write_json J (cl_pid E) (cl_write E) (path_join d name) v fs = (w, fs'))"

lemma writes_refl [simp]: "writes E J name P fs fs"
  by (simp add: writes_def)

lemma writesI:
  "cl_dir E = Inr d \<Longrightarrow> P v \<Longrightarrow>
    atomic_write_json J (cl_pid E) (cl_write E) (path_join d name) v fs = (w, fs') \<Longrightarrow> writes E J name P fs fs'"
  unfolding writes_def by blast

definition file_ok :: "'a json_format \<Rightarrow> ('a \<Rightarrow> bool) \<Rightarrow> string option \<Rightarrow> bool" where
  "file_ok J P f \<longleftrightarrow>
     (case f of None \<Rightarrow> True
      | Some content \<Rightarrow> (case jf_parse J content of Inl e \<Rightarrow> False | Inr v \<Rightarrow> P v))"

lemma file_ok_None [simp]: "file_ok J P None"
  by (simp add: file_ok_def)

text \<open>A good file in the data directory of an invocation, if it has one.\<close>

definition good_file :: "('i, 's) cli \<Rightarrow> 'a json_format \<Rightarrow> string \<Rightarrow> ('a \<Rightarrow> bool) \<Rightarrow> fs \<Rightarrow> bool" where
  "good_file E J name P fs \<longleftrightarrow> (case cl_dir E of Inl e \<Rightarrow> True | Inr d \<Rightarrow> file_ok J P (fs (d, name)))"

lemma writes_frame:
  assumes "writes E J name P fs fs'" "cl_dir E = Inr d"
  shows "only_changes (\<lambda>k. k = (d, name) \<or> k = (d, temp_name name (cl_pid E))) fs fs'"
  using assms unfolding writes_def
  by (auto simp: only_changes_def write_spec_def dest!: atomic_write_spec)

lemma writes_same_dir: "writes E J name P fs fs' \<Longrightarrow> cl_dir E = Inl e \<Longrightarrow> fs' = fs"
  by (auto simp: writes_def)

lemma atomic_write_content:
  "atomic_write_json J pid F p v fs = (w, fs') \<Longrightarrow>
    fs' (path_key p) = fs (path_key p) \<or> fs' (path_key p) = ok (jf_print J v)"
  by (drule json_file.put_atomic) auto

lemma writes_content:
  assumes "json_law J" "writes E J name P fs fs'" "cl_dir E = Inr d" "file_ok J P (fs (d, name))"
  shows "file_ok J P (fs' (d, name))"
proof -
  have "file_ok J P (ok (jf_print J v))" if "P v" for v
    using that assms(1) by (auto simp: file_ok_def ok_def json_law_def split: sum.splits)
  moreover have "fs' (d, name) = fs (d, name) \<or> (\<exists>v. P v \<and> fs' (d, name) = ok (jf_print J v))"
    using assms(2,3) unfolding writes_def by (auto dest!: atomic_write_content)
  ultimately show ?thesis
    using assms(4) by auto
qed

lemma with_result_cases:
  assumes "with_result r fs k = (res, fs')"
  obtains (refused) e where "r = Inl e" "res = Returned (Inl e)" "fs' = fs"
    | (passed) x where "r = Inr x" "k x = (res, fs')"
  using assms by (cases r) (auto simp: with_result_def)

lemma after_op_files: "after_op x out = (r, fs') \<Longrightarrow> snd (snd x) = fs'"
  by (auto simp: after_op_def split: prod.splits outcome.splits sum.splits)

lemma pure_result_files: "pure_result r fs = (res, fs') \<Longrightarrow> fs' = fs"
  by (simp add: pure_result_def)

text \<open>What a store is when it was opened from a good file.\<close>

lemma load_file_ok:
  assumes "load_json_or_default J v0 R (path_join d name) fs = Inr v" "good_file E J name P fs" "cl_dir E = Inr d" "P v0"
  shows "P v"
  using assms by (auto simp: load_json_or_default_def good_file_def file_ok_def map_err_def
      split: option.splits if_splits sum.splits)

section \<open>The wallet and the roots\<close>

abbreviation wallet_value_ok :: "('i, 's) cap_lib \<Rightarrow> wallet_map \<Rightarrow> bool" where
  "wallet_value_ok L m \<equiv> wallet_inv L iam_service \<lparr>wa_entries = m, wa_path = None\<rparr>"

lemma wallet_inv_path: "wallet_value_ok L (wa_entries w) \<longleftrightarrow> wallet_inv L iam_service w"
  by (simp add: wallet_inv_def)

lemma wallet_new_ok [simp]: "wallet_inv L i \<lparr>wa_entries = [], wa_path = None\<rparr>"
  by (simp add: wallet_inv_def btree_simps)

lemma open_wallet_ok:
  assumes "open_wallet E fs = Inr w" "good_file E (cl_wallets E) ''wallet.json'' (wallet_value_ok (cl_lib E)) fs"
  obtains d where "cl_dir E = Inr d" "wa_path w = Some (path_join d ''wallet.json'')"
    "wallet_inv (cl_lib E) iam_service w"
proof -
  from assms(1) obtain d m where d: "cl_dir E = Inr d"
    and m: "load_json_or_default (cl_wallets E) [] (cl_read E) (path_join d ''wallet.json'') fs = Inr m"
    and w: "w = \<lparr>wa_entries = m, wa_path = Some (path_join d ''wallet.json'')\<rparr>"
    by (auto simp: open_wallet_def wallet_open_def Let_def and_then_Inr map_err_def split: sum.splits)
  have "wallet_value_ok (cl_lib E) m"
    by (rule load_file_ok [OF m assms(2) d]) simp
  then have "wallet_inv (cl_lib E) iam_service w"
    using wallet_inv_path [of "cl_lib E" w] by (simp add: w)
  with d w show thesis
    by (intro that) simp_all
qed

lemma wallet_add_writes:
  assumes "wallet_inv L i w" "wallet_add J L i pid F label token nt now w fs = (r, w', fs')"
  shows "fs' = fs \<or> wallet_inv L i w' \<and> (\<exists>res. save_opt J pid F (wa_path w) (wa_entries w') fs = (res, fs'))"
  using wallet_add_inv [OF assms] assms(2)
  by (auto simp: wallet_add_def wallet_save_def Let_def split: sum.splits prod.splits)

lemma wallet_remove_writes:
  assumes "wallet_inv L i w" "wallet_remove J pid F label w fs = (r, w', fs')"
  shows "fs' = fs \<or> wallet_inv L i w' \<and> (\<exists>res. save_opt J pid F (wa_path w) (wa_entries w') fs = (res, fs'))"
  using wallet_remove_inv [OF assms] assms(2)
  by (auto simp: wallet_remove_def wallet_save_def Let_def split: sum.splits prod.splits outcome.splits if_splits)

lemma save_opt_writes:
  assumes "save_opt J (cl_pid E) (cl_write E) (Some (path_join d name)) v fs = (res, fs')" "cl_dir E = Inr d" "P v"
  shows "writes E J name P fs fs'"
  using assms by (auto simp: save_opt_def intro: writesI)

lemma cmd_wallet_writes:
  assumes "cmd_wallet E c fs = (r, fs')"
    and "good_file E (cl_wallets E) ''wallet.json'' (wallet_value_ok (cl_lib E)) fs"
  shows "writes E (cl_wallets E) ''wallet.json'' (wallet_value_ok (cl_lib E)) fs fs' \<and>
    (\<not> wallet_writes c \<longrightarrow> fs' = fs)"
proof -
  have saved: "writes E (cl_wallets E) ''wallet.json'' (wallet_value_ok (cl_lib E)) fs fs'"
    if w: "open_wallet E fs = Inr w" and x: "fs' = fs \<or> wallet_inv (cl_lib E) iam_service w' \<and>
      (\<exists>res. save_opt (cl_wallets E) (cl_pid E) (cl_write E) (wa_path w) (wa_entries w') fs = (res, fs'))" for w w'
  proof -
    obtain d where d: "cl_dir E = Inr d" "wa_path w = Some (path_join d ''wallet.json'')"
      using open_wallet_ok [OF w assms(2)] by blast
    with x show ?thesis
      using wallet_inv_path [of "cl_lib E" w'] by (auto intro: save_opt_writes)
  qed
  show ?thesis
  proof (cases c)
    case (WalletAdd label token nt stdin)
    from assms(1) [unfolded WalletAdd cmd_wallet.simps]
    have "writes E (cl_wallets E) ''wallet.json'' (wallet_value_ok (cl_lib E)) fs fs'"
    proof (cases rule: with_result_cases)
      case (passed t)
      from passed(2) show ?thesis
      proof (cases rule: with_result_cases)
        case (passed w)
        obtain res w' where add: "wallet_add (cl_wallets E) (cl_lib E) iam_service (cl_pid E) (cl_write E) label t nt
            (cl_now E) w fs = (res, w', fs')"
          using after_op_files [OF passed(2)] by (metis prod.collapse)
        have "wallet_inv (cl_lib E) iam_service w"
          using open_wallet_ok [OF passed(1) assms(2)] by blast
        from saved [OF passed(1) wallet_add_writes [OF this add]] show ?thesis .
      qed simp
    qed simp
    with WalletAdd show ?thesis by simp
  next
    case (WalletRm label)
    from assms(1) [unfolded WalletRm cmd_wallet.simps]
    have "writes E (cl_wallets E) ''wallet.json'' (wallet_value_ok (cl_lib E)) fs fs'"
    proof (cases rule: with_result_cases)
      case (passed w)
      obtain res w' where rm: "wallet_remove (cl_wallets E) (cl_pid E) (cl_write E) label w fs = (res, w', fs')"
        using after_op_files [OF passed(2)] by (metis prod.collapse)
      have "wallet_inv (cl_lib E) iam_service w"
        using open_wallet_ok [OF passed(1) assms(2)] by blast
      from saved [OF passed(1) wallet_remove_writes [OF this rm]] show ?thesis .
    qed simp
    with WalletRm show ?thesis by simp
  qed (use assms(1) in \<open>auto elim!: with_result_cases dest: pure_result_files\<close>)
qed

abbreviation roots_value_ok :: "hex_lib \<Rightarrow> roots_map \<Rightarrow> bool" where
  "roots_value_ok H m \<equiv> roots_inv H \<lparr>ro_roots = m, ro_path = None\<rparr>"

lemma roots_inv_path: "roots_value_ok H (ro_roots r) \<longleftrightarrow> roots_inv H r"
  by (simp add: roots_inv_def)

lemma roots_new_ok [simp]: "roots_inv H \<lparr>ro_roots = [], ro_path = None\<rparr>"
  by (simp add: roots_inv_def btree_simps)

lemma open_roots_ok:
  assumes "open_roots E fs = Inr r" "good_file E (cl_roots E) ''roots.json'' (roots_value_ok (cl_hex E)) fs"
  obtains d where "cl_dir E = Inr d" "ro_path r = Some (path_join d ''roots.json'')" "roots_inv (cl_hex E) r"
proof -
  from assms(1) obtain d m where d: "cl_dir E = Inr d"
    and m: "load_json_or_default (cl_roots E) [] (cl_read E) (path_join d ''roots.json'') fs = Inr m"
    and r: "r = \<lparr>ro_roots = m, ro_path = Some (path_join d ''roots.json'')\<rparr>"
    by (auto simp: open_roots_def roots_open_def Let_def and_then_Inr map_err_def split: sum.splits)
  have "roots_value_ok (cl_hex E) m"
    by (rule load_file_ok [OF m assms(2) d]) simp
  then have "roots_inv (cl_hex E) r"
    using roots_inv_path [of "cl_hex E" r] by (simp add: r)
  with d r show thesis
    by (intro that) simp_all
qed

lemma roots_add_writes:
  assumes "roots_inv H r" "roots_add H J pid F key label nb na r fs = (res, r', fs')"
  shows "fs' = fs \<or> roots_inv H r' \<and> (\<exists>res. save_opt J pid F (ro_path r) (ro_roots r') fs = (res, fs'))"
  using roots_add_inv [OF assms] assms(2)
  by (auto simp: roots_add_def roots_save_def Let_def split: if_splits prod.splits)

lemma saved_true_files: "saved_true w r = (res, r', fs') \<Longrightarrow> snd w = fs'"
  by (auto simp: saved_true_def split: prod.splits outcome.splits sum.splits)

lemma roots_retire_writes:
  assumes "roots_inv H r" "roots_retire H J pid F key at r fs = (res, r', fs')"
  shows "fs' = fs \<or> roots_inv H r' \<and> (\<exists>res. save_opt J pid F (ro_path r) (ro_roots r') fs = (res, fs'))"
  using roots_retire_inv [OF assms] assms(2)
  by (auto simp: roots_retire_def roots_save_def saved_true_def Let_def
      split: option.splits prod.splits outcome.splits sum.splits)

lemma roots_remove_inv:
  assumes "roots_inv H r" "roots_remove H J pid F key r fs = (res, r', fs')"
  shows "roots_inv H r'"
proof -
  have "ro_roots r' = bt_remove (principal_hex H key) (ro_roots r)"
    using assms(2) by (auto simp: roots_remove_def saved_true_def Let_def
        split: if_splits prod.splits outcome.splits sum.splits)
  with assms(1) show ?thesis
    using length_bt_remove_le [of "principal_hex H key" "ro_roots r"]
    by (auto simp: roots_inv_def keeps_ok btree_simps)
qed

lemma roots_remove_writes:
  assumes "roots_inv H r" "roots_remove H J pid F key r fs = (res, r', fs')"
  shows "fs' = fs \<or> roots_inv H r' \<and> (\<exists>res. save_opt J pid F (ro_path r) (ro_roots r') fs = (res, fs'))"
  using roots_remove_inv [OF assms] assms(2)
  by (auto simp: roots_remove_def roots_save_def saved_true_def Let_def
      split: if_splits prod.splits outcome.splits sum.splits)

lemmas root_op_writes = roots_add_writes roots_retire_writes roots_remove_writes

lemma cmd_root_writes:
  assumes "cmd_root E c fs = (r, fs')"
    and "good_file E (cl_roots E) ''roots.json'' (roots_value_ok (cl_hex E)) fs"
  shows "writes E (cl_roots E) ''roots.json'' (roots_value_ok (cl_hex E)) fs fs' \<and>
    (\<not> root_writes c \<longrightarrow> fs' = fs)"
proof -
  let ?W = "writes E (cl_roots E) ''roots.json'' (roots_value_ok (cl_hex E)) fs fs'"
  have saved: "?W"
    if ro: "open_roots E fs = Inr ro" and x: "after_op res out = (r, fs')"
      and step: "roots_inv (cl_hex E) ro \<Longrightarrow> fs' = fs \<or> roots_inv (cl_hex E) (fst (snd res)) \<and>
        (\<exists>o1. save_opt (cl_roots E) (cl_pid E) (cl_write E) (ro_path ro) (ro_roots (fst (snd res))) fs = (o1, fs'))"
    for ro out and res :: "(iam_error + 'z) outcome \<times> roots \<times> fs"
  proof -
    obtain d where d: "cl_dir E = Inr d" "ro_path ro = Some (path_join d ''roots.json'')" "roots_inv (cl_hex E) ro"
      using open_roots_ok [OF ro assms(2)] by blast
    with step show ?thesis
      using roots_inv_path [of "cl_hex E" "fst (snd res)"] by (auto intro: save_opt_writes)
  qed
  have split: "x = (fst x, fst (snd x), fs')" if "after_op x out = (r, fs')"
    for out and x :: "(iam_error + 'z) outcome \<times> roots \<times> fs"
    using after_op_files [OF that] by (metis prod.collapse)
  show ?thesis
  proof (cases c)
    case (RootAdd k label valid_in valid_for)
    from assms(1) [unfolded RootAdd cmd_root.simps] have ?W
    proof (cases rule: with_result_cases)
      case (passed key)
      from passed(2) show ?thesis
      proof (cases rule: with_result_cases)
        case (passed ro)
        show ?thesis
          by (rule saved [OF passed], erule roots_add_writes, rule split [OF passed(2)])
      qed simp
    qed simp
    with RootAdd show ?thesis by simp
  next
    case (RootRetire k secs)
    from assms(1) [unfolded RootRetire cmd_root.simps] have ?W
    proof (cases rule: with_result_cases)
      case (passed key)
      from passed(2) show ?thesis
      proof (cases rule: with_result_cases)
        case (passed ro)
        show ?thesis
          by (rule saved [OF passed], erule roots_retire_writes, rule split [OF passed(2)])
      qed simp
    qed simp
    with RootRetire show ?thesis by simp
  next
    case (RootRm k)
    from assms(1) [unfolded RootRm cmd_root.simps] have ?W
    proof (cases rule: with_result_cases)
      case (passed key)
      from passed(2) show ?thesis
      proof (cases rule: with_result_cases)
        case (passed ro)
        show ?thesis
          by (rule saved [OF passed], erule roots_remove_writes, rule split [OF passed(2)])
      qed simp
    qed simp
    with RootRm show ?thesis by simp
  qed (use assms(1) in \<open>auto elim!: with_result_cases dest: pure_result_files\<close>)
qed

section \<open>The revocation cache\<close>

lemma resolve_revocation_writes:
  assumes "resolve_revocation H (cl_cache E) (cl_pid E) (cl_write E) R (cl_dir E) answer no_check closed ttl now fs =
    (r, fs')"
  shows "writes E (cl_cache E) ''revocation-cache.json'' (\<lambda>_. True) fs fs' \<and> (no_check \<longrightarrow> fs' = fs)"
proof (cases "\<exists>d c. cl_dir E = Inr d \<and> \<not> no_check \<and>
    cached_load (cl_cache E) R (path_join d ''revocation-cache.json'') ttl fs = Inr c")
  case True
  then obtain d c where d: "cl_dir E = Inr d" "\<not> no_check"
    and c: "cached_load (cl_cache E) R (path_join d ''revocation-cache.json'') ttl fs = Inr c"
    by blast
  obtain o1 c1 fs1 where ref: "cached_refresh (cl_cache E) (cl_pid E) (cl_write E) answer now
      (Some (path_join d ''revocation-cache.json'')) c fs = (o1, c1, fs1)"
    by (rule prod_cases3)
  have "fs1 = fs'"
    using assms d c ref by (auto simp: resolve_revocation_def Let_def split: outcome.splits sum.splits if_splits
        revocation_policy.splits)
  moreover have "writes E (cl_cache E) ''revocation-cache.json'' (\<lambda>_. True) fs fs1"
    using ref d by (auto simp: cached_refresh_def Let_def split: sum.splits prod.splits intro: writesI)
  ultimately show ?thesis using d by simp
next
  case False
  with assms show ?thesis
    by (auto simp: resolve_revocation_def Let_def split: if_splits sum.splits)
qed

lemma cmd_verify_writes:
  assumes "cmd_verify E a fs = (r, fs')"
  shows "writes E (cl_cache E) ''revocation-cache.json'' (\<lambda>_. True) fs fs' \<and>
    (ve_no_revocation_check a \<longrightarrow> fs' = fs)"
proof -
  have ended: "writes E (cl_cache E) ''revocation-cache.json'' (\<lambda>_. True) fs fs' \<and> (ve_no_revocation_check a \<longrightarrow> fs' = fs)"
    if "(case x of (Stopped, fs1) \<Rightarrow> (Stopped, fs1) | (Returned (Inl e), fs1) \<Rightarrow> (Returned (Inl (CIam e)), fs1)
        | (Returned (Inr v), fs1) \<Rightarrow> (Returned (Inr (k v)), fs1)) = (r, fs')"
      and "x = resolve_revocation (cl_hex E) (cl_cache E) (cl_pid E) (cl_write E) (cl_read E) (cl_dir E)
        (cl_answer E) (ve_no_revocation_check a) (ve_fail_closed a) (ve_revocation_ttl a) (cl_now E) fs" for x k
  proof -
    have "x = (fst x, fs')"
      using that(1) by (auto split: prod.splits outcome.splits sum.splits)
    from this [unfolded that(2)] show ?thesis
      by (rule resolve_revocation_writes)
  qed
  with assms show ?thesis
    unfolding cmd_verify_def by (elim with_result_cases) (erule ended [OF _ refl] | simp)+
qed

section \<open>The catalog\<close>

text \<open>What the catalog promises, without versions, logs and sorted lists.\<close>

record role_state =
  rs_roles :: "string \<Rightarrow> role option"
  rs_policies :: "string \<Rightarrow> policy option"
  rs_attached :: "(principal \<times> string) set"

fun spec_op :: "catalog_op \<Rightarrow> role_state \<Rightarrow> role_state" where
  "spec_op (PutRole r) s = s\<lparr>rs_roles := (rs_roles s)(role_name r \<mapsto> r)\<rparr>"
| "spec_op (RemoveRole name) s =
     s\<lparr>rs_roles := (rs_roles s)(name := None), rs_attached := {(p, r) \<in> rs_attached s. r \<noteq> name}\<rparr>"
| "spec_op (PutPolicy name p) s = s\<lparr>rs_policies := (rs_policies s)(name \<mapsto> p)\<rparr>"
| "spec_op (RemovePolicy name) s = s\<lparr>rs_policies := (rs_policies s)(name := None)\<rparr>"
| "spec_op (AttachRole p role) s = s\<lparr>rs_attached := insert (p, role) (rs_attached s)\<rparr>"
| "spec_op (DetachRole p role) s = s\<lparr>rs_attached := rs_attached s - {(p, role)}\<rparr>"

definition abs_catalog :: "hex_lib \<Rightarrow> catalog \<Rightarrow> role_state" where
  "abs_catalog H c = \<lparr>rs_roles = bt_get (cat_roles c), rs_policies = bt_get (cat_policies c),
     rs_attached = {(p, r). principal_ok p \<and> r \<in> set (roles_for H c p)}\<rparr>"

lemma abs_catalog_same_maps: "same_maps c c' \<Longrightarrow> abs_catalog H c = abs_catalog H c'"
  by (simp add: same_maps_def abs_catalog_def roles_for_def)

lemma roles_for_effect:
  assumes "hex_lib_ok H" "catalog_inv H c"
  shows "set (roles_for H (catalog_effect H op c) q) =
    (case op of
       RemoveRole name \<Rightarrow> set (roles_for H c q) - {name}
     | AttachRole p r \<Rightarrow> if q = p then insert r (set (roles_for H c q)) else set (roles_for H c q)
     | DetachRole p r \<Rightarrow> if q = p then set (roles_for H c q) - {r} else set (roles_for H c q)
     | _ \<Rightarrow> set (roles_for H c q))"
proof -
  have ok: "bt_ok (cat_attachments c)"
    using assms(2) by (simp add: catalog_inv_def)
  have hex: "principal_hex H q = principal_hex H p \<longleftrightarrow> q = p" for p
    using principal_hex_inj [OF assms(1)] by blast
  show ?thesis
  proof (cases op)
    case (DetachRole p r)
    then show ?thesis
      by (auto simp: roles_for_def btree_simps hex unwrap_or_def Let_def filter_empty_conv
          split: option.splits if_splits)
  next
    case (AttachRole p r)
    then show ?thesis
      by (auto simp: roles_for_def btree_simps hex unwrap_or_def attach_to_def split: option.splits if_splits)
  next
    case (RemoveRole name)
    then show ?thesis
      using ok by (auto simp: roles_for_def btree_simps keeps_ok unwrap_or_def filter_empty_conv
          split: option.splits if_splits)
  qed (auto simp: roles_for_def)
qed

lemma roles_for_apply:
  "roles_for H (catalog_apply H c op actor) p = roles_for H (catalog_effect H op c) p"
  by (simp add: roles_for_def)

lemma abs_catalog_apply:
  assumes "hex_lib_ok H" "catalog_inv H c" "op_principal_ok op"
  shows "abs_catalog H (catalog_apply H c op actor) = spec_op op (abs_catalog H c)"
proof -
  have att: "rs_attached (abs_catalog H (catalog_apply H c op actor)) = rs_attached (spec_op op (abs_catalog H c))"
    using assms(3) unfolding abs_catalog_def role_state.simps roles_for_apply roles_for_effect [OF assms(1,2)]
    by (cases op) (auto split: if_splits)
  have roles: "rs_roles (abs_catalog H (catalog_apply H c op actor)) = rs_roles (spec_op op (abs_catalog H c))"
    "rs_policies (abs_catalog H (catalog_apply H c op actor)) = rs_policies (spec_op op (abs_catalog H c))"
    by (cases op; auto simp: abs_catalog_def btree_simps fun_eq_iff Let_def split: option.splits)+
  from att roles show ?thesis
    by (intro role_state.equality) simp_all
qed

text \<open>The operation a role command asks for.\<close>

fun role_op :: "('i, 's) cli \<Rightarrow> (string \<Rightarrow> string + policy) \<Rightarrow> role_cmd \<Rightarrow> catalog_op option" where
  "role_op E parse (RolePut name description input) =
     map_option (\<lambda>policy. PutRole \<lparr>role_name = name, role_description = description, role_policy = policy\<rparr>)
       (ok (and_then input (\<lambda>s. map_err CIam (policy_from_json parse s))))"
| "role_op E parse (RoleRm name) = Some (RemoveRole name)"
| "role_op E parse (RoleAttach p role) =
     map_option (\<lambda>principal. AttachRole principal role) (ok (principal_parse (cl_hex E) p))"
| "role_op E parse (RoleDetach p role) =
     map_option (\<lambda>principal. DetachRole principal role) (ok (principal_parse (cl_hex E) p))"
| "role_op E parse _ = None"

lemma role_op_principal: "role_op E parse c = Some op \<Longrightarrow> op_principal_ok op"
  by (cases c) (auto simp: ok_def dest: parse_principal_ok split: sum.splits)

definition succeeded :: "('e + 'a) outcome \<Rightarrow> bool" where
  "succeeded r = (case r of Returned (Inr _) \<Rightarrow> True | _ \<Rightarrow> False)"

lemma succeeded_simps [simp]:
  "succeeded (Returned (Inr x))" "\<not> succeeded (Returned (Inl e))" "\<not> succeeded Stopped"
  by (simp_all add: succeeded_def)

lemma after_op_cases:
  assumes "after_op x out = (r, fs')"
  obtains o1 st where "x = (o1, st, fs')" "succeeded o1 \<longleftrightarrow> succeeded r" "o1 = Stopped \<longleftrightarrow> r = Stopped"
  using assms by (auto simp: after_op_def split: prod.splits outcome.splits sum.splits)

lemma cmd_role_cases:
  assumes "cmd_role E parse c fs = (r, fs')"
  obtains (same) "fs' = fs" "r \<noteq> Stopped" "succeeded r \<longrightarrow> \<not> role_writes c"
    | (applied) st st' op o1 where "role_op E parse c = Some op" "open_catalog_store E fs = Inr st"
      "catalog_store_apply (cl_hex E) (cl_catalogs E) (cl_pid E) (cl_write E) op (cli_actor E) st fs = (o1, st', fs')"
      "succeeded o1 \<longleftrightarrow> succeeded r" "o1 = Stopped \<longleftrightarrow> r = Stopped"
    | (compact) st st' o1 where "c = RoleCompact" "open_catalog_store E fs = Inr st"
      "catalog_store_compact (cl_hex E) (cl_catalogs E) (cl_pid E) (cl_write E) st fs = (o1, st', fs')"
      "succeeded o1 \<longleftrightarrow> succeeded r" "o1 = Stopped \<longleftrightarrow> r = Stopped"
proof -
  have op: thesis if "apply_op E op out fs = (r, fs')" "role_op E parse c = Some op" for op out
    using that(1) unfolding apply_op_def
  proof (cases rule: with_result_cases)
    case refused
    then show ?thesis by (intro same) simp_all
  next
    case (passed st)
    from passed(2) show ?thesis
      by (rule after_op_cases) (rule applied [OF that(2) passed(1)], simp_all)
  qed
  show thesis
  proof (cases c)
    case (RolePut name description input)
    from assms [unfolded RolePut cmd_role.simps] show ?thesis
    proof (cases rule: with_result_cases)
      case (passed s)
      from passed(2) show ?thesis
      proof (cases rule: with_result_cases)
        case (passed policy)
        with \<open>input = Inr s\<close> show ?thesis
          by (intro op) (auto simp: RolePut and_then_def ok_def map_err_def)
      qed (intro same; simp)
    qed (intro same; simp)
  next
    case (RoleRm name)
    with assms show ?thesis by (intro op) simp_all
  next
    case (RoleAttach p role)
    from assms [unfolded RoleAttach cmd_role.simps] show ?thesis
    proof (cases rule: with_result_cases)
      case (passed principal)
      then show ?thesis
        by (intro op) (auto simp: RoleAttach parse_arg_def map_err_def ok_def split: sum.splits)
    qed (intro same; simp)
  next
    case (RoleDetach p role)
    from assms [unfolded RoleDetach cmd_role.simps] show ?thesis
    proof (cases rule: with_result_cases)
      case (passed principal)
      then show ?thesis
        by (intro op) (auto simp: RoleDetach parse_arg_def map_err_def ok_def split: sum.splits)
    qed (intro same; simp)
  next
    case RoleCompact
    from assms [unfolded RoleCompact cmd_role.simps] show ?thesis
    proof (cases rule: with_result_cases)
      case (passed st)
      from passed(2) show ?thesis
        by (rule after_op_cases) (rule compact [OF RoleCompact passed(1)], simp_all)
    qed (intro same; simp)
  qed (use assms in \<open>auto elim!: with_result_cases simp: pure_result_def intro!: same\<close>)
qed

abbreviation catalog_value_ok :: "hex_lib \<Rightarrow> catalog_log \<Rightarrow> bool" where
  "catalog_value_ok H l \<equiv> log_len l \<le> MAX_CATALOG_OPS \<and> catalog_good H (log_replay H l)"

text \<open>The catalog a file holds.\<close>

definition disk_catalog :: "hex_lib \<Rightarrow> catalog_log json_format \<Rightarrow> string option \<Rightarrow> catalog" where
  "disk_catalog H J f = log_replay H
     (case f of None \<Rightarrow> log_new
      | Some content \<Rightarrow> (case jf_parse J content of Inl e \<Rightarrow> log_new | Inr l \<Rightarrow> l))"

lemma catalog_value_new: "catalog_value_ok H log_new"
  using catalog_new_good [of H] by (simp add: log_len_def log_new_def log_replay_def replay_through_def)

lemma disk_catalog_on_disk:
  assumes "on_disk J st fs" "cs_path st = path_join d ''catalog.json''" "store_inv H st"
  shows "disk_catalog H J (fs (d, ''catalog.json'')) = cs_catalog st"
  using assms by (auto simp: on_disk_def disk_catalog_def store_inv_def split: option.splits)

lemma open_catalog_ok:
  assumes "open_catalog_store E fs = Inr st" "good_file E (cl_catalogs E) ''catalog.json'' (catalog_value_ok (cl_hex E)) fs"
  obtains d where "cl_dir E = Inr d" "cs_path st = path_join d ''catalog.json''" "store_inv (cl_hex E) st"
    "on_disk (cl_catalogs E) st fs"
proof -
  from assms(1) obtain d l where d: "cl_dir E = Inr d"
    and l: "load_json_or_default (cl_catalogs E) log_new (cl_read E) (path_join d ''catalog.json'') fs = Inr l"
    and st: "st = \<lparr>cs_path = path_join d ''catalog.json'', cs_log = l, cs_catalog = log_replay (cl_hex E) l\<rparr>"
    by (auto simp: open_catalog_store_def catalog_store_open_def Let_def and_then_Inr map_err_def
        split: sum.splits if_splits)
  have v: "catalog_value_ok (cl_hex E) l"
    by (rule load_file_ok [OF l assms(2) d catalog_value_new])
  have "on_disk (cl_catalogs E) st fs"
    using l by (auto simp: st on_disk_def load_json_or_default_def map_err_def
        split: option.splits sum.splits if_splits)
  with d v show thesis
    by (intro that [OF d]) (simp_all add: st store_inv_def)
qed

lemma commit_writes:
  assumes "commit (atomic_write_json (cl_catalogs E) (cl_pid E) (cl_write E) (path_join d ''catalog.json'') (cs_log new) fs)
      st new = (o1, st', fs')"
    and "cl_dir E = Inr d" "store_inv (cl_hex E) new"
  shows "writes E (cl_catalogs E) ''catalog.json'' (catalog_value_ok (cl_hex E)) fs fs'"
proof -
  have "catalog_value_ok (cl_hex E) (cs_log new)"
    using assms(3) unfolding store_inv_def by metis
  then show ?thesis
    using commit_cases [OF assms(1)] by (intro writesI [OF assms(2)]) auto
qed

text \<open>The new store, under both operations that write one.\<close>

lemma commit_refines:
  assumes "json_law J" "store_inv H st" "on_disk J st fs" "cs_path st = path_join d ''catalog.json''"
    and "cs_path new = cs_path st" "store_inv H new"
    and "commit (atomic_write_json J pid F (cs_path st) (cs_log new) fs) st new = (o1, st', fs')"
  shows "(succeeded o1 \<longrightarrow> disk_catalog H J (fs' (d, ''catalog.json'')) = cs_catalog new) \<and>
    (\<not> succeeded o1 \<longrightarrow> o1 \<noteq> Stopped \<longrightarrow> disk_catalog H J (fs' (d, ''catalog.json'')) = cs_catalog st) \<and>
    (o1 = Stopped \<longrightarrow> disk_catalog H J (fs' (d, ''catalog.json'')) \<in> {cs_catalog st, cs_catalog new})"
proof -
  note disk = commit_disk [OF assms(1,3,5,7)]
  have st': "st' = (if o1 = Returned (Inr ()) then new else st)"
    using commit_cases [OF assms(7)] by simp
  have held: "disk_catalog H J (fs' (d, ''catalog.json'')) = cs_catalog s" if "s \<in> {st, new}" "on_disk J s fs'" for s
    using that assms(2,4-6) by (auto intro: disk_catalog_on_disk)
  show ?thesis
  proof (cases o1)
    case (Returned res)
    then have "on_disk J st' fs'" using disk by blast
    then show ?thesis
      using held [of st'] Returned st' by (cases res) auto
  next
    case Stopped
    then show ?thesis using disk held by auto
  qed
qed

lemma cmd_role_store:
  assumes "cmd_role E parse c fs = (r, fs')" "hex_lib_ok (cl_hex E)" "pred_option principal_ok (cli_actor E)"
    and "good_file E (cl_catalogs E) ''catalog.json'' (catalog_value_ok (cl_hex E)) fs"
  obtains (same) "fs' = fs" "r \<noteq> Stopped" "succeeded r \<longrightarrow> \<not> role_writes c"
    | (written) d st new st' o1 where "cl_dir E = Inr d" "cs_path st = path_join d ''catalog.json''"
      "store_inv (cl_hex E) st" "on_disk (cl_catalogs E) st fs" "cs_path new = cs_path st" "store_inv (cl_hex E) new"
      "commit (atomic_write_json (cl_catalogs E) (cl_pid E) (cl_write E) (cs_path st) (cs_log new) fs) st new =
        (o1, st', fs')" "succeeded o1 \<longleftrightarrow> succeeded r" "o1 = Stopped \<longleftrightarrow> r = Stopped" "role_writes c"
      "abs_catalog (cl_hex E) (cs_catalog new) =
        (case role_op E parse c of None \<Rightarrow> id | Some op \<Rightarrow> spec_op op) (abs_catalog (cl_hex E) (cs_catalog st))"
  using assms(1)
proof (cases rule: cmd_role_cases)
  case same
  then show ?thesis by (rule that(1))
next
  case (applied st st' op o1)
  obtain d where d: "cl_dir E = Inr d" "cs_path st = path_join d ''catalog.json''" "store_inv (cl_hex E) st"
    "on_disk (cl_catalogs E) st fs"
    using open_catalog_ok [OF applied(2) assms(4)] by blast
  have w: "role_writes c"
    using applied(1) by (cases c) auto
  have p: "op_principal_ok op" by (rule role_op_principal [OF applied(1)])
  from applied(3) show ?thesis
  proof (cases rule: store_apply_cases)
    case (refused e)
    with applied(4,5) show ?thesis by (intro that(1)) simp_all
  next
    case written
    have new: "store_inv (cl_hex E) (applied (cl_hex E) op (cli_actor E) st)"
      by (rule applied_inv [OF assms(2) d(3) p assms(3) written(1,2)])
    have "catalog_inv (cl_hex E) (cs_catalog st)"
      using d(3) unfolding store_inv_def catalog_good_def by blast
    from abs_catalog_apply [OF assms(2) this p]
    show ?thesis
      using that(2) [OF d applied_sel(1) new written(3) applied(4,5) w] applied(1) by simp
  qed
next
  case (compact st st' o1)
  obtain d where d: "cl_dir E = Inr d" "cs_path st = path_join d ''catalog.json''" "store_inv (cl_hex E) st"
    "on_disk (cl_catalogs E) st fs"
    using open_catalog_ok [OF compact(2) assms(4)] by blast
  have new: "store_inv (cl_hex E) (compacted (cl_hex E) st)"
    and same: "same_maps (cs_catalog (compacted (cl_hex E) st)) (cs_catalog st)"
    using compacted_store [OF assms(2) d(3)] by blast+
  show ?thesis
    using that(2) [OF d compacted_sel(1) new compact(3) [unfolded store_compact_commit] compact(4,5)]
      abs_catalog_same_maps [OF same] compact(1) by simp
qed

lemma cmd_role_writes:
  assumes "cmd_role E parse c fs = (r, fs')" "hex_lib_ok (cl_hex E)" "pred_option principal_ok (cli_actor E)"
    and "good_file E (cl_catalogs E) ''catalog.json'' (catalog_value_ok (cl_hex E)) fs"
  shows "writes E (cl_catalogs E) ''catalog.json'' (catalog_value_ok (cl_hex E)) fs fs' \<and>
    (\<not> role_writes c \<longrightarrow> fs' = fs)"
  by (rule cmd_role_store [OF assms]) (simp_all add: commit_writes)

section \<open>The device registry\<close>

fun device_op :: "('i, 's) cli \<Rightarrow> device_cmd \<Rightarrow> dev_op option" where
  "device_op E (DeviceClaim dev pub_b64 node) = map_option (OpClaim dev pub_b64) (ok (resolve_node_id E node))"
| "device_op E (DeviceRequest dev pub_b64 node label) =
     map_option (\<lambda>n. OpRequest dev pub_b64 n label) (ok (resolve_node_id E node))"
| "device_op E DeviceList = None"
| "device_op E (DeviceApprove dev) = Some (OpApprove dev)"
| "device_op E (DeviceRevoke dev) = Some (OpRevoke dev)"

lemma with_devices_cases:
  assumes "with_devices E fs k = (r, fs')"
  obtains (same) "fs' = fs" | (opened) d m where "cl_dir E = Inr d"
      "dev_load (cl_devices E) (cl_read E) (dev_path d) fs = Inr m"
      "k \<lparr>ds_path = dev_path d, ds_map = m\<rparr> fs = (r, fs')"
  using assms by (auto simp: with_devices_def with_result_def map_err_def dev_open_def dev_call_def and_persist_def
      Let_def split: sum.splits io.splits)

lemma after_dev_files: "after_dev x out = (r, fs') \<Longrightarrow> x = (fst x, fst (snd x), fs')"
  by (auto simp: after_dev_def split: prod.splits outcome.splits sum.splits)

lemma and_persist_files:
  "and_persist J F changed x st fs = (r, st', fs') \<Longrightarrow>
    (\<not> changed \<and> fs' = fs) \<or> (changed \<and> (\<exists>o1. dev_persist J F (ds_path st) (ds_map st) fs = (o1, fs')))"
  by (auto simp: and_persist_def split: if_splits prod.splits outcome.splits sum.splits)

text \<open>A device command changes nothing, or persists the map its operation makes of the file's.\<close>

lemma cmd_device_cases:
  assumes "cmd_device E c fs = (r, fs')"
  obtains (same) "fs' = fs" | (changed) d m op o1 where "cl_dir E = Inr d"
      "dev_load (cl_devices E) (cl_read E) (dev_path d) fs = Inr m" "device_op E c = Some op"
      "dev_persist (cl_devices E) (cl_write E) (dev_path d) (dev_mem (cl_now E) op m) fs = (o1, fs')"
proof -
  have fin: thesis
    if m: "cl_dir E = Inr d" "dev_load (cl_devices E) (cl_read E) (dev_path d) fs = Inr m" "device_op E c = Some op"
      and x: "snd (snd (dev_exec (cl_devices E) (cl_write E) (cl_now E) op \<lparr>ds_path = dev_path d, ds_map = m\<rparr> fs)) = fs'"
    for d m op
  proof -
    obtain ch m' where l: "dev_locked (cl_now E) op m = (ch, m')" by fastforce
    then have "and_persist (cl_devices E) (cl_write E) ch ch \<lparr>ds_path = dev_path d, ds_map = m'\<rparr> fs =
        (fst (and_persist (cl_devices E) (cl_write E) ch ch \<lparr>ds_path = dev_path d, ds_map = m'\<rparr> fs),
         fst (snd (and_persist (cl_devices E) (cl_write E) ch ch \<lparr>ds_path = dev_path d, ds_map = m'\<rparr> fs)), fs')"
      using x by (intro prod_eqI) (simp_all add: dev_exec_locked)
    from and_persist_files [OF this] show ?thesis
      using same changed [OF m] l by (auto simp: dev_mem_def)
  qed
  show thesis
  proof (cases c)
    case (DeviceClaim dev pk node)
    from assms [unfolded DeviceClaim cmd_device.simps] show ?thesis
    proof (cases rule: with_result_cases)
      case (passed node_id)
      from passed(2) show ?thesis
      proof (cases rule: with_devices_cases)
        case (opened d m)
        from arg_cong [OF after_dev_files [OF opened(3)], of "\<lambda>x. snd (snd x)"] show ?thesis
          by (intro fin [OF opened(1,2), of "OpClaim dev pk node_id"]) (auto simp: DeviceClaim passed(1) ok_def split: prod.splits outcome.splits sum.splits)
      qed (rule same)
    qed (rule same)
  next
    case (DeviceRequest dev pk node label)
    from assms [unfolded DeviceRequest cmd_device.simps] show ?thesis
    proof (cases rule: with_result_cases)
      case (passed node_id)
      from passed(2) show ?thesis
      proof (cases rule: with_devices_cases)
        case (opened d m)
        from arg_cong [OF after_dev_files [OF opened(3)], of "\<lambda>x. snd (snd x)"] show ?thesis
          by (intro fin [OF opened(1,2), of "OpRequest dev pk node_id label"]) (auto simp: DeviceRequest passed(1) ok_def split: prod.splits outcome.splits sum.splits)
      qed (rule same)
    qed (rule same)
  next
    case (DeviceApprove dev)
    from assms [unfolded DeviceApprove cmd_device.simps] show ?thesis
    proof (cases rule: with_devices_cases)
      case (opened d m)
      from arg_cong [OF after_dev_files [OF opened(3)], of "\<lambda>x. snd (snd x)"] show ?thesis
        by (intro fin [OF opened(1,2), of "OpApprove dev"]) (auto simp: DeviceApprove split: prod.splits outcome.splits sum.splits)
    qed (rule same)
  next
    case (DeviceRevoke dev)
    from assms [unfolded DeviceRevoke cmd_device.simps] show ?thesis
    proof (cases rule: with_devices_cases)
      case (opened d m)
      from arg_cong [OF after_dev_files [OF opened(3)], of "\<lambda>x. snd (snd x)"] show ?thesis
        by (intro fin [OF opened(1,2), of "OpRevoke dev"]) (auto simp: DeviceRevoke split: prod.splits outcome.splits sum.splits)
    qed (rule same)
  qed (use assms in \<open>auto elim!: with_devices_cases dest: pure_result_files intro: same\<close>)
qed

lemma dev_keys [simp]: "path_key (dev_path d) = (d, ''devices.json'')" "dev_tmp (dev_path d) = (d, ''devices.json.tmp'')"
  by (simp_all add: dev_path_def dev_tmp_def)

lemma dev_persist_frame:
  assumes "dev_persist J F (dev_path d) m fs = (o1, fs')"
  shows "only_changes (\<lambda>k. k = (d, ''devices.json'') \<or> k = (d, ''devices.json.tmp'')) fs fs'"
  using assms by (auto simp: dev_persist_def dev_call_def dev_call_ignored_def only_changes_def
      split: sum.splits io.splits if_splits)

lemma dev_persist_content:
  assumes "dev_persist J F (dev_path d) m fs = (o1, fs')"
  shows "fs' (d, ''devices.json'') = fs (d, ''devices.json'') \<or> fs' (d, ''devices.json'') = ok (jf_print J m)"
  using dev_persist_effect [OF assms] by (auto simp: ok_def)

lemma cmd_device_frame:
  assumes "cmd_device E c fs = (r, fs')" "cl_dir E = Inr d"
  shows "only_changes (\<lambda>k. device_writes c \<and> (k = (d, ''devices.json'') \<or> k = (d, ''devices.json.tmp''))) fs fs'"
  using assms(1)
proof (cases rule: cmd_device_cases)
  case (changed d' m op o1)
  moreover from changed(3) have "device_writes c" by (cases c) auto
  ultimately show ?thesis
    using dev_persist_frame [OF changed(4)] assms(2) by simp
qed simp

lemma dev_load_ok:
  assumes "dev_load J R (dev_path d) fs = Inr m" "file_ok J bt_ok (fs (d, ''devices.json''))"
  shows "bt_ok m"
  using assms by (auto simp: dev_load_def file_ok_def split: option.splits if_splits)

lemma cmd_device_content:
  assumes "cmd_device E c fs = (r, fs')" "json_law (cl_devices E)" "cl_dir E = Inr d"
    and "file_ok (cl_devices E) bt_ok (fs (d, ''devices.json''))"
  shows "file_ok (cl_devices E) bt_ok (fs' (d, ''devices.json''))"
  using assms(1)
proof (cases rule: cmd_device_cases)
  case (changed d' m op o1)
  have "d' = d" using changed(1) assms(3) by simp
  with dev_load_ok [of "cl_devices E" "cl_read E" d fs m] changed(2) assms(4)
  have "bt_ok (dev_mem (cl_now E) op m)" by (simp add: keeps_ok)
  then have "file_ok (cl_devices E) bt_ok (ok (jf_print (cl_devices E) (dev_mem (cl_now E) op m)))"
    using assms(2) by (auto simp: file_ok_def ok_def json_law_def split: sum.splits)
  with dev_persist_content [OF changed(4)] assms(4) \<open>d' = d\<close> show ?thesis by auto
qed (use assms in simp)

section \<open>The device key\<close>

lemma load_or_create_frame:
  assumes "load_or_create_device_key J dir R F generated fs = (r, fs')"
  shows "case dir of Inl e \<Rightarrow> fs' = fs | Inr d \<Rightarrow> only_changes (\<lambda>k. k = (d, ''secrets-device.json'')) fs fs'"
proof -
  have "only_changes (\<lambda>k. k = (d, ''secrets-device.json'')) fs fs'"
    if "create_device_key J F generated (key_file d) fs = (r, fs')" for d
    using that by (auto simp: create_device_key_def write_in_place_def key_file_def only_changes_def
        split: sum.splits io.splits)
  then show ?thesis
    using assms by (auto simp: load_or_create_device_key_def Let_def split: sum.splits io.splits option.splits if_splits)
qed

lemma run_secret_files:
  assumes "run_secret E X c fs net = (r, fs', net')"
  shows "(usage_error c \<noteq> None \<and> fs' = fs) \<or>
    (usage_error c = None \<and> (\<exists>o1. load_or_create_device_key (vl_keys X) (cl_dir E) (cl_read E) (cl_write E)
      (vl_generated X) fs = (o1, fs')))"
  using assms by (auto simp: run_secret_def split: option.splits prod.splits outcome.splits sum.splits)

end
