(* ===== verification/History.thy ===== *)
theory History
  imports Program
begin

text \<open>
  Histories: any number of invocations of the program on one data directory, one after the other, each
  with its own clock, process id, arguments, faults and answers from outside, and each possibly cut
  off. What they share is the formats of the files and the libraries.
\<close>

section \<open>Invocations and histories\<close>

record ('i, 's, 'j, 'p, 'w, 'v, 'x, 'net) invocation =
  in_cli :: "('i, 's) cli"
  in_vault :: "('j, 'p, 'w, 'v, 'x, 'net) vault_cli"
  in_parse :: "string \<Rightarrow> string + policy"
  in_command :: "'x command"
  in_net :: 'net

definition invoke :: "('i, 's, 'j, 'p, 'w, 'v, 'x, 'net) invocation \<Rightarrow> fs \<Rightarrow> (cli_error + 'x main_output) outcome \<times> fs" where
  "invoke I fs =
     (case main_cmd (in_cli I) (in_vault I) (in_parse I) (in_command I) fs (in_net I) of (r, fs', net') \<Rightarrow> (r, fs'))"

definition after :: "('i, 's, 'j, 'p, 'w, 'v, 'x, 'net) invocation list \<Rightarrow> fs \<Rightarrow> fs" where
  "after Is fs = fold (\<lambda>I fs. snd (invoke I fs)) Is fs"

text \<open>An installation: the data directory \<open>d\<close>, which an invocation may fail to create, and the formats.\<close>

definition same_formats :: "('i, 's) cli \<Rightarrow> ('i, 's) cli \<Rightarrow> bool" where
  "same_formats E0 E \<longleftrightarrow> cl_hex E = cl_hex E0 \<and> cl_lib E = cl_lib E0 \<and> cl_catalogs E = cl_catalogs E0 \<and>
     cl_wallets E = cl_wallets E0 \<and> cl_roots E = cl_roots E0 \<and> cl_devices E = cl_devices E0 \<and>
     cl_cache E = cl_cache E0"

definition on_install :: "('i, 's) cli \<Rightarrow> string \<Rightarrow> ('i, 's, 'j, 'p, 'w, 'v, 'x, 'net) invocation \<Rightarrow> bool" where
  "on_install E0 d I \<longleftrightarrow> same_formats E0 (in_cli I) \<and> pred_option principal_ok (cli_actor (in_cli I)) \<and>
     (case cl_dir (in_cli I) of Inl e \<Rightarrow> True | Inr d' \<Rightarrow> d' = d)"

definition install_laws :: "('i, 's) cli \<Rightarrow> bool" where
  "install_laws E \<longleftrightarrow> hex_lib_ok (cl_hex E) \<and> json_law (cl_catalogs E) \<and> json_law (cl_wallets E) \<and>
     json_law (cl_roots E) \<and> json_law (cl_devices E) \<and> json_law (cl_cache E) \<and> no_blank (cl_devices E)"

text \<open>Every store is absent or holds a value that satisfies the store's invariant.\<close>

definition stores_ok :: "('i, 's) cli \<Rightarrow> string \<Rightarrow> fs \<Rightarrow> bool" where
  "stores_ok E d fs \<longleftrightarrow>
     file_ok (cl_catalogs E) (catalog_value_ok (cl_hex E)) (fs (d, ''catalog.json'')) \<and>
     file_ok (cl_wallets E) (wallet_value_ok (cl_lib E)) (fs (d, ''wallet.json'')) \<and>
     file_ok (cl_roots E) (roots_value_ok (cl_hex E)) (fs (d, ''roots.json'')) \<and>
     file_ok (cl_cache E) (\<lambda>_. True) (fs (d, ''revocation-cache.json'')) \<and>
     file_ok (cl_devices E) bt_ok (fs (d, ''devices.json''))"

lemma stores_ok_fresh: "(\<And>name. fs (d, name) = None) \<Longrightarrow> stores_ok E d fs"
  by (simp add: stores_ok_def)

text \<open>An invariant of every step holds after every history; the histories below are the instances.\<close>

locale run_invariant =
  fixes step :: "'e \<Rightarrow> 's \<Rightarrow> 's"
    and admitted :: "'e \<Rightarrow> bool"
    and inv :: "'s \<Rightarrow> bool"
  assumes step_inv: "admitted e \<Longrightarrow> inv s \<Longrightarrow> inv (step e s)"
begin

lemma run_inv: "\<forall>e \<in> set es. admitted e \<Longrightarrow> inv s \<Longrightarrow> inv (fold step es s)"
  by (induction es arbitrary: s) (simp_all add: step_inv)

end

section \<open>What one invocation does to the files\<close>

lemma good_files:
  assumes "same_formats E0 E" "cl_dir E = Inr d" "stores_ok E0 d fs"
  shows "good_file E (cl_catalogs E) ''catalog.json'' (catalog_value_ok (cl_hex E)) fs"
    "good_file E (cl_wallets E) ''wallet.json'' (wallet_value_ok (cl_lib E)) fs"
    "good_file E (cl_roots E) ''roots.json'' (roots_value_ok (cl_hex E)) fs"
  using assms by (simp_all add: good_file_def stores_ok_def same_formats_def)

lemma good_file_no_dir: "cl_dir E = Inl e \<Longrightarrow> good_file E J name P fs"
  by (simp add: good_file_def)

lemma on_files_result: "on_files x net = (r, fs', net') \<Longrightarrow> \<exists>r0. x = (r0, fs') \<and> r = map_outcome (map_sum id Printed) r0"
  by (auto simp: on_files_def split: prod.splits)

lemma pure_on_files: "on_files (pure_result x fs) net = (r, fs', net') \<Longrightarrow> fs' = fs"
  by (auto simp: on_files_def pure_result_def)

text \<open>The five ways of a command, with what each may have written.\<close>

lemma main_cmd_effect:
  assumes run: "main_cmd E X parse c fs net = (r, fs', net')" and hex: "hex_lib_ok (cl_hex E)"
    and actor: "pred_option principal_ok (cli_actor E)"
    and "good_file E (cl_catalogs E) ''catalog.json'' (catalog_value_ok (cl_hex E)) fs"
    and "good_file E (cl_wallets E) ''wallet.json'' (wallet_value_ok (cl_lib E)) fs"
    and "good_file E (cl_roots E) ''roots.json'' (roots_value_ok (cl_hex E)) fs"
  obtains (untouched) "fs' = fs"
    | (role) rc r0 where "c = RoleCmd rc" "cmd_role E parse rc fs = (r0, fs')" "role_writes rc"
      "r = map_outcome (map_sum id Printed) r0"
      "writes E (cl_catalogs E) ''catalog.json'' (catalog_value_ok (cl_hex E)) fs fs'"
    | (wallet) wc where "c = WalletCmd wc" "wallet_writes wc"
      "writes E (cl_wallets E) ''wallet.json'' (wallet_value_ok (cl_lib E)) fs fs'"
    | (root) rc where "c = RootCmd rc" "root_writes rc"
      "writes E (cl_roots E) ''roots.json'' (roots_value_ok (cl_hex E)) fs fs'"
    | (cache) a where "c = VerifyCmd a" "\<not> ve_no_revocation_check a"
      "writes E (cl_cache E) ''revocation-cache.json'' (\<lambda>_. True) fs fs'"
    | (device) dc r0 where "c = DeviceCmd dc" "cmd_device E dc fs = (r0, fs')"
    | (key) sc o1 where "c = SecretCmd sc" "usage_error sc = None"
      "load_or_create_device_key (vl_keys X) (cl_dir E) (cl_read E) (cl_write E) (vl_generated X) fs = (o1, fs')"
proof (cases c)
  case (RoleCmd rc)
  with run obtain r0 where r0: "cmd_role E parse rc fs = (r0, fs')" "r = map_outcome (map_sum id Printed) r0"
    by (auto dest: on_files_result)
  show ?thesis
    using cmd_role_writes [OF r0(1) hex actor assms(4)] untouched role [OF RoleCmd r0(1) _ r0(2)] by blast
next
  case (WalletCmd wc)
  with run obtain r0 where "cmd_wallet E wc fs = (r0, fs')" by (auto dest: on_files_result)
  from cmd_wallet_writes [OF this assms(5)] show ?thesis using untouched wallet [OF WalletCmd] by blast
next
  case (RootCmd rc)
  with run obtain r0 where "cmd_root E rc fs = (r0, fs')" by (auto dest: on_files_result)
  from cmd_root_writes [OF this assms(6)] show ?thesis using untouched root [OF RootCmd] by blast
next
  case (VerifyCmd a)
  with run obtain r0 where "cmd_verify E a fs = (r0, fs')" by (auto dest: on_files_result)
  from cmd_verify_writes [OF this] show ?thesis using untouched cache [OF VerifyCmd] by blast
next
  case (DeviceCmd dc)
  with run show ?thesis using device [OF DeviceCmd] by (auto dest: on_files_result)
next
  case (SecretCmd sc)
  with run have "run_secret E X sc fs net = (r, fs', net')" by simp
  from run_secret_files [OF this] show ?thesis using untouched key [OF SecretCmd] by blast
qed (use run in \<open>auto dest: pure_on_files intro: untouched\<close>)

lemma main_cmd_no_dir:
  assumes "main_cmd E X parse c fs net = (r, fs', net')" "hex_lib_ok (cl_hex E)"
    and "pred_option principal_ok (cli_actor E)" "cl_dir E = Inl e"
  shows "fs' = fs"
  using assms(1-3) good_file_no_dir [OF assms(4)] good_file_no_dir [OF assms(4)] good_file_no_dir [OF assms(4)]
proof (rule main_cmd_effect)
  show ?thesis if "cmd_device E dc fs = (r0, fs')" for dc r0
    using that assms(4) by (cases rule: cmd_device_cases) simp_all
  show ?thesis if "load_or_create_device_key (vl_keys X) (cl_dir E) (cl_read E) (cl_write E) (vl_generated X) fs = (o1, fs')"
    for o1
    using load_or_create_frame [OF that] assms(4) by simp
qed (use assms(4) in \<open>auto dest: writes_same_dir\<close>)

lemma main_cmd_frame:
  assumes "main_cmd E X parse c fs net = (r, fs', net')" "hex_lib_ok (cl_hex E)"
    and "pred_option principal_ok (cli_actor E)" "same_formats E0 E" "cl_dir E = Inr d" "stores_ok E0 d fs"
  shows "only_changes (may_change d (own_file (cl_pid E) c)) fs fs'"
  using assms(1-3) good_files [OF assms(4-6)]
proof (rule main_cmd_effect)
  show ?thesis if "c = DeviceCmd dc" "cmd_device E dc fs = (r0, fs')" for dc r0
    using cmd_device_frame [OF that(2) assms(5)] that(1) by (auto intro: only_changes_mono simp: may_change_def)
  show ?thesis if "c = SecretCmd sc" "usage_error sc = None"
    "load_or_create_device_key (vl_keys X) (cl_dir E) (cl_read E) (cl_write E) (vl_generated X) fs = (o1, fs')" for sc o1
    using load_or_create_frame [OF that(3)] that(1,2) assms(5) by (auto intro: only_changes_mono simp: may_change_def)
qed (auto dest!: writes_frame [OF _ assms(5)] elim!: only_changes_mono simp: may_change_def)

lemma only_changesD: "only_changes C fs fs' \<Longrightarrow> \<not> C k \<Longrightarrow> fs' k = fs k"
  unfolding only_changes_def by blast

lemma main_cmd_stores_ok:
  assumes run: "main_cmd E X parse c fs net = (r, fs', net')" and laws: "install_laws E0"
    and actor: "pred_option principal_ok (cli_actor E)" and E: "same_formats E0 E" and d: "cl_dir E = Inr d"
    and ok: "stores_ok E0 d fs"
  shows "stores_ok E0 d fs'"
proof -
  have hex: "hex_lib_ok (cl_hex E)"
    using laws E by (simp add: install_laws_def same_formats_def)
  note others = only_changesD [OF main_cmd_frame [OF run hex actor E d ok]]
  from run hex actor good_files [OF E d ok] show ?thesis
  proof (rule main_cmd_effect)
    assume "fs' = fs"
    with ok show ?thesis by simp
  next
    fix rc r0
    assume c: "c = RoleCmd rc" "role_writes rc"
      and w: "writes E (cl_catalogs E) ''catalog.json'' (catalog_value_ok (cl_hex E)) fs fs'"
    have "file_ok (cl_catalogs E) (catalog_value_ok (cl_hex E)) (fs' (d, ''catalog.json''))"
      using writes_content [OF _ w d] laws E ok by (simp add: install_laws_def same_formats_def stores_ok_def)
    with ok c E show ?thesis
      by (simp add: stores_ok_def others may_change_def same_formats_def)
  next
    fix wc
    assume c: "c = WalletCmd wc" "wallet_writes wc"
      and w: "writes E (cl_wallets E) ''wallet.json'' (wallet_value_ok (cl_lib E)) fs fs'"
    have "file_ok (cl_wallets E) (wallet_value_ok (cl_lib E)) (fs' (d, ''wallet.json''))"
      using writes_content [OF _ w d] laws E ok by (simp add: install_laws_def same_formats_def stores_ok_def)
    with ok c E show ?thesis
      by (simp add: stores_ok_def others may_change_def same_formats_def)
  next
    fix rc
    assume c: "c = RootCmd rc" "root_writes rc"
      and w: "writes E (cl_roots E) ''roots.json'' (roots_value_ok (cl_hex E)) fs fs'"
    have "file_ok (cl_roots E) (roots_value_ok (cl_hex E)) (fs' (d, ''roots.json''))"
      using writes_content [OF _ w d] laws E ok by (simp add: install_laws_def same_formats_def stores_ok_def)
    with ok c E show ?thesis
      by (simp add: stores_ok_def others may_change_def same_formats_def)
  next
    fix a
    assume c: "c = VerifyCmd a" "\<not> ve_no_revocation_check a"
      and w: "writes E (cl_cache E) ''revocation-cache.json'' (\<lambda>_. True) fs fs'"
    have "file_ok (cl_cache E) (\<lambda>_. True) (fs' (d, ''revocation-cache.json''))"
      using writes_content [OF _ w d] laws E ok by (simp add: install_laws_def same_formats_def stores_ok_def)
    with ok c E show ?thesis
      by (simp add: stores_ok_def others may_change_def same_formats_def)
  next
    fix dc r0
    assume c: "c = DeviceCmd dc" and dev: "cmd_device E dc fs = (r0, fs')"
    have "file_ok (cl_devices E) bt_ok (fs' (d, ''devices.json''))"
      using cmd_device_content [OF dev _ d] laws E ok by (simp add: install_laws_def same_formats_def stores_ok_def)
    with ok c E show ?thesis
      by (simp add: stores_ok_def others may_change_def same_formats_def)
  next
    fix sc o1
    assume "c = SecretCmd sc" "usage_error sc = None"
    with ok show ?thesis
      by (simp add: stores_ok_def others may_change_def)
  qed
qed

lemma invoke_result: "main_cmd (in_cli I) (in_vault I) (in_parse I) (in_command I) fs (in_net I) =
    (fst (invoke I fs), snd (invoke I fs), snd (snd (main_cmd (in_cli I) (in_vault I) (in_parse I) (in_command I) fs (in_net I))))"
  by (simp add: invoke_def split: prod.splits)

lemma invoke_stores_ok:
  assumes "on_install E0 d I" "install_laws E0 \<and> stores_ok E0 d fs"
  shows "install_laws E0 \<and> stores_ok E0 d (snd (invoke I fs))"
proof (cases "cl_dir (in_cli I)")
  case (Inl e)
  have "hex_lib_ok (cl_hex (in_cli I))"
    using assms by (simp add: install_laws_def on_install_def same_formats_def)
  from main_cmd_no_dir [OF invoke_result this _ Inl] assms show ?thesis
    by (simp add: on_install_def)
next
  case (Inr d')
  with assms have d: "cl_dir (in_cli I) = Inr d" by (simp add: on_install_def)
  from main_cmd_stores_ok [OF invoke_result _ _ _ d] assms show ?thesis
    by (simp add: on_install_def)
qed

interpretation stores: run_invariant "\<lambda>I fs. snd (invoke I fs)" "on_install E0 d"
  "\<lambda>fs. install_laws E0 \<and> stores_ok E0 d fs" for E0 d
  by unfold_locales (rule invoke_stores_ok)

lemma after_stores_ok:
  assumes "install_laws E0" "\<forall>I \<in> set Is. on_install E0 d I" "stores_ok E0 d fs"
  shows "stores_ok E0 d (after Is fs)"
  using stores.run_inv [OF assms(2)] assms(1,3) by (simp add: after_def)

lemma load_file_opens:
  assumes "file_ok J P (fs (d, name))" "P v0" "pred_option (\<lambda>content. length content \<le> MAX_STORE_BYTES) (fs (d, name))"
  shows "\<exists>v. load_json_or_default J v0 no_read_faults (path_join d name) fs = Inr v \<and> P v"
  using assms by (auto simp: load_json_or_default_def no_read_faults_def file_ok_def map_err_def
      split: option.splits sum.splits)

text \<open>A good catalog file opens when nothing fails and it is within the size limit.\<close>

lemma catalog_opens:
  assumes "good_file E (cl_catalogs E) ''catalog.json'' (catalog_value_ok (cl_hex E)) fs" "cl_dir E = Inr d"
    and "cl_read E = no_read_faults"
    and "pred_option (\<lambda>content. length content \<le> MAX_STORE_BYTES) (fs (d, ''catalog.json''))"
  obtains st where "open_catalog_store E fs = Inr st" "cs_path st = path_join d ''catalog.json''"
    "store_inv (cl_hex E) st" "on_disk (cl_catalogs E) st fs"
proof -
  have "file_ok (cl_catalogs E) (catalog_value_ok (cl_hex E)) (fs (d, ''catalog.json''))"
    using assms(1,2) by (simp add: good_file_def)
  then obtain l where "load_json_or_default (cl_catalogs E) log_new (cl_read E) (path_join d ''catalog.json'') fs = Inr l"
      "catalog_value_ok (cl_hex E) l"
    using load_file_opens [of "cl_catalogs E" "catalog_value_ok (cl_hex E)" fs d "''catalog.json''", OF _
        catalog_value_new] assms(3,4) by auto
  then obtain st where st: "open_catalog_store E fs = Inr st"
    using assms(2) by (simp add: open_catalog_store_def catalog_store_open_def Let_def and_then_def map_err_def)
  from open_catalog_ok [OF st assms(1)] show thesis
    using that [OF st] assms(2) by auto
qed

text \<open>
  Property C9. No history corrupts a store: whatever commands are run on a data directory, in any order,
  with any arguments, I/O errors and crashes at any system call, every store file is absent or holds a
  value that satisfies its store's invariant, and a later invocation without read errors opens the
  catalog, the wallet and the roots to such values as long as the files are within the size limit.
\<close>

theorem history_keeps_stores:
  assumes "install_laws E0" "\<forall>I \<in> set Is. on_install E0 d I" "stores_ok E0 d fs"
    and "same_formats E0 E" "cl_dir E = Inr d" "cl_read E = no_read_faults"
    and "\<forall>name \<in> {''catalog.json'', ''wallet.json'', ''roots.json''}.
      pred_option (\<lambda>content. length content \<le> MAX_STORE_BYTES) (after Is fs (d, name))"
  shows "stores_ok E0 d (after Is fs) \<and>
    (\<exists>st. open_catalog_store E (after Is fs) = Inr st \<and> store_inv (cl_hex E) st) \<and>
    (\<exists>w. open_wallet E (after Is fs) = Inr w \<and> wallet_inv (cl_lib E) iam_service w) \<and>
    (\<exists>r. open_roots E (after Is fs) = Inr r \<and> roots_inv (cl_hex E) r)"
proof -
  let ?fs = "after Is fs"
  have ok: "stores_ok E0 d ?fs"
    by (rule after_stores_ok [OF assms(1-3)])
  note good = good_files [OF assms(4,5) ok]
  have files: "file_ok (cl_wallets E) (wallet_value_ok (cl_lib E)) (?fs (d, ''wallet.json''))"
    "file_ok (cl_roots E) (roots_value_ok (cl_hex E)) (?fs (d, ''roots.json''))"
    using good assms(5) by (simp_all add: good_file_def)
  have 1: "\<exists>st. open_catalog_store E ?fs = Inr st \<and> store_inv (cl_hex E) st"
    by (rule catalog_opens [OF good(1) assms(5,6)]) (use assms(7) in auto)
  have "\<exists>w. open_wallet E ?fs = Inr w"
    using load_file_opens [of "cl_wallets E" "wallet_value_ok (cl_lib E)" ?fs d "''wallet.json''" "[]"] files(1) assms(5-7)
    by (auto simp: open_wallet_def wallet_open_def Let_def and_then_def map_err_def)
  then have 2: "\<exists>w. open_wallet E ?fs = Inr w \<and> wallet_inv (cl_lib E) iam_service w"
    using open_wallet_ok [OF _ good(2)] by metis
  have "\<exists>r. open_roots E ?fs = Inr r"
    using load_file_opens [of "cl_roots E" "roots_value_ok (cl_hex E)" ?fs d "''roots.json''" "[]"] files(2) assms(5-7)
    by (auto simp: open_roots_def roots_open_def Let_def and_then_def map_err_def)
  then have 3: "\<exists>r. open_roots E ?fs = Inr r \<and> roots_inv (cl_hex E) r"
    using open_roots_ok [OF _ good(3)] by metis
  from ok 1 2 3 show ?thesis by blast
qed

text \<open>
  Every command keeps to its own store: an invocation changes at most the one file of the
  store its command writes and that file's temporary, so reading commands change nothing, and no
  command touches another's store, even when it is cut off.
\<close>

lemma command_keeps_to_its_store:
  assumes "main_cmd E X parse c fs net = (r, fs', net')" "hex_lib_ok (cl_hex E)"
    and "pred_option principal_ok (cli_actor E)" "same_formats E0 E" "cl_dir E = Inr d" "stores_ok E0 d fs"
  shows "(\<forall>k. \<not> may_change d (own_file (cl_pid E) c) k \<longrightarrow> fs' k = fs k) \<and>
    (own_file (cl_pid E) c = None \<longrightarrow> fs' = fs)"
  using main_cmd_frame [OF assms]
  by (auto simp: only_changes_def may_change_def fun_eq_iff simp del: split_paired_All)

section \<open>Roles across a history\<close>

datatype ended = Succeeded | Refused | Interrupted

definition how_ended :: "('e + 'a) outcome \<Rightarrow> ended" where
  "how_ended r = (case r of Returned (Inr _) \<Rightarrow> Succeeded | Returned (Inl _) \<Rightarrow> Refused | Stopped \<Rightarrow> Interrupted)"

definition asked_op :: "('i, 's, 'j, 'p, 'w, 'v, 'x, 'net) invocation \<Rightarrow> catalog_op option" where
  "asked_op I = (case in_command I of RoleCmd c \<Rightarrow> role_op (in_cli I) (in_parse I) c | _ \<Rightarrow> None)"

fun role_trace :: "('i, 's, 'j, 'p, 'w, 'v, 'x, 'net) invocation list \<Rightarrow> fs \<Rightarrow> (catalog_op option \<times> ended) list" where
  "role_trace [] fs = []"
| "role_trace (I # Is) fs = (asked_op I, how_ended (fst (invoke I fs))) # role_trace Is (snd (invoke I fs))"

text \<open>What the operator may conclude from how each command ended.\<close>

fun spec_step :: "catalog_op option \<times> ended \<Rightarrow> role_state \<Rightarrow> role_state set" where
  "spec_step (Some op, Succeeded) s = {spec_op op s}"
| "spec_step (Some op, Interrupted) s = {s, spec_op op s}"
| "spec_step _ s = {s}"

fun spec_run :: "(catalog_op option \<times> ended) list \<Rightarrow> role_state \<Rightarrow> role_state set" where
  "spec_run [] s = {s}"
| "spec_run (e # es) s = (\<Union>s' \<in> spec_step e s. spec_run es s')"

definition disk_roles :: "('i, 's) cli \<Rightarrow> string \<Rightarrow> fs \<Rightarrow> role_state" where
  "disk_roles E d fs = abs_catalog (cl_hex E) (disk_catalog (cl_hex E) (cl_catalogs E) (fs (d, ''catalog.json'')))"

lemma how_ended_map [simp]: "how_ended (map_outcome (map_sum id f) r) = how_ended r"
  by (cases r) (auto simp: how_ended_def split: sum.splits)

lemma how_ended_iff: "how_ended r = Succeeded \<longleftrightarrow> succeeded r" "how_ended r = Interrupted \<longleftrightarrow> r = Stopped"
  by (auto simp: how_ended_def succeeded_def split: outcome.splits sum.splits)

lemma cmd_role_refines:
  assumes "cmd_role E parse c fs = (r, fs')" "install_laws E" "pred_option principal_ok (cli_actor E)"
    and "cl_dir E = Inr d" "good_file E (cl_catalogs E) ''catalog.json'' (catalog_value_ok (cl_hex E)) fs"
  shows "disk_roles E d fs' \<in> spec_step (role_op E parse c, how_ended r) (disk_roles E d fs)"
proof (rule cmd_role_store [OF assms(1) _ assms(3,5)])
  show "hex_lib_ok (cl_hex E)" using assms(2) by (simp add: install_laws_def)
next
  assume "fs' = fs" "r \<noteq> Stopped" "succeeded r \<longrightarrow> \<not> role_writes c"
  moreover have "role_op E parse c = None" if "\<not> role_writes c" using that by (cases c) auto
  ultimately show ?thesis
    using how_ended_iff [of r] by (cases "how_ended r"; cases "role_op E parse c") auto
next
  fix d' st new st' o1
  assume st: "cl_dir E = Inr d'" "cs_path st = path_join d' ''catalog.json''" "store_inv (cl_hex E) st"
      "on_disk (cl_catalogs E) st fs" "cs_path new = cs_path st" "store_inv (cl_hex E) new"
    and w: "commit (atomic_write_json (cl_catalogs E) (cl_pid E) (cl_write E) (cs_path st) (cs_log new) fs) st new =
      (o1, st', fs')" and ends: "succeeded o1 \<longleftrightarrow> succeeded r" "o1 = Stopped \<longleftrightarrow> r = Stopped"
    and abs: "abs_catalog (cl_hex E) (cs_catalog new) =
      (case role_op E parse c of None \<Rightarrow> id | Some op \<Rightarrow> spec_op op) (abs_catalog (cl_hex E) (cs_catalog st))"
  have d: "d' = d" using st(1) assms(4) by simp
  have "json_law (cl_catalogs E)" using assms(2) by (simp add: install_laws_def)
  note refines = commit_refines [OF this st(3,4,2,5,6) w]
  have "disk_catalog (cl_hex E) (cl_catalogs E) (fs (d, ''catalog.json'')) = cs_catalog st"
    using disk_catalog_on_disk [OF st(4,2,3)] d by simp
  then show ?thesis
    using refines abs ends how_ended_iff [of r] unfolding disk_roles_def d
    by (cases "how_ended r"; cases "role_op E parse c") auto
qed

lemma install_laws_same: "same_formats E0 E \<Longrightarrow> install_laws E \<longleftrightarrow> install_laws E0"
  by (simp add: install_laws_def same_formats_def)

lemma disk_roles_same: "same_formats E0 E \<Longrightarrow> disk_roles E d fs = disk_roles E0 d fs"
  by (simp add: disk_roles_def same_formats_def)

lemma disk_roles_cong: "fs' (d, ''catalog.json'') = fs (d, ''catalog.json'') \<Longrightarrow> disk_roles E d fs' = disk_roles E d fs"
  by (simp add: disk_roles_def)

lemma spec_step_stays: "e = (None, x) \<or> e = (y, Refused) \<Longrightarrow> s \<in> spec_step e s"
  by (cases e; cases "snd e"; cases "fst e") auto

lemma invoke_refines:
  assumes "on_install E0 d I" "install_laws E0" "stores_ok E0 d fs"
  shows "disk_roles E0 d (snd (invoke I fs)) \<in>
    spec_step (asked_op I, how_ended (fst (invoke I fs))) (disk_roles E0 d fs)"
proof -
  let ?E = "in_cli I"
  have E: "same_formats E0 ?E" "pred_option principal_ok (cli_actor ?E)"
    and laws: "install_laws ?E" "hex_lib_ok (cl_hex ?E)"
    using assms(1,2) install_laws_same [of E0 ?E] by (auto simp: on_install_def install_laws_def)
  show ?thesis
  proof (cases "\<exists>rc. in_command I = RoleCmd rc")
    case True
    then obtain rc where c: "in_command I = RoleCmd rc" ..
    obtain r0 where r0: "cmd_role ?E (in_parse I) rc fs = (r0, snd (invoke I fs))"
        "fst (invoke I fs) = map_outcome (map_sum id Printed) r0"
      using on_files_result [OF invoke_result [of I fs, unfolded c main_cmd.simps]] by blast
    have a: "asked_op I = role_op ?E (in_parse I) rc" by (simp add: asked_op_def c)
    show ?thesis
    proof (cases "cl_dir ?E")
      case (Inr d')
      with assms(1) have d: "cl_dir ?E = Inr d" by (simp add: on_install_def)
      from cmd_role_refines [OF r0(1) laws(1) E(2) d good_files(1) [OF E(1) d assms(3)]]
      show ?thesis by (simp add: a r0(2) disk_roles_same [OF E(1)])
    next
      case (Inl e)
      have "snd (invoke I fs) = fs"
        by (rule main_cmd_no_dir [OF invoke_result laws(2) E(2) Inl])
      moreover have "how_ended r0 = Refused" if "role_op ?E (in_parse I) rc \<noteq> None"
      proof -
        have w: "role_writes rc" using that by (cases rc) auto
        have no: "open_catalog_store ?E fs \<noteq> Inr st" for st
          by (simp add: open_catalog_store_def Inl and_then_def map_err_def)
        from r0(1) show ?thesis
        proof (cases rule: cmd_role_cases)
          case same
          with w have "r0 \<noteq> Stopped" "\<not> succeeded r0" by blast+
          then show ?thesis
            by (auto simp: how_ended_def succeeded_def split: outcome.splits sum.splits)
        qed (use no in blast)+
      qed
      ultimately show ?thesis
        by (cases "role_op ?E (in_parse I) rc") (simp_all add: a r0(2))
    qed
  next
    case False
    then have none: "asked_op I = None" by (auto simp: asked_op_def split: command.splits)
    have "snd (invoke I fs) (d, ''catalog.json'') = fs (d, ''catalog.json'')"
    proof (cases "cl_dir ?E")
      case (Inl e)
      show ?thesis by (simp add: main_cmd_no_dir [OF invoke_result laws(2) E(2) Inl])
    next
      case (Inr d')
      with assms(1) have d: "cl_dir ?E = Inr d" by (simp add: on_install_def)
      have "\<not> may_change d (own_file (cl_pid ?E) (in_command I)) (d, ''catalog.json'')"
        using False by (cases "in_command I") (auto simp: may_change_def)
      then show ?thesis
        by (rule only_changesD [OF main_cmd_frame [OF invoke_result laws(2) E(2,1) d assms(3)]])
    qed
    then have "disk_roles E0 d (snd (invoke I fs)) = disk_roles E0 d fs"
      by (rule disk_roles_cong)
    then show ?thesis by (simp add: none spec_step_stays)
  qed
qed

text \<open>
  Property C3. The durable catalog refines its specification over whole histories: the roles, policies
  and attachments on disk after any history are those that follow from the start by applying, in order,
  the operations of the role commands that reported success, and of those cut off either all or nothing;
  refused commands, compactions and all other commands count for nothing.
\<close>

theorem history_refines_roles:
  assumes "install_laws E0" "\<forall>I \<in> set Is. on_install E0 d I" "stores_ok E0 d fs"
  shows "disk_roles E0 d (after Is fs) \<in> spec_run (role_trace Is fs) (disk_roles E0 d fs)"
  using assms(2,3)
proof (induction Is arbitrary: fs)
  case Nil
  then show ?case by (simp add: after_def)
next
  case (Cons I Is)
  have "stores_ok E0 d (snd (invoke I fs))"
    using invoke_stores_ok [of E0 d I fs] Cons.prems assms(1) by simp
  with Cons invoke_refines [of E0 d I fs] assms(1) show ?case
    by (auto simp: after_def)
qed

section \<open>The registry and the device key across a history\<close>

definition disk_devices :: "('i, 's) cli \<Rightarrow> string \<Rightarrow> fs \<Rightarrow> string + dev_map" where
  "disk_devices E d fs = dev_load (cl_devices E) no_read_faults (dev_path d) fs"

definition admins_on_disk :: "('i, 's) cli \<Rightarrow> string \<Rightarrow> fs \<Rightarrow> bool" where
  "admins_on_disk E d fs \<longleftrightarrow>
     (case disk_devices E d fs of Inl e \<Rightarrow> False | Inr m \<Rightarrow> bt_ok m \<and> has_admins m)"

definition can_stat :: "('i, 's, 'j, 'p, 'w, 'v, 'x, 'net) invocation \<Rightarrow> bool" where
  "can_stat I \<longleftrightarrow> rf_stat (cl_read (in_cli I)) = None"

lemma dev_load_faults:
  "dev_load J R p fs = Inr m \<Longrightarrow> rf_stat R = None \<Longrightarrow> dev_load J no_read_faults p fs = Inr m"
  by (auto simp: dev_load_def no_read_faults_def split: option.splits if_splits)

lemma invoke_admins:
  assumes "on_install E0 d I \<and> can_stat I" "install_laws E0 \<and> stores_ok E0 d fs \<and> admins_on_disk E0 d fs"
  shows "install_laws E0 \<and> stores_ok E0 d (snd (invoke I fs)) \<and> admins_on_disk E0 d (snd (invoke I fs))"
proof -
  let ?E = "in_cli I" and ?fs = "snd (invoke I fs)"
  have E: "same_formats E0 ?E" "pred_option principal_ok (cli_actor ?E)"
    and laws: "install_laws ?E" "hex_lib_ok (cl_hex ?E)"
    using assms install_laws_same [of E0 ?E] by (auto simp: on_install_def install_laws_def)
  obtain m where m: "disk_devices E0 d fs = Inr m" "bt_ok m" "has_admins m"
    using assms(2) by (auto simp: admins_on_disk_def split: sum.splits)
  have same: "admins_on_disk E0 d ?fs" if "?fs (d, ''devices.json'') = fs (d, ''devices.json'')"
    using assms(2) that by (simp add: admins_on_disk_def disk_devices_def dev_load_def)
  have new: "admins_on_disk E0 d ?fs"
    if p: "dev_persist (cl_devices ?E) (cl_write ?E) (dev_path d) (dev_mem (cl_now ?E) op m) fs = (o1, ?fs)" for op o1
  proof -
    have "?fs (d, ''devices.json'') = fs (d, ''devices.json'') \<or>
        ?fs (d, ''devices.json'') = ok (jf_print (cl_devices E0) (dev_mem (cl_now ?E) op m))"
      using dev_persist_content [OF p] E(1) by (simp add: same_formats_def)
    moreover have "admins_on_disk E0 d ?fs"
      if "?fs (d, ''devices.json'') = Some s" "jf_print (cl_devices E0) (dev_mem (cl_now ?E) op m) = Inr s" for s
      using assms(2) that m admin_kept [OF m(2,3)]
      by (auto simp: admins_on_disk_def disk_devices_def dev_load_def no_read_faults_def install_laws_def
          json_law_def no_blank_def keeps_ok)
    ultimately show ?thesis
      using same dev_persist_effect [OF p] E(1) by (auto simp: ok_def same_formats_def split: sum.splits)
  qed
  have "admins_on_disk E0 d ?fs"
  proof (cases "cl_dir ?E")
    case (Inl e)
    show ?thesis by (rule same) (simp add: main_cmd_no_dir [OF invoke_result laws(2) E(2) Inl])
  next
    case (Inr d')
    with assms(1) have d: "cl_dir ?E = Inr d" by (simp add: on_install_def)
    show ?thesis
    proof (cases "\<exists>dc. in_command I = DeviceCmd dc")
      case True
      then obtain dc r0 where "cmd_device ?E dc fs = (r0, ?fs)"
        using on_files_result invoke_result [of I fs] by (metis main_cmd.simps(12))
      then show ?thesis
      proof (cases rule: cmd_device_cases)
        case (changed d' m' op o1)
        have "d' = d" using changed(1) d by simp
        moreover have "m' = m"
          using dev_load_faults [OF changed(2)] assms(1) m(1) E(1) \<open>d' = d\<close>
          by (simp add: can_stat_def disk_devices_def same_formats_def)
        ultimately show ?thesis using new changed(4) by simp
      qed (use assms(2) in simp)
    next
      case False
      then have "\<not> may_change d (own_file (cl_pid ?E) (in_command I)) (d, ''devices.json'')"
        by (cases "in_command I") (auto simp: may_change_def)
      then show ?thesis
        using assms(2) by (intro same only_changesD [OF main_cmd_frame [OF invoke_result laws(2) E(2,1) d]]) simp_all
    qed
  qed
  with assms invoke_stores_ok [of E0 d I fs] show ?thesis by blast
qed

interpretation admins: run_invariant "\<lambda>I fs. snd (invoke I fs)" "\<lambda>I. on_install E0 d I \<and> can_stat I"
  "\<lambda>fs. install_laws E0 \<and> stores_ok E0 d fs \<and> admins_on_disk E0 d fs" for E0 d
  by unfold_locales (rule invoke_admins)

text \<open>
  Property C10. The operator is never locked out, whatever is run: once the registry on disk has an
  admin, it has one after every history in which the file could be examined, with any commands, I/O
  errors and crashes.
\<close>

theorem history_keeps_admin:
  assumes "install_laws E0" "\<forall>I \<in> set Is. on_install E0 d I \<and> can_stat I"
    and "stores_ok E0 d fs" "admins_on_disk E0 d fs"
  shows "admins_on_disk E0 d (after Is fs)"
  using admins.run_inv [OF assms(2)] assms(1,3,4) by (simp add: after_def)

text \<open>
  A registry that cannot be examined is taken to be empty, so one request for enrolment replaces it by
  a map that holds nothing but that request: all admins are gone.
\<close>

lemma unexaminable_registry_lost:
  assumes "rf_stat (cl_read E) = Some e" "cl_dir E = Inr d" "cl_write E = no_faults"
    and "resolve_node_id E node = Inr node_id"
    and "jf_print (cl_devices E) [(dev, \<lparr>dv_pub = pk, dv_role = ROLE_PENDING, dv_label = label,
      dv_added_ts = cl_now E, dv_node_id = node_id\<rparr>)] = Inr content"
    and "json_law (cl_devices E)" "no_blank (cl_devices E)"
  shows "\<not> admins_on_disk E d (snd (cmd_device E (DeviceRequest dev pk node label) fs))"
proof -
  have "dev_load (cl_devices E) (cl_read E) (dev_path d) fs = Inr []"
    using assms(1) by (simp add: dev_load_def)
  then have "snd (cmd_device E (DeviceRequest dev pk node label) fs) (d, ''devices.json'') = Some content"
    using assms(2-5) by (simp add: with_result_def map_err_def with_devices_def dev_open_def dev_call_def no_faults_def
        and_persist_def dev_request_def request_locked_def btree_simps bt_insert.simps dev_persist_def
        dev_call_ignored_def after_dev_def Let_def)
  then show ?thesis
    using assms(5-7) by (simp add: admins_on_disk_def disk_devices_def dev_load_def no_read_faults_def json_law_def
        no_blank_def has_admins_def admin_count_def bt_values_def is_admin_dev_def)
qed

text \<open>The key file, once it is not blank.\<close>

definition key_is :: "string \<Rightarrow> string \<Rightarrow> fs \<Rightarrow> bool" where
  "key_is d raw fs \<longleftrightarrow> trim raw \<noteq> [] \<and> fs (d, ''secrets-device.json'') = Some raw"

lemma load_key_is:
  assumes "key_is d raw fs" "rf_stat R = None" "load_or_create_device_key J (Inr d) R F generated fs = (r, fs')"
  shows "fs' = fs"
  using assms by (auto simp: load_or_create_device_key_def key_is_def key_file_def Let_def
      split: io.splits option.splits if_splits)

lemma invoke_key_is:
  assumes "on_install E0 d I \<and> can_stat I" "install_laws E0 \<and> stores_ok E0 d fs \<and> key_is d raw fs"
  shows "install_laws E0 \<and> stores_ok E0 d (snd (invoke I fs)) \<and> key_is d raw (snd (invoke I fs))"
proof -
  let ?E = "in_cli I" and ?fs = "snd (invoke I fs)"
  have E: "same_formats E0 ?E" "pred_option principal_ok (cli_actor ?E)" and hex: "hex_lib_ok (cl_hex ?E)"
    using assms by (auto simp: on_install_def install_laws_def same_formats_def)
  have "?fs (d, ''secrets-device.json'') = fs (d, ''secrets-device.json'')"
  proof (cases "cl_dir ?E")
    case (Inl e)
    show ?thesis by (simp add: main_cmd_no_dir [OF invoke_result hex E(2) Inl])
  next
    case (Inr d')
    with assms(1) have d: "cl_dir ?E = Inr d" by (simp add: on_install_def)
    show ?thesis
    proof (cases "\<exists>sc. in_command I = SecretCmd sc")
      case True
      then obtain sc where "in_command I = SecretCmd sc" ..
      with invoke_result [of I fs] have "run_secret ?E (in_vault I) sc fs (in_net I) =
          (fst (invoke I fs), ?fs, snd (snd (run_secret ?E (in_vault I) sc fs (in_net I))))"
        by simp
      from run_secret_files [OF this] have "?fs = fs"
        using load_key_is [of d raw fs "cl_read ?E"] assms d by (auto simp: can_stat_def)
      then show ?thesis by simp
    next
      case False
      then have "\<not> may_change d (own_file (cl_pid ?E) (in_command I)) (d, ''secrets-device.json'')"
        by (cases "in_command I") (auto simp: may_change_def)
      then show ?thesis
        using assms(2) by (intro only_changesD [OF main_cmd_frame [OF invoke_result hex E(2,1) d]]) simp_all
    qed
  qed
  with assms invoke_stores_ok [of E0 d I fs] show ?thesis by (auto simp: key_is_def)
qed

interpretation key: run_invariant "\<lambda>I fs. snd (invoke I fs)" "\<lambda>I. on_install E0 d I \<and> can_stat I"
  "\<lambda>fs. install_laws E0 \<and> stores_ok E0 d fs \<and> key_is d raw fs" for E0 d raw
  by unfold_locales (rule invoke_key_is)

text \<open>
  Property C13. A device has one identity: once the key file is not blank no history in which it could
  be examined changes it, and every later secret command either acts as the device whose key is there
  or, when the file does not parse (as after a first creation that was cut off), fails for good.
\<close>

theorem history_keeps_device_key:
  assumes "install_laws E0" "\<forall>I \<in> set Is. on_install E0 d I \<and> can_stat I"
    and "stores_ok E0 d fs" "key_is d raw fs"
    and "cl_dir E = Inr d" "cl_read E = no_read_faults" "wf_mkdir (cl_write E) = IoOk"
  shows "after Is fs (d, ''secrets-device.json'') = Some raw \<and>
    load_or_create_device_key J (cl_dir E) (cl_read E) (cl_write E) generated (after Is fs) =
      (Returned (map_err (\<lambda>e. ''parse device key: '' @ e) (kf_from_json J raw)), after Is fs)"
proof -
  have "key_is d raw (after Is fs)"
    using key.run_inv [OF assms(2)] assms(1,3,4) by (simp add: after_def)
  then show ?thesis
    using assms(5-7) by (simp add: key_is_def load_or_create_device_key_def key_file_def Let_def no_read_faults_def del: append.simps)
qed

section \<open>A small installation\<close>

definition demo_install :: "(node_id, capability) cli" where
  "demo_install = demo_cli\<lparr>cl_identity := Inl ''locked'',
     cl_cache := \<lparr>jf_print = (\<lambda>_. Inl ''unused''), jf_parse = (\<lambda>_. Inl ''unused'')\<rparr>\<rparr>"

definition demo_secrets :: "(nat, nat, nat \<times> bytes, bytes \<times> bytes, json, authkv) vault_cli" where
  "demo_secrets = \<lparr>vl_crypto = demo_C,
     vl_keys = \<lparr>kf_from_json = (\<lambda>s. if s = ''k'' then Inr (demo_device_key ''o'' 7) else Inl ''bad''),
       kf_to_json = (\<lambda>k. if k = demo_device_key ''o'' 7 then Inr ''k'' else Inl ''bad'')\<rparr>,
     vl_generated = Inr (demo_device_key ''x'' 1), vl_env = demo_secret_env, vl_wire = ke_wire demo_mesh_env,
     vl_api = kv_node demo_mesh_env demo_peer (\<lambda>_. Delivered) (\<lambda>_. None), vl_ns = None, vl_kv_node = None,
     vl_node = ''http://localhost:1'', vl_token = None, vl_env_kv_node = None, vl_env_relay = None\<rparr>"

type_synonym demo_invocation =
  "(node_id, capability, nat, nat, nat \<times> bytes, bytes \<times> bytes, json, authkv) invocation"

definition demo_run :: "write_faults \<Rightarrow> json command \<Rightarrow> demo_invocation" where
  "demo_run F c = \<lparr>in_cli = demo_install\<lparr>cl_write := F\<rparr>, in_vault = demo_secrets,
     in_parse = (\<lambda>_. Inr (role_policy demo_role)), in_command = c, in_net = demo_kv\<rparr>"

definition demo_history :: "demo_invocation list" where
  "demo_history = [demo_run no_faults (RoleCmd (RolePut ''reader'' None (Inr ''p''))),
     demo_run demo_crash (DeviceCmd (DeviceApprove ''c'')), demo_run no_faults (RoleCmd RoleList)]"

definition demo_files :: fs where
  "demo_files = (\<lambda>k. if k = (''iam'', ''devices.json'') then Some ''1''
     else if k = (''iam'', ''secrets-device.json'') then Some ''k'' else None)"

lemma demo_install_laws: "install_laws demo_install"
  by (simp add: install_laws_def demo_install_def demo_cli_def own_hex_codec demo_json_law demo_dev_json_law)
    (auto simp: json_law_def demo_wallet_json_def split: if_splits)

lemma demo_on_install: "on_install demo_install ''iam'' (demo_run F c)" "can_stat (demo_run F c)"
  by (simp_all add: on_install_def demo_run_def demo_install_def demo_cli_def same_formats_def cli_actor_def
      load_identity_def map_err_def ok_def can_stat_def no_read_faults_def)

lemma demo_stores_ok: "stores_ok demo_install ''iam'' demo_files"
  using demo_devices_ok by (simp add: stores_ok_def demo_files_def file_ok_def demo_install_def demo_cli_def
      demo_dev_json_def)

lemma demo_history_ok: "\<forall>I \<in> set demo_history. on_install demo_install ''iam'' I"
    "\<forall>I \<in> set demo_history. on_install demo_install ''iam'' I \<and> can_stat I"
  by (simp_all add: demo_history_def demo_on_install)

lemma demo_history_results:
  "role_trace demo_history demo_files =
     [(Some (PutRole demo_role), Succeeded), (None, Interrupted), (None, Succeeded)] \<and>
   map (\<lambda>name. after demo_history demo_files (''iam'', name)) [''catalog.json'', ''wallet.json'', ''roots.json''] =
     [Some ''1'', None, None]"
  by code_simp

lemmas demo_role_trace = conjunct1 [OF demo_history_results]

lemma demo_after_files: "after demo_history demo_files (''iam'', ''catalog.json'') = Some ''1''"
    "after demo_history demo_files (''iam'', ''wallet.json'') = None"
    "after demo_history demo_files (''iam'', ''roots.json'') = None"
  using demo_history_results by simp_all

theorem history_keeps_stores_witness:
  "\<exists>st. open_catalog_store demo_install (after demo_history demo_files) = Inr st \<and> store_inv own_hex st"
proof -
  have E: "same_formats demo_install demo_install" "cl_dir demo_install = Inr ''iam''"
      "cl_read demo_install = no_read_faults" "cl_hex demo_install = own_hex"
    by (simp_all add: same_formats_def demo_install_def demo_cli_def)
  have size: "\<forall>name \<in> {''catalog.json'', ''wallet.json'', ''roots.json''}.
      pred_option (\<lambda>content. length content \<le> MAX_STORE_BYTES) (after demo_history demo_files (''iam'', name))"
    by (simp add: demo_after_files MAX_STORE_BYTES_def)
  show ?thesis
    using history_keeps_stores [OF demo_install_laws demo_history_ok(1) demo_stores_ok E(1-3) size] E(4) by simp
qed

lemma command_keeps_to_its_store_witness:
  "snd (invoke (demo_run demo_crash (RoleCmd (RoleRm ''x''))) demo_files) (''iam'', ''devices.json'') = Some ''1''"
proof -
  let ?I = "demo_run demo_crash (RoleCmd (RoleRm ''x''))"
  have E: "hex_lib_ok (cl_hex (in_cli ?I))" "pred_option principal_ok (cli_actor (in_cli ?I))"
      "same_formats demo_install (in_cli ?I)" "cl_dir (in_cli ?I) = Inr ''iam''"
    by (simp_all add: demo_run_def demo_install_def demo_cli_def own_hex_codec same_formats_def cli_actor_def
        load_identity_def map_err_def ok_def)
  have "in_command ?I = RoleCmd (RoleRm ''x'')" by (simp add: demo_run_def)
  with command_keeps_to_its_store [OF invoke_result E demo_stores_ok] show ?thesis
    by (simp add: may_change_def demo_files_def)
qed

theorem history_refines_roles_witness:
  "rs_roles (disk_roles demo_install ''iam'' (after demo_history demo_files)) ''reader'' = Some demo_role"
  using history_refines_roles [OF demo_install_laws demo_history_ok(1) demo_stores_ok]
  by (simp add: demo_role_trace demo_role_def role_new_def)

theorem history_keeps_admin_witness: "admins_on_disk demo_install ''iam'' (after demo_history demo_files)"
proof -
  have "admins_on_disk demo_install ''iam'' demo_files"
    by code_simp
  then show ?thesis
    by (rule history_keeps_admin [OF demo_install_laws demo_history_ok(2) demo_stores_ok])
qed

theorem history_keeps_device_key_witness:
  "fst (load_or_create_device_key (vl_keys demo_secrets) (Inr ''iam'') no_read_faults no_faults (Inl ''unused'')
     (after (demo_history @ [demo_run no_faults (SecretCmd SecList)]) demo_files)) =
   Returned (Inr (demo_device_key ''o'' 7))"
proof -
  let ?Is = "demo_history @ [demo_run no_faults (SecretCmd SecList)]"
  have "\<forall>I \<in> set ?Is. on_install demo_install ''iam'' I \<and> can_stat I"
    using demo_history_ok(2) by (simp add: demo_on_install)
  moreover have "key_is ''iam'' ''k'' demo_files" by code_simp
  moreover have "cl_dir demo_install = Inr ''iam''" "cl_read demo_install = no_read_faults"
      "wf_mkdir (cl_write demo_install) = IoOk" "cl_write demo_install = no_faults"
    by (simp_all add: demo_install_def demo_cli_def no_faults_def)
  ultimately show ?thesis
    using history_keeps_device_key [OF demo_install_laws _ demo_stores_ok, of ?Is "''k''" demo_install
        "vl_keys demo_secrets" "Inl ''unused''"]
    by (simp add: demo_secrets_def map_err_def)
qed

end
