(* ===== verification/RoleGrants.thy ===== *)
theory RoleGrants
  imports History
begin

text \<open>
  Roles from the command line to a verdict: what \<open>role put\<close> has left on disk, \<open>grant --role\<close> turns into
  a capability, which a later \<open>verify\<close> judges.
\<close>

text \<open>The time window that the conditions of a statement state; a limit of zero is none.\<close>

definition window_open :: "conditions \<Rightarrow> u64 \<Rightarrow> bool" where
  "window_open c t \<longleftrightarrow>
     (case cd_not_before c of None \<Rightarrow> True | Some b \<Rightarrow> b = 0 \<or> b \<le> t) \<and>
     (case cd_not_after c of None \<Rightarrow> True | Some e \<Rightarrow> e = 0 \<or> t \<le> e)"

lemma window_open_caveats:
  "window_open c t \<longleftrightarrow> (cv_not_before (to_caveats c) = 0 \<or> cv_not_before (to_caveats c) \<le> t) \<and>
    (cv_not_after (to_caveats c) = 0 \<or> t \<le> cv_not_after (to_caveats c))"
  by (auto simp: window_open_def to_caveats_def unwrap_or_def split: option.splits)

text \<open>A policy that compiles, statement by statement.\<close>

lemma compile_statements:
  assumes "compile H i p = Inr (abilities, res, cavs)"
  shows "pol_statements p \<noteq> []"
    and "\<And>s. s \<in> set (pol_statements p) \<Longrightarrow> to_cap_resource H (st_resource s) = Inr res \<and> cavs = to_caveats (st_conditions s)"
    and "set abilities = {u. \<exists>s \<in> set (pol_statements p). \<exists>x \<in> set (st_actions s). glob_grants (iam_universe i) (trim x) u}"
proof -
  from assms obtain s rest where ss: "policy_allows p = s # rest" "\<not> policy_denies p"
    and same: "\<forall>t \<in> set rest. st_resource t = st_resource s \<and> st_conditions t = st_conditions s"
    and ab: "expand_actions i (concat (map st_actions (s # rest))) = Inr abilities"
    and r: "to_cap_resource H (st_resource s) = Inr res" "cavs = to_caveats (st_conditions s)"
    unfolding compile_Inr by blast
  have "\<forall>s \<in> set (pol_statements p). st_effect s = Allow"
    using ss(2) effect.exhaust by (metis policy_denies_iff)
  then have all: "pol_statements p = s # rest"
    using ss(1) by (simp add: policy_allows_def)
  then show "pol_statements p \<noteq> []" by simp
  show "to_cap_resource H (st_resource t) = Inr res \<and> cavs = to_caveats (st_conditions t)"
    if "t \<in> set (pol_statements p)" for t
    using that same r unfolding all by auto
  show "set abilities = {u. \<exists>s \<in> set (pol_statements p). \<exists>x \<in> set (st_actions s). glob_grants (iam_universe i) (trim x) u}"
    using expand_actions_set [OF ab] unfolding all by auto
qed

text \<open>The capability behind a grant of a role, and the role on disk it is made of.\<close>

lemma make_grant_role:
  assumes "make_grant E a identity audience fs = Inr g" "ga_role a = Some name"
    and "good_file E (cl_catalogs E) ''catalog.json'' (catalog_value_ok (cl_hex E)) fs" "cl_dir E = Inr d"
  obtains role abilities res cavs where "rs_roles (disk_roles E d fs) name = Some role"
    and "compile (cl_hex E) iam_service (role_policy role) = Inr (abilities, res, cavs)"
    and "g = grant_from_chain (cl_lib E) [lib_issue (cl_lib E) identity (principal_node_id audience) abilities res
      cavs (ga_nonce a) None]"
proof -
  from assms(1,2) obtain st where st: "open_catalog_store E fs = Inr st"
    and m: "mint_role (cl_hex E) (cl_lib E) iam_service identity audience (cs_catalog st) name (ga_nonce a) = Inr g"
    by (auto simp: make_grant_def and_then_Inr split: if_splits)
  obtain d' where "cl_dir E = Inr d'" "cs_path st = path_join d' ''catalog.json''" "store_inv (cl_hex E) st"
    "on_disk (cl_catalogs E) st fs"
    using open_catalog_ok [OF st assms(3)] by blast
  with assms(4) have "disk_catalog (cl_hex E) (cl_catalogs E) (fs (d, ''catalog.json'')) = cs_catalog st"
    by (intro disk_catalog_on_disk) simp_all
  moreover from m obtain role where "get_role (cs_catalog st) name = Some role"
    and "mint (cl_hex E) (cl_lib E) iam_service identity audience (role_policy role) (ga_nonce a) = Inr g"
    by (auto simp: mint_role_def and_then_Inr ok_or_def split: option.splits)
  ultimately show thesis
    using that by (auto simp: disk_roles_def abs_catalog_def get_role_def mint_def and_then_Inr)
qed

text \<open>
  Property C6. End to end for roles: a token that \<open>ce-iam grant --role\<close> makes is allowed by a later
  \<open>ce-iam verify\<close> on the same node if and only if the requester is the one granted to, an action pattern
  of some statement of the role as it is on disk at the time of the grant covers the action, the
  resource and signature checks pass, the nonce is not in the revocation set resolved then, and the time
  is in the window of the role's conditions.
\<close>

theorem cli_role_grant_then_verify:
  assumes "issue_law (cl_lib E)" "authorize_law (cl_lib E) K"
    and "stores_ok E0 d fs0" "same_formats E0 E" "cl_dir E = Inr d"
    and "cl_identity E = Inr identity" "ga_role a = Some name" "make_grant E a identity audience fs0 = Inr g"
    and "guarded_decode (cl_lib E) iam_service (gr_token g) = Inr (gr_chain g)"
    and "cl_lib E' = cl_lib E" "cl_identity E' = cl_identity E"
    and "ve_token v = Some (gr_token g)" "ve_on_node v = None"
    and "cmd_verify E' v fs = (Returned (Inr out), fs')"
  shows "\<exists>role rv requester. rs_roles (disk_roles E0 d fs0) name = Some role \<and>
    parse_arg E' ''parsing --requester'' (ve_requester v) = Inr requester \<and>
    fst (resolve_revocation (cl_hex E') (cl_cache E') (cl_pid E') (cl_write E') (cl_read E') (cl_dir E')
      (cl_answer E') (ve_no_revocation_check v) (ve_fail_closed v) (ve_revocation_ttl v) (cl_now E') fs) =
      Returned (Inr rv) \<and>
    (out = Allowed \<longleftrightarrow>
       requester = audience \<and>
       (\<exists>s \<in> set (pol_statements (role_policy role)). \<exists>x \<in> set (st_actions s).
          glob_grants (iam_universe iam_service) (trim x) (ve_action v)) \<and>
       (\<forall>s \<in> set (pol_statements (role_policy role)). window_open (st_conditions s) (cl_now E') \<and>
          (\<exists>res. to_cap_resource (cl_hex E) (st_resource s) = Inr res \<and>
             ck_resource K res (lib_node_id (cl_lib E) identity) (ve_tags v))) \<and>
       ck_signature K (hd (gr_chain g)) \<and> \<not> is_revoked rv (lib_node_id (cl_lib E) identity) (ga_nonce a))"
proof -
  let ?self = "lib_node_id (cl_lib E) identity"
  obtain role abilities res cavs where role: "rs_roles (disk_roles E d fs0) name = Some role"
    and comp: "compile (cl_hex E) iam_service (role_policy role) = Inr (abilities, res, cavs)"
    and g: "g = grant_from_chain (cl_lib E) [lib_issue (cl_lib E) identity (principal_node_id audience) abilities res
      cavs (ga_nonce a) None]"
    using assms(8,7) good_files(1) [OF assms(4,5,3)] assms(5) by (rule make_grant_role)
  obtain identity' iam requester on_node token rv where looked:
      "cl_identity E' = Inr identity'" "verify_service E' v fs = Inr iam"
      "parse_arg E' ''parsing --requester'' (ve_requester v) = Inr requester"
      "verify_node E' v identity' = Inr on_node" "verify_token E' v fs = Inr token"
    and rev: "resolve_revocation (cl_hex E') (cl_cache E') (cl_pid E') (cl_write E') (cl_read E') (cl_dir E')
      (cl_answer E') (ve_no_revocation_check v) (ve_fail_closed v) (ve_revocation_ttl v) (cl_now E') fs =
      (Returned (Inr rv), fs')"
    and out: "out = verdict (verify (cl_lib E') iam on_node (ve_tags v) (cl_now E') requester (ve_action v)
      token (rv_predicate rv))"
    using assms(14) by (rule cmd_verify_cases)
  have same: "on_node = ?self" "token = gr_token g"
    using looked(1,4,5) assms(6,10-13)
    by (auto simp: verify_node_def verify_token_def split: option.splits)
  have dec: "guarded_decode (cl_lib E) iam (gr_token g) = Inr (gr_chain g)"
    using verify_service_iam [OF looked(2)] assms(9) by auto
  have "Principal (principal_node_id audience) = audience" by (cases audience) simp
  then have "out = Allowed \<longleftrightarrow> requester = audience \<and> ve_action v \<in> set abilities \<and>
      (cv_not_before cavs = 0 \<or> cv_not_before cavs \<le> cl_now E') \<and> (cv_not_after cavs = 0 \<or> cl_now E' \<le> cv_not_after cavs) \<and>
      ck_resource K res ?self (ve_tags v) \<and> ck_signature K (hd (gr_chain g)) \<and> \<not> is_revoked rv ?self (ga_nonce a)"
    unfolding out verdict_Allowed same assms(10) root_grant_verifies [OF assms(1,2) g dec]
    by (auto simp: rv_predicate_def)
  moreover note compile_statements [OF comp]
  ultimately have "out = Allowed \<longleftrightarrow>
       requester = audience \<and>
       (\<exists>s \<in> set (pol_statements (role_policy role)). \<exists>x \<in> set (st_actions s).
          glob_grants (iam_universe iam_service) (trim x) (ve_action v)) \<and>
       (\<forall>s \<in> set (pol_statements (role_policy role)). window_open (st_conditions s) (cl_now E') \<and>
          (\<exists>res. to_cap_resource (cl_hex E) (st_resource s) = Inr res \<and>
             ck_resource K res (lib_node_id (cl_lib E) identity) (ve_tags v))) \<and>
       ck_signature K (hd (gr_chain g)) \<and> \<not> is_revoked rv (lib_node_id (cl_lib E) identity) (ga_nonce a)"
    unfolding window_open_caveats by fastforce
  with looked(3) rev role disk_roles_same [OF assms(4)] show ?thesis
    by (intro exI [of _ role] exI [of _ rv] exI [of _ requester]) simp
qed

section \<open>A role granted and used\<close>

definition demo_role_grant :: "capability grant" where
  "demo_role_grant = \<lparr>gr_chain = [demo_issue (demo_node 1) (demo_node 2) [''s:r''] RAny
       (to_caveats default_conditions) 7 None], gr_token = ''#''\<rparr>"

definition demo_granter :: "(node_id, capability) cli" where
  "demo_granter = demo_install\<lparr>cl_identity := Inr (demo_node 1), cl_lib := demo_lib (gr_chain demo_role_grant)\<rparr>"

definition demo_role_files :: fs where
  "demo_role_files = (\<lambda>k. if k = (''iam'', ''catalog.json'') then Some ''1'' else None)"

definition demo_role_args :: grant_args where
  "demo_role_args = demo_grant_args\<lparr>ga_actions := [], ga_role := Some ''reader''\<rparr>"

definition demo_role_verify :: verify_args where
  "demo_role_verify = demo_verify_args\<lparr>ve_action := ''s:r''\<rparr>"

lemma demo_role_stores: "stores_ok demo_granter ''iam'' demo_role_files"
proof -
  have "log_replay own_hex demo_log = catalog_apply own_hex catalog_new (PutRole demo_role) None"
    by (simp add: log_replay_def replay_through_def demo_log_def replay_entry_def)
  moreover have "catalog_good own_hex (catalog_apply own_hex catalog_new (PutRole demo_role) None)"
    by (rule catalog_apply_good [OF catalog_new_good]) (simp add: op_good_def)
  ultimately show ?thesis
    by (simp add: stores_ok_def demo_role_files_def file_ok_def demo_granter_def demo_install_def demo_cli_def
        demo_json_def) (simp add: log_len_def demo_log_def MAX_CATALOG_OPS_def)
qed

theorem cli_role_grant_then_verify_witness:
  "\<exists>role. rs_roles (disk_roles demo_granter ''iam'' demo_role_files) ''reader'' = Some role \<and>
     (\<exists>s \<in> set (pol_statements (role_policy role)). \<exists>x \<in> set (st_actions s).
        glob_grants (iam_universe iam_service) (trim x) ''s:r'')"
proof -
  have laws: "issue_law (cl_lib demo_granter)" "authorize_law (cl_lib demo_granter) demo_checks"
    by (simp_all add: demo_granter_def demo_issue_law demo_authorize_law)
  have E: "same_formats demo_granter demo_granter" "cl_dir demo_granter = Inr ''iam''"
      "cl_identity demo_granter = Inr (demo_node 1)" "ga_role demo_role_args = Some ''reader''"
    by (simp_all add: same_formats_def demo_granter_def demo_install_def demo_cli_def demo_role_args_def)
  have g: "make_grant demo_granter demo_role_args (demo_node 1) (Principal (demo_node 2)) demo_role_files = Inr demo_role_grant"
    by code_simp
  have d: "guarded_decode (cl_lib demo_granter) iam_service (gr_token demo_role_grant) = Inr (gr_chain demo_role_grant)"
    by code_simp
  have v: "ve_token demo_role_verify = Some (gr_token demo_role_grant)" "ve_on_node demo_role_verify = None"
      "ve_action demo_role_verify = ''s:r''"
    by (simp_all add: demo_role_verify_def demo_verify_args_def demo_role_grant_def)
  have "fst (cmd_verify demo_granter demo_role_verify demo_role_files) = Returned (Inr Allowed)"
    by code_simp
  then have c: "cmd_verify demo_granter demo_role_verify demo_role_files =
      (Returned (Inr Allowed), snd (cmd_verify demo_granter demo_role_verify demo_role_files))"
    by (metis prod.collapse)
  from cli_role_grant_then_verify [OF laws demo_role_stores E g d refl refl v(1,2) c] v(3) show ?thesis
    by auto
qed

end
