(* ===== verification/Arguments.thy ===== *)
theory Arguments
  imports RoleGrants
begin

text \<open>
  The command line as it is parsed: the argument structures and the subcommands of \<open>main.rs\<close>, what a run
  takes from the process it runs in, and how both become the environment and the command of \<open>main_cmd\<close>.
  Parsing the words themselves is \<open>clap\<close>'s.
\<close>

section \<open>Argument structures\<close>

record whoami_args =
  wh_json :: bool

record verify_line = verify_args +
  ve_json :: bool

record revoke_args =
  rk_nonce :: u64

record revoked_args =
  rd_json :: bool

record policy_new_args =
  pn_actions :: "string list"
  pn_resource :: string
  pn_conditions :: condition_args

record policy_validate_args =
  pv_file :: "string option"

record policy_inspect_args =
  pi_token :: string
  pi_json :: bool

datatype policy_sub = PolNew policy_new_args | PolValidate policy_validate_args | PolInspect policy_inspect_args

record role_put_args =
  rp_name :: string
  rp_policy :: "string option"
  rp_description :: "string option"

record role_get_args =
  rg_name :: string

record role_list_args =
  rl_json :: bool

record role_rm_args =
  rr_name :: string

record role_attach_args =
  ra_principal :: string
  ra_role :: string

record effective_grants_args =
  ef_principal :: string
  ef_json :: bool

record audit_args =
  ag_since :: u64
  ag_json :: bool

datatype role_sub =
    RolPut role_put_args
  | RolGet role_get_args
  | RolList role_list_args
  | RolRm role_rm_args
  | RolAttach role_attach_args
  | RolDetach role_attach_args
  | RolEffectiveGrants effective_grants_args
  | RolAudit audit_args
  | RolCompact

record wallet_add_args =
  wla_label :: string
  wla_token :: "string option"
  wla_note :: "string option"

record wallet_list_args =
  wll_json :: bool

record wallet_show_args =
  wls_label :: string
  wls_json :: bool

record wallet_rm_args =
  wlr_label :: string

datatype wallet_sub =
    WalAdd wallet_add_args
  | WalList wallet_list_args
  | WalShow wallet_show_args
  | WalRm wallet_rm_args

record root_add_args =
  rta_key :: string
  rta_label :: "string option"
  rta_valid_in :: u64
  rta_valid_for :: u64

record root_list_args =
  rtl_json :: bool

record root_retire_args =
  rtt_key :: string
  rtt_in_secs :: u64

record root_rm_args =
  rtr_key :: string

record root_reissue_args =
  rti_token :: string
  rti_nonce :: u64
  rti_json :: bool

datatype root_sub =
    RooAdd root_add_args
  | RooList root_list_args
  | RooRetire root_retire_args
  | RooRm root_rm_args
  | RooReissue root_reissue_args

record device_claim_args =
  dvc_device_id :: string
  dvc_pub_b64 :: string
  dvc_node_id :: "string option"

record device_request_args =
  dvr_device_id :: string
  dvr_pub_b64 :: string
  dvr_node_id :: "string option"
  dvr_label :: string

record device_list_args =
  dvl_json :: bool

record device_id_args =
  dvi_device_id :: string

datatype device_sub =
    DevClaim device_claim_args
  | DevRequest device_request_args
  | DevList device_list_args
  | DevApprove device_id_args
  | DevRevoke device_id_args

text \<open>The flags that select the vault, which every secret command has first.\<close>

record vault_args =
  vfl_ns :: "string option"
  vfl_kv_node :: "string option"

record secret_init_args =
  sin_vault :: vault_args
  sin_label :: string

record secret_gen_args =
  sgn_vault :: vault_args
  sgn_name :: string
  sgn_kind :: string
  sgn_length :: "nat option"

record secret_put_args =
  spt_vault :: vault_args
  spt_name :: string
  spt_kind :: string

record secret_get_args =
  sgt_vault :: vault_args
  sgt_name :: string
  sgt_force :: bool

record secret_name_args =
  snm_vault :: vault_args
  snm_name :: string

record secret_list_args =
  sls_vault :: vault_args
  sls_json :: bool

record secret_grant_args =
  sgr_vault :: vault_args
  sgr_audience :: string
  sgr_read :: string
  sgr_expires :: "string option"

record secret_enrol_issue_args =
  sei_vault :: vault_args
  sei_label :: string
  sei_ttl :: u64

record secret_enrol_redeem_args =
  ser_vault :: vault_args
  ser_token :: string
  ser_label :: string

record secret_use_args =
  sus_vault :: vault_args
  sus_rest :: "string list"

datatype secret_sub =
    SubInit secret_init_args
  | SubRecover secret_init_args
  | SubGen secret_gen_args
  | SubPut secret_put_args
  | SubGet secret_get_args
  | SubRotate secret_name_args
  | SubList secret_list_args
  | SubRm secret_name_args
  | SubSecretGrant secret_grant_args
  | SubUse secret_use_args
  | SubEnrolIssue secret_enrol_issue_args
  | SubEnrolRedeem secret_enrol_redeem_args

record node_auth_args =
  nu_api :: string
  nu_token :: "string option"
  nu_label :: string
  nu_owner :: "string option"
  nu_no_approve :: bool
  nu_grant_prefixes :: "string list"

datatype cli_sub =
    DoWhoami whoami_args
  | DoGrant grant_args
  | DoVerify verify_line
  | DoRevoke revoke_args
  | DoRevoked revoked_args
  | DoPolicy policy_sub
  | DoRole role_sub
  | DoWallet wallet_sub
  | DoRoot root_sub
  | DoDevice device_sub
  | DoSecret secret_sub
  | DoNodeAuth node_auth_args

record cli_line =
  ln_data_dir :: "string option"
  ln_node :: string
  ln_cmd :: cli_sub

section \<open>The process\<close>

text \<open>
  What one run gets from outside: the default data directory, the results of creating a directory and of
  loading or generating the identity in it, the clock, the answers of the node at an address, the
  standard input and the files that arguments name, and what the responder receives.
\<close>

record ('i, 'x) cli_process =
  ps_data_dir :: "string option"
  ps_mkdir :: "string \<Rightarrow> string option"
  ps_identity :: "string \<Rightarrow> string + 'i"
  ps_now :: u64
  ps_pid :: string
  ps_read :: read_faults
  ps_write :: write_faults
  ps_revoked :: "string \<Rightarrow> node_answer"
  ps_revoked_again :: "string \<Rightarrow> node_answer"
  ps_post :: "http_request \<Rightarrow> http_answer"
  ps_api_token :: "string option"
  ps_stdin :: "string + string"
  ps_file :: "string \<Rightarrow> string + string"
  ps_serve :: "string \<Rightarrow> string option \<Rightarrow> (string + unit) \<times> 'x na_event list"

text \<open>\<open>Path::join\<close> with a plain name.\<close>

definition join_name :: "string \<Rightarrow> string \<Rightarrow> string" where
  "join_name name p = (if p = [] \<or> last p = CHR ''/'' then p @ name else p @ CHR ''/'' # name)"

definition identity_dir :: "string option \<Rightarrow> string option \<Rightarrow> string + string" where
  "identity_dir default_dir explicit =
     (case explicit of
        Some p \<Rightarrow> Inr (join_name ''identity'' p)
      | None \<Rightarrow> and_then (ok_or default_dir ''cannot determine the default CE data dir; pass --data-dir'') (\<lambda>dir.
          Inr (join_name ''identity'' dir)))"

definition identity_at :: "('i, 'x) cli_process \<Rightarrow> string option \<Rightarrow> string + 'i" where
  "identity_at P explicit =
     and_then (identity_dir (ps_data_dir P) explicit) (\<lambda>dir.
     case ps_mkdir P dir of
       Some e \<Rightarrow> Inl (''creating identity dir: '' @ e)
     | None \<Rightarrow> map_err (\<lambda>e. ''loading CE identity: '' @ e) (ps_identity P dir))"

definition iam_dir_at :: "('i, 'x) cli_process \<Rightarrow> string option \<Rightarrow> iam_error + string" where
  "iam_dir_at P explicit =
     iam_dir (join_name ''iam'') (ps_data_dir P)
       (ps_mkdir P (join_name ''iam'' (unwrap_or explicit (unwrap_or (ps_data_dir P) [])))) explicit"

definition read_file_or_stdin :: "('i, 'x) cli_process \<Rightarrow> string option \<Rightarrow> cli_error + string" where
  "read_file_or_stdin P file =
     (case file of
        Some f \<Rightarrow> map_err (\<lambda>e. CText (''reading '' @ f)) (ps_file P f)
      | None \<Rightarrow> map_err (\<lambda>e. CText ''reading stdin'') (ps_stdin P))"

text \<open>
  The environment of the commands: \<open>E0\<close> is the program as built, with its libraries and formats, and
  \<open>X0\<close> what the vault has from outside.
\<close>

definition cli_of :: "('i, 's) cli \<Rightarrow> ('i, 'x) cli_process \<Rightarrow> cli_line \<Rightarrow> ('i, 's) cli" where
  "cli_of E0 P line = E0\<lparr>
     cl_identity := identity_at P (ln_data_dir line),
     cl_dir := iam_dir_at P (ln_data_dir line),
     cl_now := ps_now P, cl_pid := ps_pid P, cl_read := ps_read P, cl_write := ps_write P,
     cl_answer := ps_revoked P (ln_node line)\<rparr>"

fun vault_flags :: "secret_sub \<Rightarrow> vault_args" where
  "vault_flags (SubInit a) = sin_vault a"
| "vault_flags (SubRecover a) = sin_vault a"
| "vault_flags (SubGen a) = sgn_vault a"
| "vault_flags (SubPut a) = spt_vault a"
| "vault_flags (SubGet a) = sgt_vault a"
| "vault_flags (SubRotate a) = snm_vault a"
| "vault_flags (SubList a) = sls_vault a"
| "vault_flags (SubRm a) = snm_vault a"
| "vault_flags (SubSecretGrant a) = sgr_vault a"
| "vault_flags (SubUse a) = sus_vault a"
| "vault_flags (SubEnrolIssue a) = sei_vault a"
| "vault_flags (SubEnrolRedeem a) = ser_vault a"

definition vault_of :: "('j, 'p, 'w, 'v, 'x, 'net) vault_cli \<Rightarrow> ('i, 'x) cli_process \<Rightarrow> cli_line \<Rightarrow>
    ('j, 'p, 'w, 'v, 'x, 'net) vault_cli" where
  "vault_of X0 P line =
     (case ln_cmd line of
        DoSecret s \<Rightarrow> X0\<lparr>
          vl_ns := vfl_ns (vault_flags s), vl_kv_node := vfl_kv_node (vault_flags s),
          vl_node := ln_node line, vl_token := ps_api_token P,
          vl_env := (vl_env X0)\<lparr>se_stdin := ps_stdin P\<rparr>\<rparr>
      | _ \<Rightarrow> X0)"

section \<open>Subcommands\<close>

fun policy_command :: "('i, 'x) cli_process \<Rightarrow> policy_sub \<Rightarrow> 'x command" where
  "policy_command P (PolNew a) = PolicyNew (pn_actions a) (pn_resource a) (pn_conditions a)"
| "policy_command P (PolValidate a) = PolicyValidate (read_file_or_stdin P (pv_file a))"
| "policy_command P (PolInspect a) = PolicyInspect (pi_token a)"

fun role_command :: "('i, 'x) cli_process \<Rightarrow> role_sub \<Rightarrow> role_cmd" where
  "role_command P (RolPut a) = RolePut (rp_name a) (rp_description a) (read_file_or_stdin P (rp_policy a))"
| "role_command P (RolGet a) = RoleGet (rg_name a)"
| "role_command P (RolList a) = RoleList"
| "role_command P (RolRm a) = RoleRm (rr_name a)"
| "role_command P (RolAttach a) = RoleAttach (ra_principal a) (ra_role a)"
| "role_command P (RolDetach a) = RoleDetach (ra_principal a) (ra_role a)"
| "role_command P (RolEffectiveGrants a) = RoleEffective (ef_principal a)"
| "role_command P (RolAudit a) = RoleAudit (ag_since a)"
| "role_command P RolCompact = RoleCompact"

fun wallet_command :: "('i, 'x) cli_process \<Rightarrow> wallet_sub \<Rightarrow> wallet_cmd" where
  "wallet_command P (WalAdd a) = WalletAdd (wla_label a) (wla_token a) (wla_note a) (ps_stdin P)"
| "wallet_command P (WalList a) = WalletList"
| "wallet_command P (WalShow a) = WalletShow (wls_label a)"
| "wallet_command P (WalRm a) = WalletRm (wlr_label a)"

fun root_command :: "root_sub \<Rightarrow> root_cmd" where
  "root_command (RooAdd a) = RootAdd (rta_key a) (rta_label a) (rta_valid_in a) (rta_valid_for a)"
| "root_command (RooList a) = RootList"
| "root_command (RooRetire a) = RootRetire (rtt_key a) (rtt_in_secs a)"
| "root_command (RooRm a) = RootRm (rtr_key a)"
| "root_command (RooReissue a) = RootReissue (rti_token a) (rti_nonce a) (rti_json a)"

fun device_command :: "device_sub \<Rightarrow> device_cmd" where
  "device_command (DevClaim a) = DeviceClaim (dvc_device_id a) (dvc_pub_b64 a) (dvc_node_id a)"
| "device_command (DevRequest a) = DeviceRequest (dvr_device_id a) (dvr_pub_b64 a) (dvr_node_id a) (dvr_label a)"
| "device_command (DevList a) = DeviceList"
| "device_command (DevApprove a) = DeviceApprove (dvi_device_id a)"
| "device_command (DevRevoke a) = DeviceRevoke (dvi_device_id a)"

fun secret_command :: "secret_sub \<Rightarrow> secret_cmd" where
  "secret_command (SubInit a) = SecInit (sin_label a)"
| "secret_command (SubRecover a) = SecRecover (sin_label a)"
| "secret_command (SubGen a) = SecGen (sgn_name a) (sgn_kind a) (sgn_length a)"
| "secret_command (SubPut a) = SecPut (spt_name a) (spt_kind a)"
| "secret_command (SubGet a) = SecGet (sgt_name a) (sgt_force a)"
| "secret_command (SubRotate a) = SecRotate (snm_name a)"
| "secret_command (SubList a) = SecList"
| "secret_command (SubRm a) = SecRm (snm_name a)"
| "secret_command (SubSecretGrant a) = SecGrant (sgr_audience a) (sgr_read a) (sgr_expires a)"
| "secret_command (SubUse a) = SecUse (sus_rest a)"
| "secret_command (SubEnrolIssue a) = SecEnrolIssue (sei_label a) (sei_ttl a)"
| "secret_command (SubEnrolRedeem a) = SecEnrolRedeem (ser_token a) (ser_label a)"

definition serve_token :: "('i, 'x) cli_process \<Rightarrow> node_auth_args \<Rightarrow> string option" where
  "serve_token P a = (case nu_token a of Some t \<Rightarrow> Some t | None \<Rightarrow> ps_api_token P)"

fun command_of :: "('i, 'x) cli_process \<Rightarrow> string \<Rightarrow> cli_sub \<Rightarrow> 'x command" where
  "command_of P node (DoWhoami a) = Whoami"
| "command_of P node (DoGrant a) = GrantCmd a"
| "command_of P node (DoVerify a) = VerifyCmd (verify_args.truncate a)"
| "command_of P node (DoRevoke a) = RevokeCmd (ps_post P) node (ps_api_token P) (rk_nonce a)"
| "command_of P node (DoRevoked a) = RevokedCmd (ps_revoked_again P node)"
| "command_of P node (DoPolicy p) = policy_command P p"
| "command_of P node (DoRole r) = RoleCmd (role_command P r)"
| "command_of P node (DoWallet w) = WalletCmd (wallet_command P w)"
| "command_of P node (DoRoot r) = RootCmd (root_command r)"
| "command_of P node (DoDevice d) = DeviceCmd (device_command d)"
| "command_of P node (DoSecret s) = SecretCmd (secret_command s)"
| "command_of P node (DoNodeAuth a) =
     (case ps_serve P (nu_api a) (serve_token P a) of
        (subscribed, events) \<Rightarrow>
          NodeAuthCmd (nu_label a) (nu_owner a) (nu_no_approve a) (nu_grant_prefixes a) subscribed events)"

definition ce_iam :: "('i, 's) cli \<Rightarrow> ('j, 'p, 'w, 'v, 'x, 'net) vault_cli \<Rightarrow> (string \<Rightarrow> string + policy) \<Rightarrow>
    ('i, 'x) cli_process \<Rightarrow> cli_line \<Rightarrow> fs \<Rightarrow> 'net \<Rightarrow> ('x, 'net) main_result" where
  "ce_iam E0 X0 parse P line fs net =
     main_cmd (cli_of E0 P line) (vault_of X0 P line) parse (command_of P (ln_node line) (ln_cmd line)) fs net"

text \<open>
  The exit status: 1 when \<open>main\<close> returns an error or a verification denies, the argument of \<open>exit\<close> after
  \<open>secret use\<close>, 101 after a panic, and none when the process was stopped.
\<close>

fun exit_status :: "(cli_error + 'x main_output) outcome \<Rightarrow> int option" where
  "exit_status Stopped = None"
| "exit_status (Returned (Inl e)) = Some (if e = CText ''panic'' then 101 else 1)"
| "exit_status (Returned (Inr (Printed (DeniedWith e)))) = Some 1"
| "exit_status (Returned (Inr (VaultDone (ExitWith n)))) = Some n"
| "exit_status (Returned (Inr _)) = Some 0"

end
