(* ===== verification/CommandLine.thy ===== *)
theory CommandLine
  imports Arguments
begin

text \<open>
  What a run of the command line leaves behind, from the words it was given: the files under the data
  directory it may change, what a command that fails leaves, and when \<open>verify\<close> exits with status zero.
\<close>

section \<open>Failed commands\<close>

definition in_iam_dir :: "('i, 's) cli \<Rightarrow> string list \<Rightarrow> file_key \<Rightarrow> bool" where
  "in_iam_dir E names k \<longleftrightarrow> (\<exists>d name. cl_dir E = Inr d \<and> name \<in> set names \<and> k = (d, name))"

lemma atomic_refused:
  assumes "atomic_write_json J (cl_pid E) F (path_join d name) v fs = (Returned (Inl e), fs')" "cl_dir E = Inr d"
  shows "only_changes (in_iam_dir E [temp_name name (cl_pid E)]) fs fs'"
  using atomic_write_spec [OF assms(1)] assms(2) by (auto simp: write_spec_def only_changes_def in_iam_dir_def)

lemma save_opt_refused:
  assumes "save_opt J (cl_pid E) F (Some (path_join d name)) v fs = (Returned (Inl e), fs')" "cl_dir E = Inr d"
  shows "only_changes (in_iam_dir E [temp_name name (cl_pid E)]) fs fs'"
  using assms by (auto simp: save_opt_def intro: atomic_refused)

lemma open_catalog_path:
  assumes "open_catalog_store E fs = Inr st"
  obtains d where "cl_dir E = Inr d" "cs_path st = path_join d ''catalog.json''"
  using assms by (auto simp: open_catalog_store_def catalog_store_open_def Let_def and_then_Inr map_err_def
      split: sum.splits if_splits)

lemma open_wallet_path:
  assumes "open_wallet E fs = Inr w"
  obtains d where "cl_dir E = Inr d" "wa_path w = Some (path_join d ''wallet.json'')"
  using assms by (auto simp: open_wallet_def wallet_open_def Let_def and_then_Inr map_err_def split: sum.splits)

lemma open_roots_path:
  assumes "open_roots E fs = Inr r"
  obtains d where "cl_dir E = Inr d" "ro_path r = Some (path_join d ''roots.json'')"
  using assms by (auto simp: open_roots_def roots_open_def Let_def and_then_Inr map_err_def split: sum.splits)

lemma commit_refused:
  assumes "commit (atomic_write_json J (cl_pid E) F (cs_path st) v fs) st new = (o1, st', fs')"
    and "open_catalog_store E fs0 = Inr st" "\<not> succeeded o1" "o1 \<noteq> Stopped"
  shows "only_changes (in_iam_dir E [temp_name ''catalog.json'' (cl_pid E)]) fs fs'"
proof -
  obtain d where d: "cl_dir E = Inr d" "cs_path st = path_join d ''catalog.json''"
    using open_catalog_path [OF assms(2)] .
  from assms(3,4) obtain e where "o1 = Returned (Inl e)"
    by (auto simp: succeeded_def split: outcome.splits sum.splits)
  with commit_cases [OF assms(1)] d show ?thesis
    by (auto intro: atomic_refused)
qed

lemma cmd_role_refused:
  assumes "cmd_role E parse c fs = (Returned (Inl e), fs')"
  shows "only_changes (in_iam_dir E [temp_name ''catalog.json'' (cl_pid E)]) fs fs'"
  using assms
proof (cases rule: cmd_role_cases)
  case (applied st st' op o1)
  from applied(3) show ?thesis
  proof (cases rule: store_apply_cases)
    case written
    then show ?thesis using commit_refused [OF written(3) applied(2)] applied(4,5) by simp
  qed simp
next
  case (compact st st' o1)
  then show ?thesis
    using commit_refused [OF compact(3) [unfolded store_compact_commit] compact(2)] by simp
qed simp

lemma after_op_refused:
  assumes "after_op x out = (Returned (Inl e), fs')"
  obtains e1 st where "x = (Returned (Inl e1), st, fs')"
  using assms by (auto simp: after_op_def split: prod.splits outcome.splits sum.splits)

lemma cmd_wallet_refused:
  assumes "cmd_wallet E c fs = (Returned (Inl e), fs')"
  shows "only_changes (in_iam_dir E [temp_name ''wallet.json'' (cl_pid E)]) fs fs'"
proof (cases c)
  case (WalletAdd label token nt stdin)
  with assms show ?thesis
    by (auto elim!: with_result_cases after_op_refused open_wallet_path intro: save_opt_refused
        simp: wallet_add_def wallet_save_def Let_def split: sum.splits prod.splits)
next
  case (WalletRm label)
  with assms show ?thesis
    by (auto elim!: with_result_cases after_op_refused open_wallet_path intro: save_opt_refused
        simp: wallet_remove_def wallet_save_def Let_def split: sum.splits prod.splits outcome.splits if_splits)
qed (use assms in \<open>auto elim!: with_result_cases simp: pure_result_def\<close>)

lemma cmd_root_refused:
  assumes "cmd_root E c fs = (Returned (Inl e), fs')"
  shows "only_changes (in_iam_dir E [temp_name ''roots.json'' (cl_pid E)]) fs fs'"
proof (cases c)
  case (RootAdd key label valid_in valid_for)
  with assms show ?thesis
    by (auto elim!: with_result_cases after_op_refused open_roots_path intro: save_opt_refused
        simp: roots_add_def roots_save_def Let_def split: prod.splits if_splits)
next
  case (RootRetire key in_secs)
  with assms show ?thesis
    by (auto elim!: with_result_cases after_op_refused open_roots_path intro: save_opt_refused
        simp: roots_retire_def roots_save_def saved_true_def Let_def
        split: option.splits prod.splits outcome.splits sum.splits)
next
  case (RootRm key)
  with assms show ?thesis
    by (auto elim!: with_result_cases after_op_refused open_roots_path intro: save_opt_refused
        simp: roots_remove_def roots_save_def saved_true_def Let_def
        split: if_splits prod.splits outcome.splits sum.splits)
qed (use assms in \<open>auto elim!: with_result_cases simp: pure_result_def\<close>)

lemma dev_persist_refused:
  assumes "dev_persist J F (dev_path d) m fs = (Returned (Inl e), fs')" "cl_dir E = Inr d"
  shows "only_changes (in_iam_dir E [''devices.json.tmp'']) fs fs'"
proof -
  have "fs' (d, ''devices.json'') = fs (d, ''devices.json'')"
    using dev_persist_effect [OF assms(1)] by simp
  then have "fs' k = fs k" if "k \<noteq> (d, ''devices.json.tmp'')" for k
    using that only_changesD [OF dev_persist_frame [OF assms(1)], of k] by (cases "k = (d, ''devices.json'')") simp_all
  with assms(2) show ?thesis
    by (auto simp: only_changes_def in_iam_dir_def simp del: split_paired_All)
qed

lemma and_persist_refused:
  assumes "and_persist J F changed x \<lparr>ds_path = dev_path d, ds_map = m\<rparr> fs = (r, st', fs')" "cl_dir E = Inr d"
    and "(\<exists>e. r = Returned (Inl e)) \<or> \<not> changed"
  shows "only_changes (in_iam_dir E [''devices.json.tmp'']) fs fs'"
  using assms dev_persist_refused [OF _ assms(2)]
  by (auto simp: and_persist_def split: if_splits prod.splits outcome.splits sum.splits)

lemma after_dev_refused:
  assumes "after_dev x out = (Returned (Inl e), fs')"
  obtains (failed) e1 st where "x = (Returned (Inl e1), st, fs')"
    | (answered) y st where "x = (Returned (Inr y), st, fs')" "out y = Inl e"
  using assms by (auto simp: after_dev_def split: prod.splits outcome.splits sum.splits)

lemma and_persist_answer: "and_persist J F changed x st fs = (Returned (Inr y), st', fs') \<Longrightarrow> y = x"
  by (auto simp: and_persist_def split: if_splits prod.splits outcome.splits sum.splits)

lemma cmd_device_refused:
  assumes "cmd_device E c fs = (Returned (Inl e), fs')"
  shows "only_changes (in_iam_dir E [''devices.json.tmp'']) fs fs'"
proof -
  have op: "only_changes (in_iam_dir E [''devices.json.tmp'']) fs fs'"
    if "with_devices E fs (\<lambda>st fs. after_dev (and_persist J F (changed (ds_map st)) (x (ds_map st))
        (st\<lparr>ds_map := m (ds_map st)\<rparr>) fs) out) = (Returned (Inl e), fs')"
      and quiet: "\<And>m0 e. out (x m0) = Inl e \<Longrightarrow> \<not> changed m0"
    for J F out changed m and x :: "dev_map \<Rightarrow> 'z"
    using that(1)
  proof (cases rule: with_devices_cases)
    case (opened d m0)
    from opened(3) show ?thesis
    proof (cases rule: after_dev_refused)
      case (failed e1 st)
      then show ?thesis by (auto intro: and_persist_refused [OF _ opened(1)])
    next
      case (answered y st)
      have "\<not> changed m0"
        by (rule quiet) (use answered and_persist_answer [OF answered(1)] in simp)
      with answered(1) show ?thesis by (auto intro: and_persist_refused [OF _ opened(1)])
    qed
  qed simp
  show ?thesis
  proof (cases c)
    case (DeviceClaim dev pk node)
    with assms show ?thesis
      by (auto elim!: with_result_cases simp: dev_claim_def split_def split: if_splits intro: op)
  next
    case (DeviceRequest dev pk node label)
    with assms show ?thesis
      by (auto elim!: with_result_cases simp: dev_request_def split_def intro: op)
  next
    case (DeviceApprove dev)
    with assms show ?thesis
      by (auto simp: dev_approve_def split_def split: if_splits intro: op)
  next
    case (DeviceRevoke dev)
    with assms show ?thesis
      by (auto simp: dev_revoke_def split_def split: revoke_outcome.splits intro: op)
  qed (use assms in \<open>auto elim!: with_devices_cases dest: pure_result_files\<close>)
qed

lemma map_outcome_Inl: "Returned (Inl e) = map_outcome (map_sum id f) r \<longleftrightarrow> r = Returned (Inl e)"
  by (cases r) (auto simp: map_sum_def split: sum.splits)

section \<open>A run in its data directory\<close>

text \<open>The directory that \<open>--data-dir\<close> names, or the default one.\<close>

definition data_dir_of :: "('i, 'x) cli_process \<Rightarrow> cli_line \<Rightarrow> string option" where
  "data_dir_of P line = (case ln_data_dir line of Some d \<Rightarrow> Some d | None \<Rightarrow> ps_data_dir P)"

lemma cli_of_sel [simp]:
  "cl_hex (cli_of E0 P line) = cl_hex E0" "cl_lib (cli_of E0 P line) = cl_lib E0"
  "cl_identity (cli_of E0 P line) = identity_at P (ln_data_dir line)"
  "cl_dir (cli_of E0 P line) = iam_dir_at P (ln_data_dir line)"
  "cl_now (cli_of E0 P line) = ps_now P" "cl_pid (cli_of E0 P line) = ps_pid P"
  "same_formats E0 (cli_of E0 P line)"
  by (simp_all add: cli_of_def same_formats_def)

lemma iam_dir_at_cases:
  assumes "data_dir_of P line = Some D"
  shows "iam_dir_at P (ln_data_dir line) = Inr (join_name ''iam'' D) \<or> (\<exists>e. iam_dir_at P (ln_data_dir line) = Inl e)"
  using assms by (auto simp: data_dir_of_def iam_dir_at_def iam_dir_def Let_def and_then_def ok_or_def
      split: option.splits)

lemma in_iam_dir_line:
  assumes "data_dir_of P line = Some D" "in_iam_dir (cli_of E0 P line) names k"
  shows "fst k = join_name ''iam'' D \<and> snd k \<in> set names"
  using iam_dir_at_cases [OF assms(1)] assms(2) by (auto simp: in_iam_dir_def)

lemma writes_in_iam_dir:
  assumes "writes E J name Q fs fs'"
  shows "only_changes (in_iam_dir E [name, temp_name name (cl_pid E)]) fs fs'"
proof (cases "cl_dir E")
  case (Inl e)
  then show ?thesis using writes_same_dir [OF assms] by simp
next
  case (Inr d)
  then show ?thesis
    by (auto intro: only_changes_mono [OF writes_frame [OF assms]] simp: in_iam_dir_def)
qed

lemma load_or_create_in_iam_dir:
  assumes "load_or_create_device_key J (cl_dir E) R F generated fs = (r, fs')"
  shows "only_changes (in_iam_dir E [''secrets-device.json'']) fs fs'"
  using load_or_create_frame [OF assms]
  by (auto simp: in_iam_dir_def split: sum.splits elim!: only_changes_mono)

text \<open>What a command that fails may leave behind.\<close>

fun leftovers :: "string \<Rightarrow> cli_sub \<Rightarrow> string list" where
  "leftovers pid (DoRole r) = [temp_name ''catalog.json'' pid]"
| "leftovers pid (DoWallet w) = [temp_name ''wallet.json'' pid]"
| "leftovers pid (DoRoot r) = [temp_name ''roots.json'' pid]"
| "leftovers pid (DoDevice d) = [''devices.json.tmp'']"
| "leftovers pid (DoVerify a) = [''revocation-cache.json'', temp_name ''revocation-cache.json'' pid]"
| "leftovers pid (DoSecret s) = [''secrets-device.json'']"
| "leftovers pid _ = []"

lemma policy_command_pure:
  assumes "main_cmd E X parse (policy_command P p) fs net = (r, fs', net')"
  shows "fs' = fs"
  using assms by (cases p) (auto dest: pure_on_files)

lemma failed_run:
  assumes "main_cmd E X parse (command_of P node c) fs net = (Returned (Inl e), fs', net')"
  shows "only_changes (in_iam_dir E (leftovers (cl_pid E) c)) fs fs'"
proof (cases c)
  case (DoVerify a)
  with assms obtain r0 where "cmd_verify E (verify_args.truncate a) fs = (r0, fs')" by (auto dest: on_files_result)
  then show ?thesis using cmd_verify_writes writes_in_iam_dir DoVerify by fastforce
next
  case (DoPolicy p)
  then show ?thesis using assms policy_command_pure by fastforce
next
  case (DoRole r)
  with assms obtain e0 where "cmd_role E parse (role_command P r) fs = (Returned (Inl e0), fs')"
    by (auto dest!: on_files_result simp: map_outcome_Inl)
  then show ?thesis using DoRole by (simp add: cmd_role_refused)
next
  case (DoWallet w)
  with assms obtain e0 where "cmd_wallet E (wallet_command P w) fs = (Returned (Inl e0), fs')"
    by (auto dest!: on_files_result simp: map_outcome_Inl)
  then show ?thesis using DoWallet by (simp add: cmd_wallet_refused)
next
  case (DoRoot r)
  with assms obtain e0 where "cmd_root E (root_command r) fs = (Returned (Inl e0), fs')"
    by (auto dest!: on_files_result simp: map_outcome_Inl)
  then show ?thesis using DoRoot by (simp add: cmd_root_refused)
next
  case (DoDevice d)
  with assms obtain e0 where "cmd_device E (device_command d) fs = (Returned (Inl e0), fs')"
    by (auto dest!: on_files_result simp: map_outcome_Inl)
  then show ?thesis using DoDevice by (simp add: cmd_device_refused)
next
  case (DoSecret s)
  with assms have "run_secret E X (secret_command s) fs net = (Returned (Inl e), fs', net')" by simp
  from run_secret_files [OF this] show ?thesis
    using DoSecret by (auto intro: load_or_create_in_iam_dir)
qed (use assms in \<open>auto dest: pure_on_files split: prod.splits\<close>)


text \<open>What a run may change at all: the files of the one store its subcommand writes, nothing when it only reads.\<close>

fun own_files :: "string \<Rightarrow> cli_sub \<Rightarrow> string list" where
  "own_files pid (DoVerify a) =
     (if ve_no_revocation_check a then [] else [''revocation-cache.json'', temp_name ''revocation-cache.json'' pid])"
| "own_files pid (DoRole r) =
     (case r of
        RolGet _ \<Rightarrow> [] | RolList _ \<Rightarrow> [] | RolEffectiveGrants _ \<Rightarrow> [] | RolAudit _ \<Rightarrow> []
      | _ \<Rightarrow> [''catalog.json'', temp_name ''catalog.json'' pid])"
| "own_files pid (DoWallet w) =
     (case w of
        WalList _ \<Rightarrow> [] | WalShow _ \<Rightarrow> [] | _ \<Rightarrow> [''wallet.json'', temp_name ''wallet.json'' pid])"
| "own_files pid (DoRoot r) =
     (case r of
        RooList _ \<Rightarrow> [] | RooReissue _ \<Rightarrow> [] | _ \<Rightarrow> [''roots.json'', temp_name ''roots.json'' pid])"
| "own_files pid (DoDevice d) = (case d of DevList _ \<Rightarrow> [] | _ \<Rightarrow> [''devices.json'', ''devices.json.tmp''])"
| "own_files pid (DoSecret s) = [''secrets-device.json'']"
| "own_files pid _ = []"

lemma own_file_line:
  assumes "may_change d (own_file pid (command_of P node c)) k"
  shows "fst k = d \<and> snd k \<in> set (own_files pid c)"
proof (cases c)
  case (DoRole r)
  with assms show ?thesis by (cases r) (auto simp: may_change_def)
next
  case (DoWallet w)
  with assms show ?thesis by (cases w) (auto simp: may_change_def)
next
  case (DoRoot r)
  with assms show ?thesis by (cases r) (auto simp: may_change_def)
next
  case (DoDevice d)
  with assms show ?thesis by (cases d) (auto simp: may_change_def)
next
  case (DoPolicy p)
  with assms show ?thesis by (cases p) (auto simp: may_change_def)
next
  case (DoVerify a)
  with assms show ?thesis by (auto simp: may_change_def verify_args.defs split: if_splits)
qed (use assms in \<open>auto simp: may_change_def split: prod.splits if_splits\<close>)

definition identities_ok :: "('i, 's) cli \<Rightarrow> ('i, 'x) cli_process \<Rightarrow> bool" where
  "identities_ok E0 P \<longleftrightarrow>
     (\<forall>dir i. ps_identity P dir = Inr i \<longrightarrow> principal_ok (Principal (lib_node_id (cl_lib E0) i)))"

lemma line_actor:
  assumes "identities_ok E0 P"
  shows "pred_option principal_ok (cli_actor (cli_of E0 P line))"
  using assms
  by (auto simp: cli_actor_def load_identity_def identity_at_def identities_ok_def and_then_def map_err_def ok_def
      split: sum.splits option.splits)


text \<open>A run is an invocation of a history on the directory that its line names.\<close>

definition invocation_of :: "('i, 's) cli \<Rightarrow> ('j, 'p, 'w, 'v, 'x, 'net) vault_cli \<Rightarrow> (string \<Rightarrow> string + policy) \<Rightarrow>
    ('i, 'x) cli_process \<Rightarrow> cli_line \<Rightarrow> 'net \<Rightarrow> ('i, 's, 'j, 'p, 'w, 'v, 'x, 'net) invocation" where
  "invocation_of E0 X0 parse P line net =
     \<lparr>in_cli = cli_of E0 P line, in_vault = vault_of X0 P line, in_parse = parse,
      in_command = command_of P (ln_node line) (ln_cmd line), in_net = net\<rparr>"

lemma run_is_invocation:
  assumes "identities_ok E0 P" "data_dir_of P line = Some D"
  shows "on_install E0 (join_name ''iam'' D) (invocation_of E0 X0 parse P line net)"
    and "invoke (invocation_of E0 X0 parse P line net) fs =
      (case ce_iam E0 X0 parse P line fs net of (r, fs', net') \<Rightarrow> (r, fs'))"
  using iam_dir_at_cases [OF assms(2)] line_actor [OF assms(1)]
  by (auto simp: on_install_def invocation_of_def invoke_def ce_iam_def)

section \<open>The exit status of \<open>verify\<close>\<close>

lemma cmd_verify_Allowed:
  "cmd_verify E v fs = (Returned (Inr Allowed), fs') \<longleftrightarrow>
   (\<exists>identity iam requester on_node token rv. load_identity E = Inr identity \<and> verify_service E v fs = Inr iam \<and>
      parse_arg E ''parsing --requester'' (ve_requester v) = Inr requester \<and> verify_node E v identity = Inr on_node \<and>
      verify_token E v fs = Inr token \<and>
      resolve_revocation (cl_hex E) (cl_cache E) (cl_pid E) (cl_write E) (cl_read E) (cl_dir E)
        (cl_answer E) (ve_no_revocation_check v) (ve_fail_closed v) (ve_revocation_ttl v) (cl_now E) fs =
        (Returned (Inr rv), fs') \<and>
      verify (cl_lib E) iam on_node (ve_tags v) (cl_now E) requester (ve_action v) token (rv_predicate rv) = Inr ())"
  by (auto simp: cmd_verify_def with_result_def verdict_Allowed [symmetric] split: sum.splits prod.splits outcome.splits)

lemma verify_step_errors:
  "identity_at P dir = Inl t \<Longrightarrow> t \<noteq> ''panic''"
  "parse_arg E context arg = Inl e \<Longrightarrow> e = CText context"
  "verify_service E v fs = Inl e \<Longrightarrow> e \<noteq> CText t"
  "verify_node E v i = Inl e \<Longrightarrow> e = CText ''parsing --on-node''"
  "verify_token E v fs = Inl e \<Longrightarrow> e \<noteq> CText ''panic''"
  by (auto simp: identity_at_def identity_dir_def parse_arg_def verify_service_def open_roots_def verify_node_def
      verify_token_def open_wallet_def and_then_def map_err_def ok_or_def split: sum.splits option.splits if_splits)

lemma with_result_no_panic:
  assumes "\<And>e. r = Inl e \<Longrightarrow> e \<noteq> CText ''panic''"
    and "\<And>x. r = Inr x \<Longrightarrow> k x \<noteq> (Returned (Inl (CText ''panic'')), fs')"
  shows "with_result r fs k \<noteq> (Returned (Inl (CText ''panic'')), fs')"
  using assms by (cases r) (auto simp: with_result_def)

lemma verify_error_text: "cmd_verify (cli_of E0 P line) v fs \<noteq> (Returned (Inl (CText ''panic'')), fs')"
  unfolding cmd_verify_def
proof (intro with_result_no_panic)
  show "e \<noteq> CText ''panic''" if "load_identity (cli_of E0 P line) = Inl e" for e
    using that verify_step_errors(1) by (auto simp: load_identity_def map_err_def split: sum.splits)
qed (auto dest: verify_step_errors(2-5) simp: prod.case_eq_if split: sum.splits outcome.splits)

lemma verify_status:
  assumes "cmd_verify (cli_of E0 P line) v fs = (r, fs')"
  shows "exit_status (map_outcome (map_sum id Printed) r) =
    (case r of Stopped \<Rightarrow> None | Returned x \<Rightarrow> Some (if x = Inr Allowed then 0 else 1))"
proof (cases r)
  case (Returned x)
  show ?thesis
  proof (cases x)
    case (Inl e)
    then have "e \<noteq> CText ''panic''"
      using assms verify_error_text unfolding Returned by metis
    with Returned Inl show ?thesis by simp
  next
    case (Inr out)
    have "out = Allowed \<or> (\<exists>e. out = DeniedWith e)"
      by (rule cmd_verify_cases [OF assms [unfolded Returned Inr]]) (simp add: verdict_def split: sum.split)
    with Returned Inr show ?thesis by (elim disjE exE) simp_all
  qed
qed simp

text \<open>
  Property C8. A script may trust the exit status of \<open>verify\<close>. The run exits with status zero exactly when
  the identity loads, the requester and the node parse, the token is found, the revocations are resolved
  as the flags demand, and the token is within the limits and decodes to a chain that meets every
  documented condition under the node itself and, with \<open>--use-roots\<close>, the roots accepted then. In all
  other cases it exits with status one or was stopped: no failure on the way is a success.
\<close>

theorem verify_exit_status:
  assumes "authorize_law (cl_lib E0) K" "ln_cmd line = DoVerify a" "v = verify_args.truncate a"
    and "E = cli_of E0 P line" "ce_iam E0 X0 parse P line fs net = (r, fs', net')"
  shows "(exit_status r = Some 0 \<longleftrightarrow>
     (\<exists>identity iam requester on_node token rv chain. identity_at P (ln_data_dir line) = Inr identity \<and>
        verify_service E v fs = Inr iam \<and> parse_arg E ''parsing --requester'' (ve_requester v) = Inr requester \<and>
        verify_node E v identity = Inr on_node \<and> verify_token E v fs = Inr token \<and>
        resolve_revocation (cl_hex E) (cl_cache E) (cl_pid E) (cl_write E) (cl_read E) (cl_dir E)
          (cl_answer E) (ve_no_revocation_check v) (ve_fail_closed v) (ve_revocation_ttl v) (ps_now P) fs =
          (Returned (Inr rv), fs') \<and>
        guarded_decode (cl_lib E0) iam token = Inr chain \<and>
        documented_ok (cl_lib E0) K on_node (iam_roots iam) (ve_tags v) (ps_now P) (principal_node_id requester)
          (ve_action v) chain (rv_predicate rv))) \<and>
    (exit_status r \<in> {None, Some 0, Some 1})"
proof -
  from assms obtain r0 where r0: "cmd_verify E v fs = (r0, fs')" "r = map_outcome (map_sum id Printed) r0"
    by (auto simp: ce_iam_def dest!: on_files_result)
  have status: "exit_status r = (case r0 of Stopped \<Rightarrow> None | Returned x \<Rightarrow> Some (if x = Inr Allowed then 0 else 1))"
    using verify_status r0 assms(4) by simp
  then have zero: "exit_status r = Some 0 \<longleftrightarrow> cmd_verify E v fs = (Returned (Inr Allowed), fs')"
    using r0(1) by (auto split: outcome.splits)
  have ok: "verify (cl_lib E) iam on_node tags (ps_now P) requester action token revoked = Inr () \<longleftrightarrow>
      (\<exists>chain. guarded_decode (cl_lib E0) iam token = Inr chain \<and>
         documented_ok (cl_lib E0) K on_node (iam_roots iam) tags (ps_now P) (principal_node_id requester) action chain revoked)"
    for iam on_node tags requester action token revoked
    using assms(1) by (auto simp: verify_Inr authorize_law_def assms(4))
  have identity: "load_identity E = Inr i \<longleftrightarrow> identity_at P (ln_data_dir line) = Inr i" for i
    by (auto simp: load_identity_def assms(4) map_err_def split: sum.splits)
  have now: "cl_now E = ps_now P"
    by (simp add: assms(4))
  show ?thesis
  proof (rule conjI)
    show "exit_status r \<in> {None, Some 0, Some 1}"
      using status by (auto split: outcome.splits)
  qed (simp only: zero cmd_verify_Allowed ok identity now ex_simps)
qed

section \<open>The exit status of \<open>secret use\<close>\<close>

text \<open>
  A command that a signal killed has no exit code, and \<open>unwrap_or(0)\<close> makes it a success: nobody can
  tell it from a command that exited with status zero.
\<close>

lemma reveal_env_spawn [simp]: "reveal_env C S V (E\<lparr>se_spawn := f\<rparr>) names = reveal_env C S V E names"
  by (induction names) simp_all

lemma killed_command_succeeds:
  "cmd_secret C S V (E\<lparr>se_spawn := \<lambda>_ _. Inr None\<rparr>) (SecUse rest) st =
   cmd_secret C S V (E\<lparr>se_spawn := \<lambda>_ _. Inr (Some 0)\<rparr>) (SecUse rest) st"
proof -
  have "secret_act C S V (E\<lparr>se_spawn := \<lambda>_ _. Inr None\<rparr>) (SecUse rest) =
      secret_act C S V (E\<lparr>se_spawn := \<lambda>_ _. Inr (Some 0)\<rparr>) (SecUse rest)"
    by (simp add: map_err_def unwrap_or_def act_then_def act_lift_def split: option.split)
  then show ?thesis
    unfolding cmd_secret_def secret_cmd.case by simp
qed

section \<open>Lines given and run\<close>

definition demo_line :: "cli_sub \<Rightarrow> cli_line" where
  "demo_line c = \<lparr>ln_data_dir = Some ''d'', ln_node = ''n'', ln_cmd = c\<rparr>"

definition demo_process :: "string + node_id \<Rightarrow> write_faults \<Rightarrow> (node_id, json) cli_process" where
  "demo_process I F = \<lparr>ps_data_dir = None, ps_mkdir = (\<lambda>_. None), ps_identity = (\<lambda>_. I), ps_now = 5,
     ps_pid = ''1'', ps_read = no_read_faults, ps_write = F, ps_revoked = (\<lambda>_. Inl ''down''),
     ps_revoked_again = (\<lambda>_. Inl ''down''), ps_post = (\<lambda>_. SendError ''down''), ps_api_token = None,
     ps_stdin = Inr ''p'', ps_file = (\<lambda>_. Inl ''missing''), ps_serve = (\<lambda>_ _. (Inl ''down'', []))\<rparr>"

definition demo_put_line :: cli_sub where
  "demo_put_line = DoRole (RolPut \<lparr>rp_name = ''reader'', rp_policy = None, rp_description = None\<rparr>)"

definition demo_ce_iam :: "string + node_id \<Rightarrow> write_faults \<Rightarrow> cli_sub \<Rightarrow> (json, authkv) main_result" where
  "demo_ce_iam I F c = ce_iam demo_granter demo_secrets (\<lambda>_. Inr (role_policy demo_role)) (demo_process I F) (demo_line c)
     (\<lambda>_. None) demo_kv"

definition disk_full :: write_faults where
  "disk_full = no_faults\<lparr>wf_write := IoFails ''full'', wf_cleanup := IoFails ''busy''\<rparr>"

lemma demo_ce_iam_run: "ce_iam demo_granter demo_secrets (\<lambda>_. Inr (role_policy demo_role)) (demo_process I F) (demo_line c)
     (\<lambda>_. None) demo_kv = (fst (demo_ce_iam I F c), fst (snd (demo_ce_iam I F c)), snd (snd (demo_ce_iam I F c)))"
  by (simp add: demo_ce_iam_def)



definition demo_verify_line :: verify_line where
  "demo_verify_line = verify_args.extend demo_role_verify (verify_line.fields False)"

theorem verify_exit_status_witness:
  "\<exists>iam node token requester chain revoked. guarded_decode (cl_lib demo_granter) iam token = Inr chain \<and>
     documented_ok (cl_lib demo_granter) demo_checks node (iam_roots iam) [] 5 requester ''s:r'' chain revoked"
proof -
  have law: "authorize_law (cl_lib demo_granter) demo_checks"
    by (simp add: demo_granter_def demo_authorize_law)
  have cmd: "ln_cmd (demo_line (DoVerify demo_verify_line)) = DoVerify demo_verify_line"
    by (simp add: demo_line_def)
  have v: "verify_args.truncate demo_verify_line = demo_role_verify"
    by (simp add: demo_verify_line_def verify_args.defs verify_line.defs demo_role_verify_def)
  have zero: "exit_status (fst (demo_ce_iam (Inr (demo_node 1)) no_faults (DoVerify demo_verify_line))) = Some 0"
    by code_simp
  have args: "ve_tags demo_role_verify = []" "ve_action demo_role_verify = ''s:r''"
    and now: "ps_now (demo_process I F) = 5" for I F
    by (simp_all add: demo_role_verify_def demo_verify_args_def demo_process_def)
  from verify_exit_status [OF law cmd v [symmetric] refl demo_ce_iam_run] zero show ?thesis
    unfolding args now by blast
qed

end
