(* ===== verification/Resources.thy ===== *)
theory Resources
  imports Demo
begin

text \<open>
  The two text formats a user types and reads: principals, and the resource shorthand that the CLI
  parses and inspection prints. Printing and parsing are inverse to each other.
\<close>

definition clean_text :: "string \<Rightarrow> bool" where
  "clean_text t \<longleftrightarrow> t \<noteq> [] \<and> list_all plain_char t"

definition clean_resource :: "resource \<Rightarrow> bool" where
  "clean_resource r =
     (case r of
        RAny \<Rightarrow> True
      | RNode n \<Rightarrow> node_id_ok n
      | RTag t \<Rightarrow> clean_text t
      | RAllOf ts \<Rightarrow> ts \<noteq> [] \<and> list_all (\<lambda>t. clean_text t \<and> CHR '','' \<notin> set t) ts)"

lemma clean_text_trim: "clean_text t \<Longrightarrow> trim t = t"
  by (intro trim_plain) (auto simp: clean_text_def list_all_iff)

lemma clean_text_append: "clean_text s \<Longrightarrow> list_all plain_char t \<Longrightarrow> clean_text (s @ t)"
  by (simp add: clean_text_def)

lemma split_on_no_sep: "c \<notin> set t \<Longrightarrow> split_on c t = [t]"
  by (induction t) auto

lemma split_on_append: "c \<notin> set t \<Longrightarrow> split_on c (t @ c # s) = t # split_on c s"
  by (induction t) auto

lemma split_on_intercalate:
  "ts \<noteq> [] \<Longrightarrow> \<forall>t \<in> set ts. c \<notin> set t \<Longrightarrow> split_on c (intercalate [c] ts) = ts"
proof (induction "[c]" ts rule: intercalate.induct)
  case (3 x y xs)
  then show ?case by (simp add: split_on_append)
qed (simp_all add: split_on_no_sep)

lemma clean_intercalate:
  "\<forall>t \<in> set ts. list_all plain_char t \<Longrightarrow> list_all plain_char (intercalate '','' ts)"
  by (induction "'',''" ts rule: intercalate.induct) (auto simp: plain_char_def)

lemma clean_prefixes: "clean_text ''tag:''" "clean_text ''all-of:''"
  by (simp_all add: clean_text_def plain_char_def)

lemma lower_any_length: "to_ascii_lower s = ''any'' \<Longrightarrow> length s = 3"
  by (metis to_ascii_lower_def length_map list.size(3,4) add_Suc_right One_nat_def Suc_1 numeral_3_eq_3
      add.right_neutral)

lemma resource_parse_tag:
  "clean_text t \<Longrightarrow> resource_parse H (''tag:'' @ t) = Inr (RMTag t)"
proof -
  assume t: "clean_text t"
  have s: "trim (''tag:'' @ t) = ''tag:'' @ t"
    using t by (intro clean_text_trim clean_text_append clean_prefixes) (simp add: clean_text_def)
  moreover have "''tag:'' @ t \<noteq> ''*''" "to_ascii_lower (''tag:'' @ t) \<noteq> ''any''"
    using lower_any_length [of "''tag:'' @ t"] by auto
  moreover have "strip_prefix (''tag:'' @ t) ''tag:'' = Some t"
    by (simp only: strip_prefix_Some)
  ultimately show ?thesis
    unfolding resource_parse_def Let_def s by (simp add: clean_text_trim [OF t])
qed

lemma resource_parse_all_of:
  assumes ts: "ts \<noteq> []" "list_all (\<lambda>t. clean_text t \<and> CHR '','' \<notin> set t) ts"
  shows "resource_parse H (''all-of:'' @ intercalate '','' ts) = Inr (RMAllOf ts)"
proof -
  let ?s = "''all-of:'' @ intercalate '','' ts"
  have "list_all plain_char (intercalate '','' ts)"
    using ts(2) by (intro clean_intercalate) (auto simp: list_all_iff clean_text_def)
  then have s: "trim ?s = ?s"
    by (intro clean_text_trim clean_text_append clean_prefixes)
  have n: "?s \<noteq> ''*''" "to_ascii_lower ?s \<noteq> ''any''"
    using lower_any_length [of ?s] by auto
  have p: "strip_prefix ?s ''tag:'' = None"
    by (simp add: strip_prefix_def)
  have q: "strip_prefix ?s ''all-of:'' = Some (intercalate '','' ts)"
    by (simp only: strip_prefix_Some)
  have "split_on (CHR '','') (intercalate '','' ts) = ts"
    using ts by (intro split_on_intercalate) (auto simp: list_all_iff)
  moreover have "map trim ts = ts"
    using ts(2) by (intro map_idI) (auto simp: list_all_iff clean_text_trim)
  moreover have "filter (\<lambda>x. x \<noteq> []) ts = ts"
    using ts(2) by (intro filter_True) (auto simp: list_all_iff clean_text_def)
  ultimately show ?thesis
    unfolding resource_parse_def Let_def s using n p q ts(1) by simp
qed

lemma resource_parse_node:
  assumes H: "hex_lib_ok H" and n: "node_id_ok n"
  shows "resource_parse H (hx_encode H n) = Inr (RMNode (hx_encode H n))"
proof -
  let ?s = "hx_encode H n"
  have len: "length ?s = 64"
    using hex_codec.enc_length [OF H] n by (simp add: node_id_ok_def)
  have no: "CHR '':'' \<notin> set ?s"
    by (rule hex_codec.hc_no_char [OF H]) (simp add: lower_hex_char_def)
  have "?s \<noteq> ''*''" "to_ascii_lower ?s \<noteq> ''any''"
    using len lower_any_length [of ?s] by auto
  moreover have "strip_prefix ?s ''tag:'' = None" "strip_prefix ?s ''all-of:'' = None"
    using no by (auto simp: strip_prefix_def prefix_def)
  ultimately show ?thesis
    using n hex_codec.dec_enc [OF H] hex_codec.hc_lower [OF H] hex_codec.hc_trim [OF H]
    by (simp add: resource_parse_def result_simps node_id_ok_def)
qed

text \<open>
  Resources round trip: for every resource whose tags are plain text, the text that
  inspection prints parses back to a match that compiles to that same resource.
\<close>

lemma resource_roundtrip:
  assumes "hex_lib_ok H" "clean_resource r"
  shows "\<exists>rm. resource_parse H (render_resource H r) = Inr rm \<and> to_cap_resource H rm = Inr r"
proof (cases r)
  case RAny
  have "trim ''*'' = ''*''" by (rule clean_text_trim) (simp add: clean_text_def plain_char_def)
  with RAny show ?thesis
    by (simp add: render_resource_def resource_parse_def to_cap_resource_def)
next
  case (RNode n)
  with assms show ?thesis
    using resource_parse_node [OF assms(1), of n] hex_codec.dec_enc [OF assms(1)]
      hex_codec.hc_trim [OF assms(1)]
    by (simp add: render_resource_def to_cap_resource_def result_simps clean_resource_def node_id_ok_def)
next
  case (RTag t)
  with assms show ?thesis
    using resource_parse_tag [of t H]
    by (auto simp: render_resource_def to_cap_resource_def clean_resource_def clean_text_def)
next
  case (RAllOf ts)
  with assms show ?thesis
    using resource_parse_all_of [of ts H]
    by (auto simp: render_resource_def to_cap_resource_def clean_resource_def)
qed

lemma resource_roundtrip_witness:
  "\<exists>rm. resource_parse own_hex (render_resource own_hex (RAllOf [''gpu'', ''eu''])) = Inr rm \<and>
     to_cap_resource own_hex rm = Inr (RAllOf [''gpu'', ''eu''])"
  by (rule resource_roundtrip [OF own_hex_codec]) (simp add: clean_resource_def clean_text_def plain_char_def)

text \<open>
  Principals round trip in both text and JSON: a principal prints as its hex node id,
  which parses back to it, and different principals print differently.
\<close>

lemma principal_roundtrip:
  assumes "hex_lib_ok H" "principal_ok p"
  shows "principal_parse H (principal_display H p) = Inr p \<and>
    principal_deserialize H (principal_serialize H p) = Some p \<and>
    (\<forall>q. principal_display H q = principal_display H p \<longrightarrow> q = p)"
  using parse_principal_hex [OF assms] principal_hex_inj [OF assms(1)]
  by (simp add: principal_display_def principal_serialize_def principal_deserialize_def ok_def)

lemma principal_roundtrip_witness:
  "principal_parse own_hex (principal_display own_hex (Principal (demo_node 5))) = Inr (Principal (demo_node 5))"
  using principal_roundtrip [OF own_hex_codec, of "Principal (demo_node 5)"]
  by (simp add: demo_node_def node_id_ok_def)

end
