(* ===== verification/Serde.thy ===== *)
theory Serde
  imports CatalogStore
begin

text \<open>
  What \<open>#[derive(Serialize, Deserialize)]\<close> makes of the data of this repository, on JSON values whose
  objects list their members in the order of the text. Only the text of a value is a parameter:
  \<open>serde_json\<close> prints it and parses it back. A codec is a pair of functions between a type and JSON; the
  interface \<open>json_codec\<close> says that decoding undoes encoding on the values the Rust type has, and that what
  is encoded is within the limits of the parser.
\<close>

section \<open>Text\<close>

record text_lib =
  tx_print :: "json \<Rightarrow> string"
  tx_parse :: "string \<Rightarrow> string + json"

text \<open>
  \<open>serde_json\<close> reads integers from \<open>i64::MIN\<close> to \<open>u64::MAX\<close> as such, and refuses a text that nests deeper
  than 127 arrays and objects. The data of the files has no floating-point numbers.
\<close>

fun json_fits :: "nat \<Rightarrow> json \<Rightarrow> bool" where
  "json_fits n (JInt i) \<longleftrightarrow> - (2 ^ 63) \<le> i \<and> i < 2 ^ 64"
| "json_fits _ (JReal s) \<longleftrightarrow> False"
| "json_fits 0 (JArr xs) \<longleftrightarrow> False"
| "json_fits (Suc n) (JArr xs) \<longleftrightarrow> (\<forall>x \<in> set xs. json_fits n x)"
| "json_fits 0 (JObj kvs) \<longleftrightarrow> False"
| "json_fits (Suc n) (JObj kvs) \<longleftrightarrow> (\<forall>x \<in> set (map snd kvs). json_fits n x)"
| "json_fits n _ \<longleftrightarrow> True"

definition json_text_law :: "text_lib \<Rightarrow> bool" where
  "json_text_law T \<longleftrightarrow> (\<forall>j. json_fits 127 j \<longrightarrow> tx_parse T (tx_print T j) = Inr j) \<and> (\<forall>j. trim (tx_print T j) \<noteq> [])"

lemma json_fits_mono: "json_fits m j \<Longrightarrow> m \<le> n \<Longrightarrow> json_fits n j"
proof (induction m j arbitrary: n rule: json_fits.induct)
  case (4 m xs)
  then show ?case by (cases n) auto
next
  case (6 m kvs)
  then show ?case by (cases n) auto
qed simp_all

lemma text_print_inj:
  "json_text_law T \<Longrightarrow> json_fits 127 i \<Longrightarrow> json_fits 127 j \<Longrightarrow> tx_print T i = tx_print T j \<longleftrightarrow> i = j"
  unfolding json_text_law_def by (metis sum.inject(2))

section \<open>Codecs\<close>

locale json_codec =
  fixes enc :: "'a \<Rightarrow> json"
    and dec :: "json \<Rightarrow> string + 'a"
    and good :: "'a \<Rightarrow> bool"
    and depth :: nat
  assumes dec_enc: "good a \<Longrightarrow> dec (enc a) = Inr a"
    and enc_fits: "good a \<Longrightarrow> json_fits depth (enc a)"
begin

lemma enc_inj: "good a \<Longrightarrow> good b \<Longrightarrow> enc a = enc b \<longleftrightarrow> a = b"
  by (metis dec_enc sum.inject(2))

lemma fits: "good a \<Longrightarrow> depth \<le> n \<Longrightarrow> json_fits n (enc a)"
  using enc_fits json_fits_mono by blast

lemma dec_all: "\<forall>a \<in> set as. good a \<Longrightarrow> collect_results dec (map enc as) = Inr as"
  by (induction as) (simp_all add: dec_enc and_then_def)

end

text \<open>\<open>Vec\<close>, \<open>BTreeMap\<close> with string keys, \<open>Option\<close>.\<close>

definition enc_list :: "('a \<Rightarrow> json) \<Rightarrow> 'a list \<Rightarrow> json" where
  "enc_list enc xs = JArr (map enc xs)"

definition dec_list :: "(json \<Rightarrow> string + 'a) \<Rightarrow> json \<Rightarrow> string + 'a list" where
  "dec_list dec j = (case j of JArr xs \<Rightarrow> collect_results dec xs | _ \<Rightarrow> Inl ''invalid type, expected a sequence'')"

definition enc_map :: "('a \<Rightarrow> json) \<Rightarrow> (string, 'a) btree \<Rightarrow> json" where
  "enc_map enc m = JObj (map (\<lambda>(k, v). (k, enc v)) m)"

definition dec_map :: "(json \<Rightarrow> string + 'a) \<Rightarrow> json \<Rightarrow> string + (string, 'a) btree" where
  "dec_map dec j =
     (case j of
        JObj kvs \<Rightarrow> and_then (collect_results (\<lambda>(k, j). and_then (dec j) (\<lambda>v. Inr (k, v))) kvs) (\<lambda>kvs.
          Inr (fold (\<lambda>(k, v) m. bt_insert k v m) kvs []))
      | _ \<Rightarrow> Inl ''invalid type, expected a map'')"

definition map_good :: "('a \<Rightarrow> bool) \<Rightarrow> (string, 'a) btree \<Rightarrow> bool" where
  "map_good good m \<longleftrightarrow> bt_ok m \<and> (\<forall>v \<in> set (map snd m). good v)"

definition dec_option :: "(json \<Rightarrow> string + 'a) \<Rightarrow> json \<Rightarrow> string + 'a option" where
  "dec_option dec j = (if j = JNull then Inr None else and_then (dec j) (\<lambda>a. Inr (Some a)))"

lemma dec_option_None [simp]: "dec_option dec JNull = Inr None"
  by (simp add: dec_option_def)

lemma list_codec:
  assumes "json_codec enc dec good d"
  shows "json_codec (enc_list enc) (dec_list dec) (\<lambda>xs. \<forall>x \<in> set xs. good x) (Suc d)"
  using assms json_codec.dec_all [OF assms] json_codec.enc_fits [OF assms]
  by unfold_locales (auto simp: enc_list_def dec_list_def)

lemma map_codec:
  assumes "json_codec enc dec good d"
  shows "json_codec (enc_map enc) (dec_map dec) (map_good good) (Suc d)"
proof
  fix m :: "(string, 'a) btree"
  assume m: "map_good good m"
  have "collect_results (\<lambda>(k, j). and_then (dec j) (\<lambda>v. Inr (k, v))) (map (\<lambda>(k, v). (k, enc v)) m) = Inr m"
    if "\<forall>v \<in> set (map snd m). good v" for m :: "(string, 'a) btree"
    using that by (induction m) (auto simp: json_codec.dec_enc [OF assms] and_then_def)
  with m show "dec_map dec (enc_map enc m) = Inr m"
    by (simp add: dec_map_def enc_map_def map_good_def bt_fold_insert_self and_then_def)
  show "json_fits (Suc d) (enc_map enc m)"
    using m json_codec.enc_fits [OF assms] by (auto simp: enc_map_def map_good_def)
qed

section \<open>Numbers and strings\<close>

definition enc_word :: "'w :: len word \<Rightarrow> json" where
  "enc_word w = JInt (uint w)"

definition dec_word :: "json \<Rightarrow> string + 'w :: len word" where
  "dec_word j =
     (case j of
        JInt i \<Rightarrow> if 0 \<le> i \<and> i < 2 ^ LENGTH('w) then Inr (word_of_int i) else Inl ''invalid value''
      | _ \<Rightarrow> Inl ''invalid type, expected an integer'')"

definition dec_str :: "json \<Rightarrow> string + string" where
  "dec_str j = (case j of JStr s \<Rightarrow> Inr s | _ \<Rightarrow> Inl ''invalid type, expected a string'')"

interpretation str: json_codec JStr dec_str "\<lambda>_. True" 0
  by unfold_locales (simp_all add: dec_str_def)

lemma word_codec:
  assumes "LENGTH('w) \<le> 64"
  shows "json_codec (enc_word :: 'w :: len word \<Rightarrow> json) dec_word (\<lambda>_. True) 0"
proof
  fix w :: "'w word"
  have "uint w < 2 ^ LENGTH('w)" by simp
  moreover have "(2 :: int) ^ LENGTH('w) \<le> 2 ^ 64"
    using assms by (rule power_increasing) simp
  ultimately have "uint w < 2 ^ 64" by linarith
  moreover have "0 \<le> uint w" by simp
  ultimately show "json_fits 0 (enc_word w)"
    unfolding enc_word_def json_fits.simps by (simp add: order_trans [of _ 0])
  show "dec_word (enc_word w) = Inr w"
    by (simp add: enc_word_def dec_word_def)
qed

interpretation u64: json_codec "enc_word :: u64 \<Rightarrow> json" dec_word "\<lambda>_. True" 0
  by (rule word_codec) simp

interpretation u32: json_codec "enc_word :: u32 \<Rightarrow> json" dec_word "\<lambda>_. True" 0
  by (rule word_codec) simp

interpretation u16: json_codec "enc_word :: u16 \<Rightarrow> json" dec_word "\<lambda>_. True" 0
  by (rule word_codec) simp

interpretation u8: json_codec "enc_word :: byte \<Rightarrow> json" dec_word "\<lambda>_. True" 0
  by (rule word_codec) simp

interpretation strs: json_codec "enc_list JStr" "dec_list dec_str" "\<lambda>_. True" "Suc 0"
  using list_codec [OF str.json_codec_axioms] by simp

interpretation ports: json_codec "enc_list (enc_word :: u16 \<Rightarrow> json)" "dec_list dec_word" "\<lambda>_. True" "Suc 0"
  using list_codec [OF u16.json_codec_axioms] by simp

section \<open>Structs\<close>

text \<open>
  A struct is read from an object, whose unknown members are ignored and whose known members may occur
  once, or from an array with the fields in order. A field with a default may be absent, and
  \<open>skip_serializing_if\<close> leaves it out of the object.
\<close>

definition struct_fields :: "string list \<Rightarrow> json \<Rightarrow> string + (string \<Rightarrow> json option)" where
  "struct_fields names j =
     (case j of
        JObj kvs \<Rightarrow> if distinct (filter (\<lambda>k. k \<in> set names) (map fst kvs)) then Inr (map_of kvs)
          else Inl ''duplicate field''
      | JArr xs \<Rightarrow> if length xs \<le> length names then Inr (map_of (zip names xs)) else Inl ''trailing characters''
      | _ \<Rightarrow> Inl ''invalid type, expected a struct'')"

definition field :: "(string \<Rightarrow> json option) \<Rightarrow> string \<Rightarrow> (json \<Rightarrow> string + 'a) \<Rightarrow> string + 'a" where
  "field f name dec = (case f name of None \<Rightarrow> Inl (''missing field '' @ name) | Some j \<Rightarrow> dec j)"

definition field_or :: "(string \<Rightarrow> json option) \<Rightarrow> string \<Rightarrow> (json \<Rightarrow> string + 'a) \<Rightarrow> 'a \<Rightarrow> string + 'a" where
  "field_or f name dec d = (case f name of None \<Rightarrow> Inr d | Some j \<Rightarrow> dec j)"

fun struct_members :: "(string \<times> json option) list \<Rightarrow> (string \<times> json) list" where
  "struct_members [] = []"
| "struct_members ((k, None) # ms) = struct_members ms"
| "struct_members ((k, Some j) # ms) = (k, j) # struct_members ms"

definition struct_obj :: "(string \<times> json option) list \<Rightarrow> json" where
  "struct_obj ms = JObj (struct_members ms)"

lemma struct_members_keys: "set (map fst (struct_members ms)) \<subseteq> set (map fst ms)"
  by (induction ms rule: struct_members.induct) auto

lemma struct_members_lookup:
  "distinct (map fst ms) \<Longrightarrow> map_of (struct_members ms) k = Option.bind (map_of ms k) (\<lambda>m. m)"
proof (induction ms rule: struct_members.induct)
  case (2 k' ms)
  then have "map_of ms k' = None" by (simp add: map_of_eq_None_iff)
  with 2 show ?case by simp
qed auto

lemma struct_members_distinct: "distinct (map fst ms) \<Longrightarrow> distinct (map fst (struct_members ms))"
proof (induction ms rule: struct_members.induct)
  case (3 k j ms)
  then show ?case using struct_members_keys [of ms] by auto
qed simp_all

lemma struct_fields_obj:
  "distinct (map fst ms) \<Longrightarrow>
   struct_fields names (struct_obj ms) = Inr (\<lambda>k. Option.bind (map_of ms k) (\<lambda>m. m))"
  by (simp add: struct_fields_def struct_obj_def struct_members_lookup [THEN ext] struct_members_distinct
      distinct_filter)

lemma struct_obj_member:
  "distinct (map fst ms) \<Longrightarrow> (k, Some m) \<in> set ms \<Longrightarrow> Option.bind (map_of ms k) (\<lambda>m. m) = Some m"
  by (simp only: map_of_is_SomeI bind.bind_lunit)

lemma struct_obj_fits: "json_fits (Suc n) (struct_obj ms) \<longleftrightarrow> (\<forall>m \<in> set (map snd ms). pred_option (json_fits n) m)"
  unfolding struct_obj_def by (induction ms rule: struct_members.induct) simp_all

lemma field_option:
  "(\<And>a. m = Some a \<Longrightarrow> dec (enc a) = Inr a \<and> enc a \<noteq> JNull) \<Longrightarrow>
   f name = map_option enc m \<Longrightarrow> field_or f name (dec_option dec) None = Inr m"
  by (cases m) (simp_all add: field_or_def dec_option_def and_then_def)

lemma field_simps:
  "f name = Some j \<Longrightarrow> field f name dec = dec j"
  "f name = Some j \<Longrightarrow> field_or f name dec d = dec j"
  "f name = None \<Longrightarrow> field_or f name dec d = Inr d"
  by (simp_all add: field_def field_or_def)

section \<open>Enums\<close>

text \<open>Externally tagged: a string for a variant without fields, else an object with the variant as its one key.\<close>

definition enum_variant :: "json \<Rightarrow> string + string \<times> json option" where
  "enum_variant j =
     (case j of
        JStr s \<Rightarrow> Inr (s, None)
      | JObj [(k, v)] \<Rightarrow> Inr (k, Some v)
      | _ \<Rightarrow> Inl ''invalid type, expected an enum'')"

definition unit_variant :: "json option \<Rightarrow> 'a \<Rightarrow> string + 'a" where
  "unit_variant content a = (if content \<in> {None, Some JNull} then Inr a else Inl ''invalid type, expected unit'')"

definition with_content :: "json option \<Rightarrow> (json \<Rightarrow> string + 'a) \<Rightarrow> string + 'a" where
  "with_content content dec = (case content of None \<Rightarrow> Inl ''invalid type, unit variant'' | Some j \<Rightarrow> dec j)"

lemma enum_simps [simp]:
  "enum_variant (JStr s) = Inr (s, None)" "enum_variant (JObj [(k, v)]) = Inr (k, Some v)"
  "unit_variant None a = Inr a" "with_content (Some j) dec = dec j"
  by (simp_all add: enum_variant_def unit_variant_def with_content_def)

text \<open>A format of a file: what a store prints and parses, for the values its Rust type has.\<close>

definition serde_format :: "text_lib \<Rightarrow> ('a \<Rightarrow> json) \<Rightarrow> (json \<Rightarrow> string + 'a) \<Rightarrow> ('a \<Rightarrow> bool) \<Rightarrow> 'a json_format" where
  "serde_format T enc dec good =
     \<lparr>jf_print = (\<lambda>v. if good v then Inr (tx_print T (enc v)) else Inl ''no value of the Rust type''),
      jf_parse = (\<lambda>s. and_then (tx_parse T s) dec)\<rparr>"

lemma serde_format_law:
  assumes "json_text_law T" "json_codec enc dec good d" "d \<le> 127"
  shows "json_law (serde_format T enc dec good)"
  using assms(1) json_codec.dec_enc [OF assms(2)] json_codec.fits [OF assms(2) _ assms(3)]
  by (auto simp: json_law_def serde_format_def json_text_law_def and_then_def)

lemma serde_format_prints: "json_text_law T \<Longrightarrow> jf_print (serde_format T enc dec good) v = Inr s \<Longrightarrow> trim s \<noteq> []"
  by (auto simp: serde_format_def json_text_law_def split: if_splits)

end
