(* ===== verification/Documents.thy ===== *)
theory Documents
  imports Serde
begin

text \<open>
  The JSON of policy documents and roles (\<open>policy.rs\<close>), as the serde attributes of their types derive it,
  and the text that keys a scope (\<open>catalog.rs\<close>, \<open>grant.rs\<close>).
\<close>

section \<open>Encoders\<close>

definition effect_to_json :: "effect \<Rightarrow> json" where
  "effect_to_json e = JStr (case e of Allow \<Rightarrow> ''Allow'' | Deny \<Rightarrow> ''Deny'')"

definition resource_to_json :: "resource_match \<Rightarrow> json" where
  "resource_to_json r =
     (case r of
        RMAny \<Rightarrow> JStr ''any''
      | RMNode h \<Rightarrow> JObj [(''node'', JStr h)]
      | RMTag t \<Rightarrow> JObj [(''tag'', JStr t)]
      | RMAllOf ts \<Rightarrow> JObj [(''all_of'', enc_list JStr ts)])"

definition conditions_to_json :: "conditions \<Rightarrow> json" where
  "conditions_to_json c = struct_obj
     [(''not_before'', map_option enc_word (cd_not_before c)),
      (''not_after'', map_option enc_word (cd_not_after c)),
      (''max_cpu'', map_option enc_word (cd_max_cpu c)),
      (''max_mem_mb'', map_option enc_word (cd_max_mem_mb c)),
      (''max_credits'', map_option enc_word (cd_max_credits c)),
      (''allowed_ports'', map_option (enc_list enc_word) (cd_allowed_ports c)),
      (''path_prefix'', map_option JStr (cd_path_prefix c))]"

definition statement_to_json :: "statement \<Rightarrow> json" where
  "statement_to_json s = struct_obj
     [(''sid'', map_option JStr (st_sid s)),
      (''effect'', Some (effect_to_json (st_effect s))),
      (''actions'', Some (enc_list JStr (st_actions s))),
      (''resource'', Some (resource_to_json (st_resource s))),
      (''conditions'', if conditions_is_empty (st_conditions s) then None
                       else Some (conditions_to_json (st_conditions s)))]"

definition policy_json :: "policy \<Rightarrow> json" where
  "policy_json p = struct_obj
     [(''version'', Some (JStr (pol_version p))),
      (''statements'', Some (enc_list statement_to_json (pol_statements p)))]"

definition role_json :: "role \<Rightarrow> json" where
  "role_json r = struct_obj
     [(''name'', Some (JStr (role_name r))),
      (''description'', map_option JStr (role_description r)),
      (''policy'', Some (policy_json (role_policy r)))]"

section \<open>Decoders\<close>

definition effect_of_json :: "json \<Rightarrow> string + effect" where
  "effect_of_json j = and_then (enum_variant j) (\<lambda>(v, c).
     if v = ''Allow'' then unit_variant c Allow
     else if v = ''Deny'' then unit_variant c Deny
     else Inl ''unknown variant'')"

definition resource_of_json :: "json \<Rightarrow> string + resource_match" where
  "resource_of_json j = and_then (enum_variant j) (\<lambda>(v, c).
     if v = ''any'' then unit_variant c RMAny
     else if v = ''node'' then and_then (with_content c dec_str) (\<lambda>h. Inr (RMNode h))
     else if v = ''tag'' then and_then (with_content c dec_str) (\<lambda>t. Inr (RMTag t))
     else if v = ''all_of'' then and_then (with_content c (dec_list dec_str)) (\<lambda>ts. Inr (RMAllOf ts))
     else Inl ''unknown variant'')"

definition conditions_of_json :: "json \<Rightarrow> string + conditions" where
  "conditions_of_json j =
     and_then (struct_fields [''not_before'', ''not_after'', ''max_cpu'', ''max_mem_mb'', ''max_credits'',
       ''allowed_ports'', ''path_prefix''] j) (\<lambda>f.
     and_then (field_or f ''not_before'' (dec_option dec_word) None) (\<lambda>nb.
     and_then (field_or f ''not_after'' (dec_option dec_word) None) (\<lambda>na.
     and_then (field_or f ''max_cpu'' (dec_option dec_word) None) (\<lambda>cpu.
     and_then (field_or f ''max_mem_mb'' (dec_option dec_word) None) (\<lambda>mem.
     and_then (field_or f ''max_credits'' (dec_option dec_word) None) (\<lambda>cr.
     and_then (field_or f ''allowed_ports'' (dec_option (dec_list dec_word)) None) (\<lambda>ports.
     and_then (field_or f ''path_prefix'' (dec_option dec_str) None) (\<lambda>path.
     Inr \<lparr>cd_not_before = nb, cd_not_after = na, cd_max_cpu = cpu, cd_max_mem_mb = mem,
       cd_max_credits = cr, cd_allowed_ports = ports, cd_path_prefix = path\<rparr>))))))))"

definition statement_of_json :: "json \<Rightarrow> string + statement" where
  "statement_of_json j =
     and_then (struct_fields [''sid'', ''effect'', ''actions'', ''resource'', ''conditions''] j) (\<lambda>f.
     and_then (field_or f ''sid'' (dec_option dec_str) None) (\<lambda>sid.
     and_then (field_or f ''effect'' effect_of_json Allow) (\<lambda>effect.
     and_then (field f ''actions'' (dec_list dec_str)) (\<lambda>actions.
     and_then (field f ''resource'' resource_of_json) (\<lambda>resource.
     and_then (field_or f ''conditions'' conditions_of_json default_conditions) (\<lambda>conditions.
     Inr \<lparr>st_sid = sid, st_effect = effect, st_actions = actions, st_resource = resource,
       st_conditions = conditions\<rparr>))))))"

definition policy_of_json :: "json \<Rightarrow> string + policy" where
  "policy_of_json j =
     and_then (struct_fields [''version'', ''statements''] j) (\<lambda>f.
     and_then (field_or f ''version'' dec_str version_tag) (\<lambda>version.
     and_then (field f ''statements'' (dec_list statement_of_json)) (\<lambda>statements.
     Inr \<lparr>pol_version = version, pol_statements = statements\<rparr>)))"

definition role_of_json :: "json \<Rightarrow> string + role" where
  "role_of_json j =
     and_then (struct_fields [''name'', ''description'', ''policy''] j) (\<lambda>f.
     and_then (field f ''name'' dec_str) (\<lambda>name.
     and_then (field_or f ''description'' (dec_option dec_str) None) (\<lambda>description.
     and_then (field f ''policy'' policy_of_json) (\<lambda>policy.
     Inr \<lparr>role_name = name, role_description = description, role_policy = policy\<rparr>))))"

section \<open>Each decoder undoes its encoder\<close>

lemmas codec_simps = struct_fields_obj field_simps result_simps

lemma enc_not_null [simp]: "enc_word w \<noteq> JNull" "enc_list e xs \<noteq> JNull" "struct_obj ms \<noteq> JNull"
  by (simp_all add: enc_word_def enc_list_def struct_obj_def)

lemma fits_Suc [simp]: "json_fits n (enc_word (w :: u64))" "json_fits n (enc_word (v :: u32))"
  "json_fits n (JStr s)" "json_fits (Suc n) (enc_list JStr ts)" "json_fits (Suc n) (enc_list enc_word (ps :: u16 list))"
  by (simp_all add: u64.fits u32.fits strs.fits ports.fits)

interpretation effect: json_codec effect_to_json effect_of_json "\<lambda>_. True" 0
proof
  fix e show "effect_of_json (effect_to_json e) = Inr e"
    by (cases e) (simp_all add: effect_of_json_def effect_to_json_def result_simps)
qed (simp add: effect_to_json_def)

interpretation rmatch: json_codec resource_to_json resource_of_json "\<lambda>_. True" 2
proof
  fix r show "resource_of_json (resource_to_json r) = Inr r"
    by (cases r) (simp_all add: resource_of_json_def resource_to_json_def result_simps str.dec_enc strs.dec_enc)
  show "json_fits 2 (resource_to_json r)"
    by (cases r) (simp_all add: resource_to_json_def numeral_2_eq_2)
qed

interpretation conds: json_codec conditions_to_json conditions_of_json "\<lambda>_. True" 2
proof
  fix c
  show "conditions_of_json (conditions_to_json c) = Inr c"
    unfolding conditions_of_json_def conditions_to_json_def
    by (subst struct_fields_obj)
      (simp_all add: field_option [where enc = enc_word] field_option [where enc = "enc_list enc_word"] field_option [where enc = JStr]
        u64.dec_enc u32.dec_enc ports.dec_enc str.dec_enc result_simps)
  show "json_fits 2 (conditions_to_json c)"
    by (simp add: conditions_to_json_def numeral_2_eq_2 struct_obj_fits option.pred_map o_def option.pred_True)
qed

interpretation stmt: json_codec statement_to_json statement_of_json "\<lambda>_. True" 3
proof
  fix s
  show "statement_of_json (statement_to_json s) = Inr s"
    unfolding statement_of_json_def statement_to_json_def
    by (subst struct_fields_obj)
      (simp_all add: field_option [where enc = JStr] field_simps conditions_is_empty_def
        effect.dec_enc rmatch.dec_enc conds.dec_enc strs.dec_enc str.dec_enc result_simps)
  show "json_fits 3 (statement_to_json s)"
    using effect.fits [of 2 "st_effect s"] rmatch.fits [of 2 "st_resource s"] conds.fits [of 2 "st_conditions s"]
    by (simp add: statement_to_json_def numeral_2_eq_2 numeral_3_eq_3 struct_obj_fits option.pred_map o_def
        option.pred_True)
qed

interpretation stmts: json_codec "enc_list statement_to_json" "dec_list statement_of_json" "\<lambda>_. True" 4
  using list_codec [OF stmt.json_codec_axioms] by simp

interpretation pol: json_codec policy_json policy_of_json "\<lambda>_. True" 5
proof
  fix p
  show "policy_of_json (policy_json p) = Inr p"
    unfolding policy_of_json_def policy_json_def
    by (subst struct_fields_obj) (simp_all add: field_simps stmts.dec_enc str.dec_enc result_simps)
  show "json_fits 5 (policy_json p)"
    by (simp add: policy_json_def struct_obj_fits [of 4, simplified] stmts.fits)
qed

interpretation rol: json_codec role_json role_of_json "\<lambda>_. True" 6
proof
  fix r
  show "role_of_json (role_json r) = Inr r"
    unfolding role_of_json_def role_json_def
    by (subst struct_fields_obj)
      (simp_all add: field_option [where enc = JStr] field_simps pol.dec_enc str.dec_enc result_simps)
  show "json_fits 6 (role_json r)"
    by (simp add: role_json_def struct_obj_fits [of 5, simplified] pol.fits option.pred_map o_def option.pred_True)
qed

section \<open>The text of a document\<close>

definition policy_parse :: "text_lib \<Rightarrow> string \<Rightarrow> string + policy" where
  "policy_parse T s = and_then (tx_parse T s) policy_of_json"

definition policy_print :: "text_lib \<Rightarrow> policy \<Rightarrow> string option" where
  "policy_print T p = Some (tx_print T (policy_json p))"

definition role_parse :: "text_lib \<Rightarrow> string \<Rightarrow> string + role" where
  "role_parse T s = and_then (tx_parse T s) role_of_json"

definition role_print :: "text_lib \<Rightarrow> role \<Rightarrow> string option" where
  "role_print T r = Some (tx_print T (role_json r))"

lemma policy_text: "json_text_law T \<Longrightarrow> policy_parse T (policy_to_json (policy_print T) p) = Inr p"
  by (simp add: policy_parse_def policy_to_json_def policy_print_def unwrap_or_def json_text_law_def pol.fits
      pol.dec_enc result_simps)

lemma role_text: "json_text_law T \<Longrightarrow> role_parse T (role_to_json (role_print T) r) = Inr r"
  by (simp add: role_parse_def role_to_json_def role_print_def unwrap_or_def json_text_law_def rol.fits
      rol.dec_enc result_simps)

text \<open>\<open>scope_key\<close>: the pair of a resource and its conditions, printed.\<close>

definition scope_key :: "text_lib \<Rightarrow> scope_key_fn" where
  "scope_key T r c = Inr (tx_print T (JArr [resource_to_json r, conditions_to_json c]))"

lemma scope_key_law_of_text:
  assumes "json_text_law T"
  shows "scope_key_law (scope_key T)"
proof -
  have "json_fits 127 (JArr [resource_to_json r, conditions_to_json c])" for r c
    using rmatch.fits [of 126 r] conds.fits [of 126 c] json_fits.simps(4) [of 126] by simp
  then show ?thesis
    unfolding scope_key_law_def scope_key_def
    by (auto simp: text_print_inj [OF assms] rmatch.enc_inj conds.enc_inj)
qed

lemma document_texts:
  assumes "json_text_law T"
  shows "policy_from_json (policy_parse T) (policy_to_json (policy_print T) p) =
      (if pol_version p \<noteq> version_tag then Inl (BadPolicy (BadVersion (pol_version p)))
       else if pol_statements p = [] then Inl (BadPolicy NoStatements) else Inr p)"
    and "role_from_json (role_parse T) (role_to_json (role_print T) r) =
      (if trim (role_name r) = [] then Inl (BadPolicy EmptyRoleName) else Inr r)"
  by (simp_all add: policy_from_json_def role_from_json_def policy_text role_text assms result_simps)

text \<open>A statement written by hand needs its actions and its resource only.\<close>

lemma statement_defaults:
  "statement_of_json (JObj [(''actions'', enc_list JStr as), (''resource'', resource_to_json r)]) =
     Inr \<lparr>st_sid = None, st_effect = Allow, st_actions = as, st_resource = r, st_conditions = default_conditions\<rparr>"
  by (simp add: statement_of_json_def struct_fields_def field_def field_or_def strs.dec_enc rmatch.dec_enc
      result_simps)

end
