(* ===== verification/JsonText.thy ===== *)
theory JsonText
  imports Serde Bridge
begin

text \<open>
  An instance of \<open>text_lib\<close>: JSON without white space, whose strings escape the quote and the backslash
  only, printed and parsed by structural recursion. It shows that \<open>json_text_law\<close> can hold, and the examples
  of the file formats run on it.
\<close>

section \<open>Printing\<close>

definition quoted :: "string \<Rightarrow> string" where
  "quoted s = CHR 0x22 # concat (map (\<lambda>c. if c = CHR 0x22 \<or> c = CHR 0x5C then [CHR 0x5C, c] else [c]) s) @ [CHR 0x22]"

definition int_text :: "int \<Rightarrow> string" where
  "int_text i = (if i < 0 then CHR ''-'' # decimal_digits (nat (- i)) else decimal_digits (nat i))"

fun json_text :: "json \<Rightarrow> string"
  and items_text :: "json list \<Rightarrow> string"
  and members_text :: "(string \<times> json) list \<Rightarrow> string" where
  "json_text JNull = ''null''"
| "json_text (JBool b) = (if b then ''true'' else ''false'')"
| "json_text (JInt i) = int_text i"
| "json_text (JReal s) = ''0''"
| "json_text (JStr s) = quoted s"
| "json_text (JArr xs) = (if xs = [] then ''[]'' else CHR ''['' # items_text xs)"
| "json_text (JObj kvs) = (if kvs = [] then ''{}'' else CHR ''{'' # members_text kvs)"
| "items_text [] = '']''"
| "items_text [x] = json_text x @ '']''"
| "items_text (x # y # xs) = json_text x @ CHR '','' # items_text (y # xs)"
| "members_text [] = ''}''"
| "members_text [(k, v)] = quoted k @ CHR '':'' # json_text v @ ''}''"
| "members_text ((k, v) # e # kvs) = quoted k @ CHR '':'' # json_text v @ CHR '','' # members_text (e # kvs)"

section \<open>Parsing\<close>

fun parse_string :: "string \<Rightarrow> (string \<times> string) option" where
  "parse_string [] = None"
| "parse_string (c # s) =
     (if c = CHR 0x22 then Some ([], s)
      else if c = CHR 0x5C then (case s of [] \<Rightarrow> None | d # s \<Rightarrow> map_option (\<lambda>(a, r). (d # a, r)) (parse_string s))
      else map_option (\<lambda>(a, r). (c # a, r)) (parse_string s))"

definition is_digit :: "char \<Rightarrow> bool" where
  "is_digit c \<longleftrightarrow> (48 :: nat) \<le> of_char c \<and> of_char c \<le> (57 :: nat)"

definition parse_nat :: "string \<Rightarrow> (nat \<times> string) option" where
  "parse_nat s =
     (let d = takeWhile is_digit s in
      if d = [] then None else map_option (\<lambda>n. (n, dropWhile is_digit s)) (decimal_value 0 d))"

text \<open>The fuel is the length of the text: every call of a value consumes a character.\<close>

fun parse_json :: "nat \<Rightarrow> string \<Rightarrow> (json \<times> string) option"
  and parse_items :: "nat \<Rightarrow> string \<Rightarrow> (json list \<times> string) option"
  and parse_members :: "nat \<Rightarrow> string \<Rightarrow> ((string \<times> json) list \<times> string) option" where
  "parse_json 0 s = None"
| "parse_json (Suc n) s =
     (if prefix ''null'' s then Some (JNull, drop 4 s)
      else if prefix ''true'' s then Some (JBool True, drop 4 s)
      else if prefix ''false'' s then Some (JBool False, drop 5 s)
      else if prefix ''[]'' s then Some (JArr [], drop 2 s)
      else if prefix ''{}'' s then Some (JObj [], drop 2 s)
      else case s of
        [] \<Rightarrow> None
      | c # t \<Rightarrow>
          if c = CHR 0x22 then map_option (\<lambda>(a, r). (JStr a, r)) (parse_string t)
          else if c = CHR ''['' then map_option (\<lambda>(xs, r). (JArr xs, r)) (parse_items n t)
          else if c = CHR ''{'' then map_option (\<lambda>(kvs, r). (JObj kvs, r)) (parse_members n t)
          else if c = CHR ''-'' then map_option (\<lambda>(i, r). (JInt (- int i), r)) (parse_nat t)
          else map_option (\<lambda>(i, r). (JInt (int i), r)) (parse_nat s))"
| "parse_items 0 s = None"
| "parse_items (Suc n) s = Option.bind (parse_json n s) (\<lambda>(x, r).
     case r of
       [] \<Rightarrow> None
     | c # r \<Rightarrow>
         if c = CHR '']'' then Some ([x], r)
         else if c = CHR '','' then map_option (\<lambda>(xs, r). (x # xs, r)) (parse_items n r)
         else None)"
| "parse_members 0 s = None"
| "parse_members (Suc n) s =
     (case s of
        [] \<Rightarrow> None
      | q # s \<Rightarrow>
          if q \<noteq> CHR 0x22 then None
          else Option.bind (parse_string s) (\<lambda>(k, r).
            case r of
              [] \<Rightarrow> None
            | c # r \<Rightarrow>
                if c \<noteq> CHR '':'' then None
                else Option.bind (parse_json n r) (\<lambda>(v, r).
                  case r of
                    [] \<Rightarrow> None
                  | c # r \<Rightarrow>
                      if c = CHR ''}'' then Some ([(k, v)], r)
                      else if c = CHR '','' then map_option (\<lambda>(kvs, r). ((k, v) # kvs, r)) (parse_members n r)
                      else None)))"

definition own_text :: text_lib where
  "own_text = \<lparr>tx_print = json_text,
     tx_parse = (\<lambda>s. case parse_json (length s) s of Some (j, []) \<Rightarrow> Inr j | _ \<Rightarrow> Inl ''expected value'')\<rparr>"

section \<open>Parsing undoes printing\<close>

lemma parse_string_quoted:
  "parse_string (concat (map (\<lambda>c. if c = CHR 0x22 \<or> c = CHR 0x5C then [CHR 0x5C, c] else [c]) s) @ CHR 0x22 # r) =
   Some (s, r)"
  by (induction s) auto

lemma digits_of_nat: "decimal_digits n \<noteq> []" "c \<in> set (decimal_digits n) \<Longrightarrow> is_digit c"
proof -
  show "decimal_digits n \<noteq> []" by (subst decimal_digits.simps) simp
  show "c \<in> set (decimal_digits n) \<Longrightarrow> is_digit c"
  proof (induction n rule: decimal_digits.induct)
    case (1 n)
    have digit: "is_digit (char_of (48 + m))" if "m < 10" for m :: nat
      using that by (simp add: is_digit_def)
    show ?case
    proof (cases "n < 10")
      case True
      with 1 digit show ?thesis by (simp add: decimal_digits.simps [of n])
    next
      case False
      then have "c \<in> set (decimal_digits (n div 10)) \<or> c = char_of (48 + n mod 10)"
        using 1(2) by (auto simp: decimal_digits.simps [of n])
      with False 1(1) digit [of "n mod 10"] show ?thesis by auto
    qed
  qed
qed

definition no_digit_next :: "string \<Rightarrow> bool" where
  "no_digit_next r \<longleftrightarrow> r = [] \<or> \<not> is_digit (hd r)"

lemma parse_nat_digits: "no_digit_next r \<Longrightarrow> parse_nat (decimal_digits n @ r) = Some (n, r)"
proof -
  assume r: "no_digit_next r"
  then have "takeWhile is_digit (decimal_digits n @ r) = decimal_digits n"
    "dropWhile is_digit (decimal_digits n @ r) = r"
    using digits_of_nat(2) [of _ n] by (cases r; simp add: no_digit_next_def takeWhile_append dropWhile_append)+
  then show ?thesis
    using digits_of_nat(1) [of n] by (simp add: parse_nat_def decimal_value_digits)
qed


lemma text_head: "\<exists>c t. json_text j = c # t \<and> c \<noteq> CHR '']'' \<and> c \<noteq> CHR ''}'' \<and> plain_char c"
proof (cases j)
  case (JInt i)
  obtain d ds where d: "decimal_digits (nat \<bar>i\<bar>) = d # ds"
    using digits_of_nat(1) by (cases "decimal_digits (nat \<bar>i\<bar>)") auto
  then have "is_digit d" using digits_of_nat(2) [of d "nat \<bar>i\<bar>"] by simp
  then have "d \<noteq> CHR '']'' \<and> d \<noteq> CHR ''}'' \<and> plain_char d"
    by (auto simp: is_digit_def plain_char_def)
  with JInt d show ?thesis by (cases "i < 0") (simp_all add: int_text_def plain_char_def)
qed (auto simp: quoted_def plain_char_def)

lemma parse_int:
  assumes "no_digit_next r"
  shows "parse_json (Suc n) (int_text i @ r) = Some (JInt i, r)"
proof (cases "i < 0")
  case True
  with parse_nat_digits [OF assms] show ?thesis by (simp add: int_text_def)
next
  case False
  obtain d ds where d: "decimal_digits (nat i) = d # ds"
    using digits_of_nat(1) by (cases "decimal_digits (nat i)") auto
  then have "is_digit d" using digits_of_nat(2) [of d "nat i"] by simp
  then have "CHR ''n'' \<noteq> d" "CHR ''t'' \<noteq> d" "CHR ''f'' \<noteq> d" "CHR ''['' \<noteq> d" "CHR ''{'' \<noteq> d"
    "CHR ''-'' \<noteq> d" "CHR 0x22 \<noteq> d"
    by (auto simp: is_digit_def)
  note this this [symmetric]
  with False d parse_nat_digits [OF assms, of "nat i"] show ?thesis by (simp add: int_text_def)
qed

text \<open>A value of a container is followed by a character that is no digit.\<close>

lemma next_simps [simp]: "no_digit_next []" "no_digit_next (c # r) \<longleftrightarrow> \<not> is_digit c"
  by (simp_all add: no_digit_next_def)

lemma punctuation [simp]: "\<not> is_digit (CHR '','')" "\<not> is_digit (CHR '']'')" "\<not> is_digit (CHR ''}'')"
  by (simp_all add: is_digit_def)

lemma parse_text:
  "\<lbrakk>json_fits m j; no_digit_next r; length (json_text j) \<le> n\<rbrakk> \<Longrightarrow> parse_json n (json_text j @ r) = Some (j, r)"
  "\<lbrakk>\<forall>x \<in> set xs. json_fits m x; xs \<noteq> []; length (items_text xs) \<le> n\<rbrakk> \<Longrightarrow>
     parse_items n (items_text xs @ r) = Some (xs, r)"
  "\<lbrakk>\<forall>x \<in> set (map snd kvs). json_fits m x; kvs \<noteq> []; length (members_text kvs) \<le> n\<rbrakk> \<Longrightarrow>
     parse_members n (members_text kvs @ r) = Some (kvs, r)"
proof (induction j and xs and kvs arbitrary: m n r and m n r and m n r
    rule: json_text_items_text_members_text.induct)
  case 1
  then show ?case by (cases n) simp_all
next
  case (2 b)
  then show ?case by (cases n; cases b) simp_all
next
  case (3 i)
  then obtain k where "n = Suc k"
    using text_head [of "JInt i"] by (cases n) auto
  with 3 show ?case by (simp add: parse_int del: parse_json.simps)
next
  case (4 s)
  then show ?case by simp
next
  case (5 s)
  then obtain k where "n = Suc k" by (cases n) (simp_all add: quoted_def)
  then show ?case by (simp add: quoted_def parse_string_quoted)
next
  case (6 xs)
  obtain k where n: "n = Suc k" using 6 by (cases n) (auto split: if_splits)
  obtain l where l: "m = Suc l" using 6 by (cases m) auto
  show ?case
  proof (cases xs)
    case Nil
    with n show ?thesis by simp
  next
    case (Cons x ys)
    obtain c t where "json_text x = c # t" "c \<noteq> CHR '']''" using text_head by blast
    then obtain t' where "items_text xs = c # t'" using Cons by (cases ys) auto
    with 6 n l Cons \<open>c \<noteq> CHR '']''\<close> show ?thesis by (auto simp del: items_text.simps)
  qed
next
  case (7 kvs)
  obtain k where n: "n = Suc k" using 7 by (cases n) (auto split: if_splits)
  obtain l where l: "m = Suc l" using 7 by (cases m) auto
  show ?case
  proof (cases kvs)
    case Nil
    with n show ?thesis by simp
  next
    case (Cons e es)
    obtain t' where "members_text kvs = CHR 0x22 # t'"
      using Cons by (cases e; cases es) (auto simp: quoted_def)
    with 7 n l Cons show ?thesis by (auto simp del: members_text.simps)
  qed
next
  case 8
  then show ?case by simp
next
  case (9 x)
  then show ?case by (cases n) simp_all
next
  case (10 x y xs)
  then obtain k where n: "n = Suc k" by (cases n) auto
  with 10(1) [of m "CHR '','' # items_text (y # xs) @ r" k] 10(2) [of m k r] 10(3-) show ?case by simp
next
  case 11
  then show ?case by simp
next
  case (12 k v)
  then show ?case by (cases n) (simp_all add: quoted_def parse_string_quoted)
next
  case (13 k v e kvs)
  then obtain l where n: "n = Suc l" by (cases n) (auto simp: quoted_def)
  with 13(1) [of m "CHR '','' # members_text (e # kvs) @ r" l] 13(2) [of m l r] 13(3-)
  show ?case by (simp add: quoted_def parse_string_quoted)
qed

lemma own_text_law: "json_text_law own_text"
proof -
  have "trim (json_text j) \<noteq> []" for j
  proof -
    obtain c t where j: "json_text j = c # t" "plain_char c" using text_head by blast
    then obtain r where "trim_start_rev (rev t @ [c]) = r @ [c]"
      using trim_start_rev_keeps [of "[c]" "rev t"] by auto
    with j trim_start_plain [of "c # t"] show ?thesis by (simp add: trim_def trim_end_def)
  qed
  moreover have "parse_json (length (json_text j)) (json_text j @ []) = Some (j, [])" if "json_fits 127 j" for j
    using parse_text(1) [OF that, of "[]"] by simp
  ultimately show ?thesis by (simp add: json_text_law_def own_text_def)
qed

end
