(* ===== verification/StoreFormats.thy ===== *)
theory StoreFormats
  imports Documents JsonText History
begin

text \<open>
  The files of the data directory as their types' serde attributes make them: \<open>catalog.json\<close>,
  \<open>wallet.json\<close>, \<open>roots.json\<close>, \<open>revocation-cache.json\<close> and \<open>devices.json\<close>. What the components
  assume of their formats is proved here from \<open>json_text_law\<close>, so the histories of the program hold of the
  formats the code has.
\<close>

section \<open>Principals and catalog operations\<close>

definition principal_of_json :: "hex_lib \<Rightarrow> json \<Rightarrow> string + principal" where
  "principal_of_json H j = ok_or (principal_deserialize H j) ''invalid principal''"

lemma principal_codec:
  assumes "hex_lib_ok H"
  shows "json_codec (principal_serialize H) (principal_of_json H) principal_ok 0"
  by unfold_locales
    (simp_all add: principal_of_json_def principal_serialize_def principal_deserialize_def
      parse_principal_hex [OF assms] ok_def result_simps)

definition op_to_json :: "hex_lib \<Rightarrow> catalog_op \<Rightarrow> json" where
  "op_to_json H op =
     (case op of
        PutRole r \<Rightarrow> JObj [(''PutRole'', role_json r)]
      | RemoveRole n \<Rightarrow> JObj [(''RemoveRole'', JStr n)]
      | PutPolicy n p \<Rightarrow> JObj [(''PutPolicy'',
          struct_obj [(''name'', Some (JStr n)), (''policy'', Some (policy_json p))])]
      | RemovePolicy n \<Rightarrow> JObj [(''RemovePolicy'', JStr n)]
      | AttachRole p r \<Rightarrow> JObj [(''AttachRole'',
          struct_obj [(''principal'', Some (principal_serialize H p)), (''role'', Some (JStr r))])]
      | DetachRole p r \<Rightarrow> JObj [(''DetachRole'',
          struct_obj [(''principal'', Some (principal_serialize H p)), (''role'', Some (JStr r))])])"

definition attach_fields :: "hex_lib \<Rightarrow> json \<Rightarrow> string + principal \<times> string" where
  "attach_fields H j =
     and_then (struct_fields [''principal'', ''role''] j) (\<lambda>f.
     and_then (field f ''principal'' (principal_of_json H)) (\<lambda>p.
     and_then (field f ''role'' dec_str) (\<lambda>r. Inr (p, r))))"

definition put_policy_fields :: "json \<Rightarrow> string + string \<times> policy" where
  "put_policy_fields j =
     and_then (struct_fields [''name'', ''policy''] j) (\<lambda>f.
     and_then (field f ''name'' dec_str) (\<lambda>n.
     and_then (field f ''policy'' policy_of_json) (\<lambda>p. Inr (n, p))))"

definition op_of_json :: "hex_lib \<Rightarrow> json \<Rightarrow> string + catalog_op" where
  "op_of_json H j = and_then (enum_variant j) (\<lambda>(v, c).
     if v = ''PutRole'' then and_then (with_content c role_of_json) (\<lambda>r. Inr (PutRole r))
     else if v = ''RemoveRole'' then and_then (with_content c dec_str) (\<lambda>n. Inr (RemoveRole n))
     else if v = ''PutPolicy'' then and_then (with_content c put_policy_fields) (\<lambda>(n, p). Inr (PutPolicy n p))
     else if v = ''RemovePolicy'' then and_then (with_content c dec_str) (\<lambda>n. Inr (RemovePolicy n))
     else if v = ''AttachRole'' then and_then (with_content c (attach_fields H)) (\<lambda>(p, r). Inr (AttachRole p r))
     else if v = ''DetachRole'' then and_then (with_content c (attach_fields H)) (\<lambda>(p, r). Inr (DetachRole p r))
     else Inl ''unknown variant'')"

lemma op_codec:
  assumes "hex_lib_ok H"
  shows "json_codec (op_to_json H) (op_of_json H) op_principal_ok 7"
proof
  note P = principal_codec [OF assms]
  fix op
  assume ok: "op_principal_ok op"
  show "op_of_json H (op_to_json H op) = Inr op"
    using ok by (cases op)
      (simp_all add: op_to_json_def op_of_json_def result_simps rol.dec_enc pol.dec_enc str.dec_enc
        attach_fields_def put_policy_fields_def struct_fields_obj field_simps json_codec.dec_enc [OF P])
  have "json_fits 6 (role_json r)" "json_fits 6 (struct_obj [(''name'', Some (JStr n)), (''policy'', Some (policy_json p))])"
    "principal_ok q \<Longrightarrow>
       json_fits 6 (struct_obj [(''principal'', Some (principal_serialize H q)), (''role'', Some (JStr n))])" for r n p q
    by (simp_all add: rol.fits struct_obj_fits [of 5, simplified] pol.fits json_codec.fits [OF P])
  then show "json_fits 7 (op_to_json H op)"
    using ok json_fits.simps(6) [of 6] by (cases op) (simp_all add: op_to_json_def)
qed

section \<open>The catalog's log\<close>

definition entry_to_json :: "hex_lib \<Rightarrow> catalog_op \<times> string option \<Rightarrow> json" where
  "entry_to_json H e = JArr [op_to_json H (fst e), case snd e of None \<Rightarrow> JNull | Some actor \<Rightarrow> JStr actor]"

definition entry_of_json :: "hex_lib \<Rightarrow> json \<Rightarrow> string + catalog_op \<times> string option" where
  "entry_of_json H j =
     (case j of
        JArr [op, actor] \<Rightarrow> and_then (op_of_json H op) (\<lambda>op. and_then (dec_option dec_str actor) (\<lambda>actor. Inr (op, actor)))
      | _ \<Rightarrow> Inl ''invalid type, expected a tuple of size 2'')"

definition log_to_json :: "hex_lib \<Rightarrow> catalog_log \<Rightarrow> json" where
  "log_to_json H l = struct_obj [(''entries'', Some (enc_list (entry_to_json H) (log_entries l)))]"

definition log_of_json :: "hex_lib \<Rightarrow> json \<Rightarrow> string + catalog_log" where
  "log_of_json H j =
     and_then (struct_fields [''entries''] j) (\<lambda>f.
     and_then (field f ''entries'' (dec_list (entry_of_json H))) (\<lambda>es. Inr \<lparr>log_entries = es\<rparr>))"

definition log_good :: "catalog_log \<Rightarrow> bool" where
  "log_good l \<longleftrightarrow> (\<forall>e \<in> set (log_entries l). op_principal_ok (fst e))"

lemma entry_codec:
  assumes "hex_lib_ok H"
  shows "json_codec (entry_to_json H) (entry_of_json H) (\<lambda>e. op_principal_ok (fst e)) 8"
proof
  fix e :: "catalog_op \<times> string option"
  assume ok: "op_principal_ok (fst e)"
  show "entry_of_json H (entry_to_json H e) = Inr e"
    using json_codec.dec_enc [OF op_codec [OF assms] ok]
    by (cases e; cases "snd e") (simp_all add: entry_to_json_def entry_of_json_def dec_option_def dec_str_def result_simps)
  show "json_fits 8 (entry_to_json H e)"
    using json_codec.enc_fits [OF op_codec [OF assms] ok] json_fits.simps(4) [of 7]
    by (simp add: entry_to_json_def split: option.splits)
qed

lemma log_codec:
  assumes "hex_lib_ok H"
  shows "json_codec (log_to_json H) (log_of_json H) log_good 10"
proof
  note E = list_codec [OF entry_codec [OF assms]]
  fix l
  assume "log_good l"
  then have ok: "\<forall>e \<in> set (log_entries l). op_principal_ok (fst e)" by (simp add: log_good_def)
  show "log_of_json H (log_to_json H l) = Inr l"
    unfolding log_of_json_def log_to_json_def
    by (subst struct_fields_obj) (simp_all add: field_simps json_codec.dec_enc [OF E ok] result_simps)
  show "json_fits 10 (log_to_json H l)"
    using json_codec.enc_fits [OF E ok] by (simp add: log_to_json_def struct_obj_fits [of 9, simplified])
qed

section \<open>The wallet\<close>

definition wallet_entry_to_json :: "wallet_entry \<Rightarrow> json" where
  "wallet_entry_to_json e = struct_obj
     [(''label'', Some (JStr (we_label e))),
      (''token'', Some (JStr (we_token e))),
      (''added_at'', Some (enc_word (we_added_at e))),
      (''note'', map_option JStr (we_note e))]"

definition wallet_entry_of_json :: "json \<Rightarrow> string + wallet_entry" where
  "wallet_entry_of_json j =
     and_then (struct_fields [''label'', ''token'', ''added_at'', ''note''] j) (\<lambda>f.
     and_then (field f ''label'' dec_str) (\<lambda>label.
     and_then (field f ''token'' dec_str) (\<lambda>token.
     and_then (field_or f ''added_at'' dec_word 0) (\<lambda>added_at.
     and_then (field_or f ''note'' (dec_option dec_str) None) (\<lambda>nt.
     Inr \<lparr>we_label = label, we_token = token, we_added_at = added_at, we_note = nt\<rparr>)))))"

text \<open>\<open>WalletStore\<close> and \<open>Roots\<close> are structs whose only field of the file is the map.\<close>

definition map_file_to_json :: "string \<Rightarrow> ('a \<Rightarrow> json) \<Rightarrow> (string, 'a) btree \<Rightarrow> json" where
  "map_file_to_json name enc m = struct_obj [(name, Some (enc_map enc m))]"

definition map_file_of_json :: "string \<Rightarrow> (json \<Rightarrow> string + 'a) \<Rightarrow> json \<Rightarrow> string + (string, 'a) btree" where
  "map_file_of_json name dec j = and_then (struct_fields [name] j) (\<lambda>f. field f name (dec_map dec))"

lemma map_file_codec:
  assumes "json_codec enc dec good d"
  shows "json_codec (map_file_to_json name enc) (map_file_of_json name dec) (map_good good) (Suc (Suc d))"
  using json_codec.dec_enc [OF map_codec [OF assms]] json_codec.enc_fits [OF map_codec [OF assms]]
  by unfold_locales
    (simp_all add: map_file_to_json_def map_file_of_json_def struct_fields_obj field_simps struct_obj_fits result_simps)

interpretation wentry: json_codec wallet_entry_to_json wallet_entry_of_json "\<lambda>_. True" 1
proof
  fix e
  show "wallet_entry_of_json (wallet_entry_to_json e) = Inr e"
    unfolding wallet_entry_of_json_def wallet_entry_to_json_def
    by (subst struct_fields_obj)
      (simp_all add: field_option [where enc = JStr] field_simps str.dec_enc u64.dec_enc result_simps)
  show "json_fits 1 (wallet_entry_to_json e)"
    by (simp add: wallet_entry_to_json_def struct_obj_fits [of 0, simplified] option.pred_map o_def option.pred_True)
qed

section \<open>Accepted roots\<close>

definition root_entry_to_json :: "hex_lib \<Rightarrow> root_entry \<Rightarrow> json" where
  "root_entry_to_json H e = struct_obj
     [(''key'', Some (principal_serialize H (re_key e))),
      (''label'', map_option JStr (re_label e)),
      (''not_before'', Some (enc_word (re_not_before e))),
      (''not_after'', Some (enc_word (re_not_after e)))]"

definition root_entry_of_json :: "hex_lib \<Rightarrow> json \<Rightarrow> string + root_entry" where
  "root_entry_of_json H j =
     and_then (struct_fields [''key'', ''label'', ''not_before'', ''not_after''] j) (\<lambda>f.
     and_then (field f ''key'' (principal_of_json H)) (\<lambda>key.
     and_then (field_or f ''label'' (dec_option dec_str) None) (\<lambda>label.
     and_then (field_or f ''not_before'' dec_word 0) (\<lambda>nb.
     and_then (field_or f ''not_after'' dec_word 0) (\<lambda>na.
     Inr \<lparr>re_key = key, re_label = label, re_not_before = nb, re_not_after = na\<rparr>)))))"

lemma root_codec:
  assumes "hex_lib_ok H"
  shows "json_codec (root_entry_to_json H) (root_entry_of_json H) (\<lambda>e. principal_ok (re_key e)) 1"
proof
  note P = principal_codec [OF assms]
  fix e :: root_entry
  assume ok: "principal_ok (re_key e)"
  show "root_entry_of_json H (root_entry_to_json H e) = Inr e"
    unfolding root_entry_of_json_def root_entry_to_json_def
    by (subst struct_fields_obj)
      (simp_all add: field_option [where enc = JStr] field_simps str.dec_enc u64.dec_enc
        json_codec.dec_enc [OF P ok] result_simps)
  show "json_fits 1 (root_entry_to_json H e)"
    using json_codec.enc_fits [OF P ok]
    by (simp add: root_entry_to_json_def struct_obj_fits [of 0, simplified] option.pred_map o_def option.pred_True)
qed

section \<open>The revocation cache\<close>

definition pair_to_json :: "string \<times> u64 \<Rightarrow> json" where
  "pair_to_json p = JArr [JStr (fst p), enc_word (snd p)]"

definition pair_of_json :: "json \<Rightarrow> string + string \<times> u64" where
  "pair_of_json j =
     (case j of
        JArr [issuer, nonce] \<Rightarrow> and_then (dec_str issuer) (\<lambda>i. and_then (dec_word nonce) (\<lambda>n. Inr (i, n)))
      | _ \<Rightarrow> Inl ''invalid type, expected a tuple of size 2'')"

definition cache_to_json :: "cached_revocations \<Rightarrow> json" where
  "cache_to_json c = struct_obj
     [(''pairs'', Some (enc_list pair_to_json (ca_pairs c))),
      (''fetched_at'', Some (enc_word (ca_fetched_at c))),
      (''ttl_secs'', Some (enc_word (ca_ttl_secs c)))]"

definition cache_of_json :: "json \<Rightarrow> string + cached_revocations" where
  "cache_of_json j =
     and_then (struct_fields [''pairs'', ''fetched_at'', ''ttl_secs''] j) (\<lambda>f.
     and_then (field f ''pairs'' (dec_list pair_of_json)) (\<lambda>pairs.
     and_then (field f ''fetched_at'' dec_word) (\<lambda>fetched_at.
     and_then (field f ''ttl_secs'' dec_word) (\<lambda>ttl.
     Inr \<lparr>ca_pairs = pairs, ca_fetched_at = fetched_at, ca_ttl_secs = ttl\<rparr>))))"

interpretation pair: json_codec pair_to_json pair_of_json "\<lambda>_. True" 1
proof
  fix p :: "string \<times> u64"
  show "pair_of_json (pair_to_json p) = Inr p"
    by (simp add: pair_to_json_def pair_of_json_def str.dec_enc u64.dec_enc result_simps)
  show "json_fits 1 (pair_to_json p)"
    using json_fits.simps(4) [of 0] by (simp add: pair_to_json_def)
qed

interpretation pairs: json_codec "enc_list pair_to_json" "dec_list pair_of_json" "\<lambda>_. True" 2
  using list_codec [OF pair.json_codec_axioms] by (simp add: numeral_2_eq_2)

interpretation cache: json_codec cache_to_json cache_of_json "\<lambda>_. True" 3
proof
  fix c
  show "cache_of_json (cache_to_json c) = Inr c"
    unfolding cache_of_json_def cache_to_json_def
    by (subst struct_fields_obj) (simp_all add: field_simps pairs.dec_enc u64.dec_enc result_simps)
  show "json_fits 3 (cache_to_json c)"
    by (simp add: cache_to_json_def struct_obj_fits [of 2, simplified] pairs.fits)
qed

section \<open>Enrolled devices\<close>

definition device_to_json :: "device \<Rightarrow> json" where
  "device_to_json d = struct_obj
     [(''pub'', Some (JStr (dv_pub d))),
      (''role'', Some (JStr (dv_role d))),
      (''label'', Some (JStr (dv_label d))),
      (''added_ts'', Some (enc_word (dv_added_ts d))),
      (''nodeId'', if dv_node_id d = [] then None else Some (JStr (dv_node_id d)))]"

definition device_of_json :: "json \<Rightarrow> string + device" where
  "device_of_json j =
     and_then (struct_fields [''pub'', ''role'', ''label'', ''added_ts'', ''nodeId''] j) (\<lambda>f.
     and_then (field f ''pub'' dec_str) (\<lambda>pub.
     and_then (field f ''role'' dec_str) (\<lambda>role.
     and_then (field_or f ''label'' dec_str []) (\<lambda>label.
     and_then (field_or f ''added_ts'' dec_word 0) (\<lambda>added_ts.
     and_then (field_or f ''nodeId'' dec_str []) (\<lambda>node_id.
     Inr \<lparr>dv_pub = pub, dv_role = role, dv_label = label, dv_added_ts = added_ts, dv_node_id = node_id\<rparr>))))))"

interpretation dev: json_codec device_to_json device_of_json "\<lambda>_. True" 1
proof
  fix d
  show "device_of_json (device_to_json d) = Inr d"
    unfolding device_of_json_def device_to_json_def
    by (subst struct_fields_obj) (simp_all add: field_simps str.dec_enc u64.dec_enc result_simps)
  show "json_fits 1 (device_to_json d)"
    by (simp add: device_to_json_def struct_obj_fits [of 0, simplified])
qed

text \<open>Files of an earlier version, and files written by hand, may lack the fields with a default.\<close>

lemma fields_left_out:
  "wallet_entry_of_json (JObj [(''label'', JStr l), (''token'', JStr t)]) =
     Inr \<lparr>we_label = l, we_token = t, we_added_at = 0, we_note = None\<rparr>"
  "hex_lib_ok H \<Longrightarrow> principal_ok key \<Longrightarrow>
   root_entry_of_json H (JObj [(''key'', principal_serialize H key)]) =
     Inr \<lparr>re_key = key, re_label = None, re_not_before = 0, re_not_after = 0\<rparr>"
  "device_of_json (JObj [(''pub'', JStr pk), (''role'', JStr r)]) =
     Inr \<lparr>dv_pub = pk, dv_role = r, dv_label = [], dv_added_ts = 0, dv_node_id = []\<rparr>"
  by (simp_all add: wallet_entry_of_json_def root_entry_of_json_def device_of_json_def struct_fields_def
      field_def field_or_def dec_str_def json_codec.dec_enc [OF principal_codec] result_simps)

section \<open>The formats of an installation\<close>

definition catalog_format :: "text_lib \<Rightarrow> hex_lib \<Rightarrow> catalog_log json_format" where
  "catalog_format T H = serde_format T (log_to_json H) (log_of_json H) log_good"

definition wallet_format :: "text_lib \<Rightarrow> wallet_map json_format" where
  "wallet_format T = serde_format T (map_file_to_json ''entries'' wallet_entry_to_json)
     (map_file_of_json ''entries'' wallet_entry_of_json) bt_ok"

definition roots_format :: "text_lib \<Rightarrow> hex_lib \<Rightarrow> roots_map json_format" where
  "roots_format T H = serde_format T (map_file_to_json ''roots'' (root_entry_to_json H))
     (map_file_of_json ''roots'' (root_entry_of_json H)) (map_good (\<lambda>e. principal_ok (re_key e)))"

definition cache_format :: "text_lib \<Rightarrow> cached_revocations json_format" where
  "cache_format T = serde_format T cache_to_json cache_of_json (\<lambda>_. True)"

definition devices_format :: "text_lib \<Rightarrow> dev_map json_format" where
  "devices_format T = serde_format T (enc_map device_to_json) (dec_map device_of_json) bt_ok"

lemma map_good_any: "map_good (\<lambda>_. True) = bt_ok"
  by (simp add: map_good_def fun_eq_iff)

lemma store_codecs:
  "hex_lib_ok H \<Longrightarrow> json_codec (log_to_json H) (log_of_json H) log_good 10"
  "json_codec (map_file_to_json ''entries'' wallet_entry_to_json) (map_file_of_json ''entries'' wallet_entry_of_json) bt_ok 3"
  "hex_lib_ok H \<Longrightarrow> json_codec (map_file_to_json ''roots'' (root_entry_to_json H))
     (map_file_of_json ''roots'' (root_entry_of_json H)) (map_good (\<lambda>e. principal_ok (re_key e))) 3"
  "json_codec (enc_map device_to_json) (dec_map device_of_json) bt_ok 2"
  using log_codec map_file_codec [OF wentry.json_codec_axioms] map_file_codec [OF root_codec]
    map_codec [OF dev.json_codec_axioms]
  by (simp_all add: map_good_any numeral_2_eq_2 numeral_3_eq_3)

text \<open>An environment of the program with the formats and the scope keys of the code.\<close>

definition with_serde :: "text_lib \<Rightarrow> ('i, 's) cli \<Rightarrow> ('i, 's) cli" where
  "with_serde T E = E\<lparr>cl_key := scope_key T, cl_catalogs := catalog_format T (cl_hex E),
     cl_wallets := wallet_format T, cl_roots := roots_format T (cl_hex E), cl_devices := devices_format T,
     cl_cache := cache_format T\<rparr>"

lemma with_serde_laws:
  assumes "json_text_law T" "hex_lib_ok (cl_hex E)"
  shows "install_laws (with_serde T E)" "scope_key_law (cl_key (with_serde T E))"
proof -
  note law = serde_format_law [OF assms(1)]
  have "no_blank (devices_format T)"
    unfolding no_blank_def devices_format_def by (intro allI impI serde_format_prints [OF assms(1)])
  then show "install_laws (with_serde T E)"
    using law [OF store_codecs(1) [OF assms(2)]] law [OF store_codecs(2)] law [OF store_codecs(3) [OF assms(2)]]
      law [OF store_codecs(4)] law [OF cache.json_codec_axioms] assms(2)
    by (simp add: install_laws_def with_serde_def catalog_format_def wallet_format_def roots_format_def
        devices_format_def cache_format_def)
  show "scope_key_law (cl_key (with_serde T E))"
    by (simp add: with_serde_def scope_key_law_of_text [OF assms(1)])
qed


section \<open>Documents through the commands\<close>

text \<open>The role that a successful \<open>role put\<close> of a document leaves on disk.\<close>

lemma role_put_stored:
  assumes "install_laws E0" "stores_ok E0 d fs" "same_formats E0 E" "cl_dir E = Inr d"
    and "pred_option principal_ok (cli_actor E)" "policy_from_json parse text = Inr p"
    and "cmd_role E parse (RolePut name description (Inr text)) fs = (Returned (Inr out), fs')"
  shows "stores_ok E0 d fs'"
    and "rs_roles (disk_roles E d fs') name =
      Some \<lparr>role_name = name, role_description = description, role_policy = p\<rparr>"
proof -
  have laws: "install_laws E" using assms(1,3) by (simp add: install_laws_same)
  note good = good_files [OF assms(3,4,2)]
  from cmd_role_refines [OF assms(7) laws assms(5,4) good(1)]
  show "rs_roles (disk_roles E d fs') name =
      Some \<lparr>role_name = name, role_description = description, role_policy = p\<rparr>"
    using assms(6) by (simp add: how_ended_def ok_def and_then_def map_err_def)
  have "main_cmd E X parse (RoleCmd (RolePut name description (Inr text))) fs net =
      (map_outcome (map_sum id Printed) (Returned (Inr out)), fs', net)" for X net
    using assms(7) by (simp add: on_files_def)
  then show "stores_ok E0 d fs'"
    by (rule main_cmd_stores_ok [OF _ assms(1,5,3,4,2)])
qed

lemma role_get_stored:
  assumes "stores_ok E0 d fs" "same_formats E0 E" "cl_dir E = Inr d" "cl_read E = no_read_faults"
    and "pred_option (\<lambda>content. length content \<le> MAX_STORE_BYTES) (fs (d, ''catalog.json''))"
    and "rs_roles (disk_roles E d fs) name = Some r"
  shows "cmd_role E parse (RoleGet name) fs = (Returned (Inr (PrintRole r)), fs)"
proof (rule catalog_opens [OF good_files(1) [OF assms(2,3,1)] assms(3-5)])
  fix st
  assume st: "open_catalog_store E fs = Inr st" "cs_path st = path_join d ''catalog.json''"
    "store_inv (cl_hex E) st" "on_disk (cl_catalogs E) st fs"
  have "get_role (cs_catalog st) name = Some r"
    using assms(6) disk_catalog_on_disk [OF st(4,2,3)] by (simp add: disk_roles_def abs_catalog_def get_role_def)
  with st(1) show ?thesis
    by (simp add: with_result_def pure_result_def and_then_def ok_or_def)
qed


text \<open>
  Property C18. Documents survive their text: the JSON that \<open>Policy::to_json\<close> prints is accepted by
  \<open>Policy::from_json\<close>, as the very policy that was printed, if and only if it has the version tag and at
  least one statement; the JSON of a role is accepted, as the very role, if and only if its name is not
  blank; and two policies have the same text only if they are the same.
\<close>

theorem document_round_trip:
  assumes "json_text_law T"
  shows "(policy_from_json (policy_parse T) (policy_to_json (policy_print T) p) = Inr q \<longleftrightarrow>
      q = p \<and> pol_version p = version_tag \<and> pol_statements p \<noteq> []) \<and>
    (role_from_json (role_parse T) (role_to_json (role_print T) r) = Inr r' \<longleftrightarrow>
      r' = r \<and> trim (role_name r) \<noteq> []) \<and>
    (policy_to_json (policy_print T) p = policy_to_json (policy_print T) q \<longleftrightarrow> p = q)"
proof -
  have "policy_to_json (policy_print T) p = policy_to_json (policy_print T) q \<longleftrightarrow> p = q"
    using policy_text [OF assms] by (metis sum.inject(2))
  then show ?thesis
    by (auto simp: document_texts [OF assms])
qed

definition reads_back :: "'a json_format \<Rightarrow> 'a \<Rightarrow> bool" where
  "reads_back J v \<longleftrightarrow> (\<exists>s. jf_print J v = Inr s \<and> trim s \<noteq> [] \<and> jf_parse J s = Inr v)"

lemma serde_reads_back:
  assumes "json_text_law T" "json_codec enc dec good d" "d \<le> 127" "good v"
  shows "reads_back (serde_format T enc dec good) v"
  using serde_format_law [OF assms(1-3)] assms(1,4)
  unfolding reads_back_def json_law_def json_text_law_def by (auto simp: serde_format_def)

text \<open>
  Property C14. Every store file can be written and read back: the catalog's log, the wallet, the roots,
  the revocation cache and the device registry, in the JSON their types derive (omitted options and
  defaults, renamed and skipped fields, tagged operations, hex principals), are printed as text that is
  not blank and is parsed back to exactly the value that was saved.
\<close>

theorem stores_round_trip:
  assumes "json_text_law T" "hex_lib_ok H"
  shows "(log_good l \<longrightarrow> reads_back (catalog_format T H) l) \<and>
    (bt_ok w \<longrightarrow> reads_back (wallet_format T) w) \<and>
    (map_good (\<lambda>e. principal_ok (re_key e)) ro \<longrightarrow> reads_back (roots_format T H) ro) \<and>
    reads_back (cache_format T) c \<and>
    (bt_ok d \<longrightarrow> reads_back (devices_format T) d)"
  using serde_reads_back [OF assms(1) store_codecs(1) [OF assms(2)]] serde_reads_back [OF assms(1) store_codecs(2)]
    serde_reads_back [OF assms(1) store_codecs(3) [OF assms(2)]] serde_reads_back [OF assms(1) cache.json_codec_axioms]
    serde_reads_back [OF assms(1) store_codecs(4)]
  by (simp add: catalog_format_def wallet_format_def roots_format_def cache_format_def devices_format_def)

text \<open>
  Property C7. From \<open>ce-iam policy new\<close> to a role in the catalog: when the document that \<open>policy new\<close>
  prints is given to \<open>role put\<close> and that reports success, a later \<open>role get\<close> on the same directory
  prints a role with that name and description whose policy is exactly the one of the arguments of
  \<open>policy new\<close>: its actions, its parsed resource and its conditions at the time of the command.
\<close>

theorem policy_new_then_role_put:
  assumes "json_text_law T" "hex_lib_ok (cl_hex E0)" "stores_ok (with_serde T E0) d fs"
    and "policy_new N actions resource conds = Inr (PrintPolicy p)"
    and "same_formats (with_serde T E0) E" "cl_dir E = Inr d" "pred_option principal_ok (cli_actor E)"
    and "cmd_role E (policy_parse T) (RolePut name description (Inr (policy_to_json (policy_print T) p))) fs =
      (Returned (Inr out), fs')"
    and "same_formats (with_serde T E0) E'" "cl_dir E' = Inr d" "cl_read E' = no_read_faults"
    and "pred_option (\<lambda>content. length content \<le> MAX_STORE_BYTES) (fs' (d, ''catalog.json''))"
  shows "\<exists>res. resource_parse (cl_hex N) resource = Inr res \<and>
    cmd_role E' parse (RoleGet name) fs' = (Returned (Inr (PrintRole \<lparr>role_name = name, role_description = description,
      role_policy = simple_policy actions res (build_conditions (cl_now N) conds)\<rparr>)), fs')"
proof -
  note laws = with_serde_laws(1) [OF assms(1,2)]
  obtain res where res: "resource_parse (cl_hex N) resource = Inr res"
    and p: "p = simple_policy actions res (build_conditions (cl_now N) conds)"
    using assms(4) by (auto simp: policy_new_def and_then_Inr map_err_def split: sum.splits)
  have "policy_from_json (policy_parse T) (policy_to_json (policy_print T) p) = Inr p"
    by (simp add: document_texts [OF assms(1)] p simple_policy_def policy_allow_def)
  note stored = role_put_stored [OF laws assms(3,5,6,7) this assms(8)]
  have "disk_roles E d fs' = disk_roles E' d fs'"
    by (simp add: disk_roles_same [OF assms(5)] disk_roles_same [OF assms(9)])
  with stored(2) have "rs_roles (disk_roles E' d fs') name =
      Some \<lparr>role_name = name, role_description = description, role_policy = p\<rparr>" by simp
  from role_get_stored [OF stored(1) assms(9-12) this] res p show ?thesis by simp
qed


section \<open>Concrete files\<close>

definition demo_serde :: "(node_id, capability) cli" where
  "demo_serde = with_serde own_text demo_install"

definition demo_conditions :: condition_args where
  "demo_conditions = \<lparr>co_expires_in = 60, co_activates_in = 0, co_max_cpu = None, co_max_mem_mb = None,
     co_max_credits = None, co_allowed_ports = [], co_path_prefix = None\<rparr>"

definition demo_written :: policy where
  "demo_written = simple_policy [''s:r''] RMAny (build_conditions 5 demo_conditions)"

definition demo_document :: string where
  "demo_document = policy_to_json (policy_print own_text) demo_written"

lemma demo_document_text:
  "filter (\<lambda>c. c \<noteq> CHR 0x22) demo_document =
     ''{version:ce-iam-policy-v1,statements:[{effect:Allow,actions:[s:r],resource:any,conditions:{not_after:65}}]}''"
  by code_simp

abbreviation demo_role_put :: cli_result where
  "demo_role_put \<equiv> cmd_role demo_serde (policy_parse own_text) (RolePut ''reader'' None (Inr demo_document)) (\<lambda>_. None)"

lemma demo_role_put_runs:
  "fst demo_role_put = Returned (Inr (Said ''put role (catalog version)'' [''reader'', ''1'']))"
  "(case snd demo_role_put (''iam'', ''catalog.json'') of None \<Rightarrow> False | Some content \<Rightarrow> length content < 1000)"
  by code_simp+

lemma demo_role_put_size:
  "pred_option (\<lambda>content. length content \<le> MAX_STORE_BYTES) (snd demo_role_put (''iam'', ''catalog.json''))"
  using demo_role_put_runs(2) by (auto simp: MAX_STORE_BYTES_def split: option.splits)

theorem document_round_trip_witness:
  "policy_from_json (policy_parse own_text) (policy_to_json (policy_print own_text) demo_written) = Inr demo_written"
  using document_round_trip [OF own_text_law, of demo_written demo_written]
  by (simp add: demo_written_def simple_policy_def policy_allow_def)

theorem stores_round_trip_witness:
  "reads_back (catalog_format own_text own_hex) demo_log \<and> reads_back (devices_format own_text) []"
  using stores_round_trip [OF own_text_law own_hex_codec, of demo_log "[]" "[]" _ "[]"]
  by (simp add: log_good_def demo_log_def)

theorem policy_new_then_role_put_witness:
  "fst (cmd_role demo_serde (\<lambda>_. Inl []) (RoleGet ''reader'') (snd demo_role_put)) =
     Returned (Inr (PrintRole \<lparr>role_name = ''reader'', role_description = None, role_policy = demo_written\<rparr>))"
proof -
  have E: "same_formats (with_serde own_text demo_install) demo_serde" "cl_dir demo_serde = Inr ''iam''"
    "cl_read demo_serde = no_read_faults" "pred_option principal_ok (cli_actor demo_serde)" "hex_lib_ok (cl_hex demo_install)"
    by (simp_all add: demo_serde_def same_formats_def with_serde_def demo_install_def demo_cli_def cli_actor_def
        load_identity_def map_err_def ok_def own_hex_codec)
  have new: "policy_new demo_serde [''s:r''] ''*'' demo_conditions = Inr (PrintPolicy demo_written)"
    "build_conditions (cl_now demo_serde) demo_conditions = build_conditions 5 demo_conditions"
    "resource_parse (cl_hex demo_serde) ''*'' = Inr RMAny"
    by code_simp+
  have put: "cmd_role demo_serde (policy_parse own_text)
      (RolePut ''reader'' None (Inr (policy_to_json (policy_print own_text) demo_written))) (\<lambda>_. None) =
      (Returned (Inr (Said ''put role (catalog version)'' [''reader'', ''1''])), snd demo_role_put)"
    using demo_role_put_runs(1) by (metis demo_document_def prod.collapse)
  show ?thesis
    using policy_new_then_role_put [OF own_text_law E(5) stores_ok_fresh new(1) E(1,2,4) put E(1-3) demo_role_put_size]
      new(2,3) by (simp add: demo_written_def)
qed

end
