(* ===== verification/SignedText.thy ===== *)
theory SignedText
  imports StoreFormats
begin

text \<open>
  The JSON of attestations (\<open>attestation.rs\<close>): the canonical text of a body that a provider signs, and
  the flattened object in which body and signature travel.
\<close>

section \<open>Encoders and decoders\<close>

text \<open>\<open>[u8; 32]\<close>: an array of 32 numbers.\<close>

definition dec_bytes32 :: "json \<Rightarrow> string + bytes" where
  "dec_bytes32 j = and_then (dec_list dec_word j) (\<lambda>bs.
     if length bs = 32 then Inr bs else Inl ''invalid length, expected an array of length 32'')"

definition claim_to_json :: "claim \<Rightarrow> json" where
  "claim_to_json c =
     (case c of
        UniqueHuman \<Rightarrow> JStr ''UniqueHuman''
      | EmailVerified h \<Rightarrow> JObj [(''EmailVerified'', JStr h)]
      | DomainControl d \<Rightarrow> JObj [(''DomainControl'', JStr d)]
      | OrgMember n \<Rightarrow> JObj [(''OrgMember'', JStr n)]
      | CustomClaim k v \<Rightarrow> JObj [(''Custom'', JArr [JStr k, JStr v])])"

definition dec_custom :: "json \<Rightarrow> string + claim" where
  "dec_custom j =
     (case j of
        JArr [k, v] \<Rightarrow> and_then (dec_str k) (\<lambda>k. and_then (dec_str v) (\<lambda>v. Inr (CustomClaim k v)))
      | _ \<Rightarrow> Inl ''invalid type, expected tuple variant'')"

definition claim_of_json :: "json \<Rightarrow> string + claim" where
  "claim_of_json j = and_then (enum_variant j) (\<lambda>(v, c).
     if v = ''UniqueHuman'' then unit_variant c UniqueHuman
     else if v = ''EmailVerified'' then and_then (with_content c dec_str) (\<lambda>h. Inr (EmailVerified h))
     else if v = ''DomainControl'' then and_then (with_content c dec_str) (\<lambda>d. Inr (DomainControl d))
     else if v = ''OrgMember'' then and_then (with_content c dec_str) (\<lambda>n. Inr (OrgMember n))
     else if v = ''Custom'' then with_content c dec_custom
     else Inl ''unknown variant'')"

definition body_members :: "attestation_body \<Rightarrow> (string \<times> json option) list" where
  "body_members b =
     [(''provider'', Some (enc_list enc_word (ab_provider b))),
      (''subject'', Some (enc_list enc_word (ab_subject b))),
      (''claim'', Some (claim_to_json (ab_claim b))),
      (''level'', Some (enc_word (ab_level b))),
      (''pseudonym'', Some (enc_list enc_word (ab_pseudonym b))),
      (''issued'', Some (enc_word (ab_issued b))),
      (''expires'', Some (enc_word (ab_expires b))),
      (''nonce'', Some (enc_word (ab_nonce b)))]"

definition body_to_json :: "attestation_body \<Rightarrow> json" where
  "body_to_json b = struct_obj (body_members b)"

definition body_of_fields :: "(string \<Rightarrow> json option) \<Rightarrow> string + attestation_body" where
  "body_of_fields f =
     and_then (field f ''provider'' dec_bytes32) (\<lambda>provider.
     and_then (field f ''subject'' dec_bytes32) (\<lambda>subject.
     and_then (field f ''claim'' claim_of_json) (\<lambda>claim.
     and_then (field f ''level'' dec_word) (\<lambda>level.
     and_then (field f ''pseudonym'' dec_bytes32) (\<lambda>pseudonym.
     and_then (field f ''issued'' dec_word) (\<lambda>issued.
     and_then (field f ''expires'' dec_word) (\<lambda>expires.
     and_then (field f ''nonce'' dec_word) (\<lambda>nonce.
     Inr \<lparr>ab_provider = provider, ab_subject = subject, ab_claim = claim, ab_level = level,
       ab_pseudonym = pseudonym, ab_issued = issued, ab_expires = expires, ab_nonce = nonce\<rparr>))))))))"

definition body_names :: "string list" where
  "body_names = [''provider'', ''subject'', ''claim'', ''level'', ''pseudonym'', ''issued'', ''expires'', ''nonce'']"

definition body_of_json :: "json \<Rightarrow> string + attestation_body" where
  "body_of_json j = and_then (struct_fields body_names j) body_of_fields"

text \<open>\<open>#[serde(flatten)]\<close>: one object with the members of the body and the signature, read from objects only.\<close>

definition attestation_to_json :: "attestation \<Rightarrow> json" where
  "attestation_to_json a = struct_obj (body_members (at_body a) @ [(''sig'', Some (JStr (at_sig a)))])"

definition attestation_of_json :: "json \<Rightarrow> string + attestation" where
  "attestation_of_json j =
     (case j of
        JObj kvs \<Rightarrow>
          and_then (struct_fields (body_names @ [''sig'']) j) (\<lambda>f.
          and_then (body_of_fields f) (\<lambda>body.
          and_then (field f ''sig'' dec_str) (\<lambda>sig.
          Inr \<lparr>at_body = body, at_sig = sig\<rparr>)))
      | _ \<Rightarrow> Inl ''invalid type, expected struct Attestation'')"

definition body_ok :: "attestation_body \<Rightarrow> bool" where
  "body_ok b \<longleftrightarrow> length (ab_provider b) = 32 \<and> length (ab_subject b) = 32 \<and> length (ab_pseudonym b) = 32"

section \<open>Codecs\<close>

interpretation octets: json_codec "enc_list (enc_word :: byte \<Rightarrow> json)" "dec_list dec_word" "\<lambda>_. True" 1
  using list_codec [OF u8.json_codec_axioms] by simp

interpretation bytes32: json_codec "enc_list (enc_word :: byte \<Rightarrow> json)" dec_bytes32 "\<lambda>bs. length bs = 32" 1
  by unfold_locales (simp_all add: dec_bytes32_def octets.dec_enc octets.fits result_simps)

interpretation cl: json_codec claim_to_json claim_of_json "\<lambda>_. True" 2
proof
  fix c
  show "claim_of_json (claim_to_json c) = Inr c"
    by (cases c) (simp_all add: claim_to_json_def claim_of_json_def dec_custom_def dec_str_def result_simps)
  show "json_fits 2 (claim_to_json c)"
    by (cases c) (simp_all add: claim_to_json_def numeral_2_eq_2)
qed

lemma body_fields:
  assumes "body_ok b" "\<And>k m. (k, Some m) \<in> set (body_members b) \<Longrightarrow> f k = Some m"
  shows "body_of_fields f = Inr b"
proof -
  have "f ''provider'' = Some (enc_list enc_word (ab_provider b))" "f ''subject'' = Some (enc_list enc_word (ab_subject b))"
    "f ''claim'' = Some (claim_to_json (ab_claim b))" "f ''level'' = Some (enc_word (ab_level b))"
    "f ''pseudonym'' = Some (enc_list enc_word (ab_pseudonym b))" "f ''issued'' = Some (enc_word (ab_issued b))"
    "f ''expires'' = Some (enc_word (ab_expires b))" "f ''nonce'' = Some (enc_word (ab_nonce b))"
    by (rule assms(2); simp add: body_members_def)+
  with assms(1) show ?thesis
    by (simp add: body_of_fields_def body_ok_def field_simps bytes32.dec_enc cl.dec_enc u8.dec_enc u64.dec_enc
        result_simps)
qed

lemma body_members_fit: "m \<in> set (map snd (body_members b)) \<Longrightarrow> pred_option (json_fits 2) m"
  by (auto simp: body_members_def octets.fits cl.fits u8.fits u64.fits)

interpretation body: json_codec body_to_json body_of_json body_ok 3
proof
  fix b
  assume ok: "body_ok b"
  have d: "distinct (map fst (body_members b))" by (simp add: body_members_def)
  from body_fields [OF ok struct_obj_member [OF d]]
  show "body_of_json (body_to_json b) = Inr b"
    by (simp add: body_of_json_def body_to_json_def struct_fields_obj [OF d] and_then_def)
  show "json_fits 3 (body_to_json b)"
    using body_members_fit [of _ b] by (auto simp: body_to_json_def struct_obj_fits [of 2, simplified])
qed

interpretation att: json_codec attestation_to_json attestation_of_json "\<lambda>a. body_ok (at_body a)" 3
proof
  fix a :: attestation
  assume ok: "body_ok (at_body a)"
  let ?ms = "body_members (at_body a) @ [(''sig'', Some (JStr (at_sig a)))]"
  have d: "distinct (map fst ?ms)" by (simp add: body_members_def)
  have "Option.bind (map_of ?ms k) (\<lambda>m. m) = Some m" if "(k, Some m) \<in> set (body_members (at_body a))" for k m
    by (rule struct_obj_member [OF d]) (use that in simp)
  from body_fields [OF ok this]
  have "and_then (struct_fields (body_names @ [''sig'']) (struct_obj ?ms)) (\<lambda>f.
      and_then (body_of_fields f) (\<lambda>body. and_then (field f ''sig'' dec_str) (\<lambda>sig.
      Inr \<lparr>at_body = body, at_sig = sig\<rparr>))) = Inr a"
    unfolding struct_fields_obj [OF d] by (simp add: body_members_def field_simps str.dec_enc result_simps)
  then show "attestation_of_json (attestation_to_json a) = Inr a"
    by (simp add: attestation_of_json_def attestation_to_json_def struct_obj_def)
  show "json_fits 3 (attestation_to_json a)"
    using body_members_fit [of _ "at_body a"] by (auto simp: attestation_to_json_def struct_obj_fits [of 2, simplified])
qed

section \<open>What a signature is on\<close>

lemma into_bytes_inj: "into_bytes s = into_bytes t \<longleftrightarrow> s = t"
proof -
  have "inj (\<lambda>c. of_nat (of_char c) :: byte)"
  proof (rule injI)
    fix c d :: char
    assume eq: "(of_nat (of_char c) :: byte) = of_nat (of_char d)"
    have "unat (of_nat (of_char c) :: byte) = (of_char c :: nat)" for c :: char
      by (simp add: unat_of_nat) 
    with eq have "(of_char c :: nat) = of_char d" by metis
    then show "c = d" by simp
  qed
  then show ?thesis by (simp add: into_bytes_def inj_map_eq_map)
qed

definition signing_bytes :: "text_lib \<Rightarrow> attestation_body \<Rightarrow> bytes" where
  "signing_bytes T b = into_bytes (tx_print T (body_to_json b))"

definition signs_text :: "text_lib \<Rightarrow> 'i sign_lib \<Rightarrow> 'i sign_lib" where
  "signs_text T G = G\<lparr>sl_body_bytes := signing_bytes T\<rparr>"

definition attestation_print :: "text_lib \<Rightarrow> attestation \<Rightarrow> string" where
  "attestation_print T a = tx_print T (attestation_to_json a)"

definition attestation_parse :: "text_lib \<Rightarrow> string \<Rightarrow> string + attestation" where
  "attestation_parse T s = and_then (tx_parse T s) attestation_of_json"

lemma signing_bytes_inj:
  "json_text_law T \<Longrightarrow> body_ok a \<Longrightarrow> body_ok b \<Longrightarrow> signing_bytes T a = signing_bytes T b \<longleftrightarrow> a = b"
  by (simp add: signing_bytes_def into_bytes_inj text_print_inj body.fits body.enc_inj)

text \<open>
  Property C32. An attestation can be handed on as text and cannot be altered on the way: what a provider
  issues is parsed from its JSON as the same attestation, which verifies exactly until it expires (zero
  meaning never); and as long as the provider's signature on its text verifies no other text, every
  attestation that carries this signature under this provider and verifies has the very same subject,
  claim, level, pseudonym, times and nonce, because the canonical text determines the body.
\<close>

theorem attestation_text_binds:
  assumes "json_text_law T" "hex_lib_ok H" "signature_law G"
    and "a = attestation_issue H (signs_text T G) provider subject cl level pseudonym issued expires nonce"
    and "length (sl_node_id G provider) = 32" "length subject = 32" "length pseudonym = 32"
    and "\<forall>m. is_ok (sl_verify G (sl_node_id G provider) m (sl_sign G provider (signing_bytes T (at_body a)))) \<longrightarrow>
      m = signing_bytes T (at_body a)"
  shows "attestation_parse T (attestation_print T a) = Inr a \<and>
    (attestation_verify H (signs_text T G) now a = Inr () \<longleftrightarrow> expires = 0 \<or> now < expires) \<and>
    (\<forall>b. body_ok (at_body b) \<and> ab_provider (at_body b) = sl_node_id G provider \<and> at_sig b = at_sig a \<and>
       is_ok (attestation_verify H (signs_text T G) now b) \<longrightarrow> b = a)"
proof -
  have ok: "body_ok (at_body a)"
    using assms(5-7) by (simp add: assms(4) attestation_issue_def signs_text_def body_ok_def Let_def)
  have law: "signature_law (signs_text T G)"
    using assms(3) by (simp add: signature_law_def signs_text_def)
  have sig: "hx_decode H (at_sig a) = Some (sl_sign G provider (signing_bytes T (at_body a)))"
    using assms(2) by (simp add: assms(4) attestation_issue_def signs_text_def Let_def hex_codec.dec_enc)
  have "b = a"
    if b: "body_ok (at_body b)" "ab_provider (at_body b) = sl_node_id G provider" "at_sig b = at_sig a"
      "is_ok (attestation_verify H (signs_text T G) now b)" for b
  proof -
    have "is_ok (sl_verify G (sl_node_id G provider) (signing_bytes T (at_body b))
        (sl_sign G provider (signing_bytes T (at_body a))))"
      using b(2-4) sig by (auto simp: attestation_verify_def signs_text_def and_then_def ok_or_def split: if_splits)
    with assms(8) have "signing_bytes T (at_body b) = signing_bytes T (at_body a)" by blast
    then have "at_body b = at_body a" using signing_bytes_inj [OF assms(1) b(1) ok] by simp
    with b(3) show ?thesis by (simp add: attestation.equality)
  qed
  moreover have "attestation_parse T (attestation_print T a) = Inr a"
    using assms(1) ok by (simp add: attestation_parse_def attestation_print_def json_text_law_def att.fits att.dec_enc
        and_then_def)
  ultimately show ?thesis
    using attestation_life [OF assms(2) law assms(4), of now] by blast
qed

definition demo_binding :: "bytes \<Rightarrow> byte sign_lib" where
  "demo_binding m0 = \<lparr>sl_node_id = demo_node, sl_sign = (\<lambda>i m. replicate 64 (if m = m0 then i else 0)),
     sl_verify = (\<lambda>n m sig. if sig = replicate 64 (if m = m0 then hd n else 0) then Inr () else Inl ''bad signature''),
     sl_body_bytes = (\<lambda>b. [])\<rparr>"

definition demo_body :: attestation_body where
  "demo_body = \<lparr>ab_provider = demo_node 1, ab_subject = demo_node 9, ab_claim = CustomClaim ''k'' ''v'',
     ab_level = LEVEL_STRONG_EID, ab_pseudonym = demo_node 5, ab_issued = 0, ab_expires = 1000, ab_nonce = 3\<rparr>"

theorem attestation_text_binds_witness:
  "\<exists>a. at_body a = demo_body \<and> attestation_parse own_text (attestation_print own_text a) = Inr a \<and>
     attestation_verify own_hex (signs_text own_text (demo_binding (signing_bytes own_text demo_body))) 999 a = Inr ()"
proof -
  let ?m = "signing_bytes own_text demo_body"
  let ?a = "attestation_issue own_hex (signs_text own_text (demo_binding ?m)) 1 (demo_node 9) (CustomClaim ''k'' ''v'')
    LEVEL_STRONG_EID (demo_node 5) 0 1000 3"
  have law: "signature_law (demo_binding ?m)"
    by (simp add: signature_law_def demo_binding_def demo_node_def)
  have body: "at_body ?a = demo_body"
    by (simp add: attestation_issue_def signs_text_def demo_binding_def demo_body_def Let_def)
  have size: "length (sl_node_id (demo_binding ?m) 1) = 32" "length (demo_node 9) = 32" "length (demo_node 5) = 32"
    by (simp_all add: demo_binding_def demo_node_def)
  have only: "\<forall>m. is_ok (sl_verify (demo_binding ?m) (sl_node_id (demo_binding ?m) 1) m
      (sl_sign (demo_binding ?m) 1 (signing_bytes own_text (at_body ?a)))) \<longrightarrow> m = signing_bytes own_text (at_body ?a)"
    unfolding body by (simp add: demo_binding_def demo_node_def)
  show ?thesis
    using attestation_text_binds [OF own_text_law own_hex_codec law refl size only, of 999] body
    by (intro exI [of _ ?a]) simp
qed

end
