(* ===== verification/Turnkey.thy ===== *)
theory Turnkey
  imports History
begin

text \<open>
  The one-call entry points of the library: \<open>serve\<close> of \<open>authkv.rs\<close>, which hosts a vault over the mesh, and
  the \<open>open_vault\<close> functions of \<open>lib.rs\<close>, which open one under the device key of the data directory.
\<close>

section \<open>Hosting a vault\<close>

text \<open>
  \<open>ce_rs::serve\<close> delivers the requests on the topic of the service, one after the other, until it is shut
  down or fails; each comes at its time. A failure to advertise the service is logged and ignored.
\<close>

type_synonym 'w delivery = "u64 \<times> string \<times> 'w"

definition serve_one :: "('i, 's, 'w) kv_env \<Rightarrow> 'w delivery \<Rightarrow> authkv \<Rightarrow> 'w \<times> authkv" where
  "serve_one E d a = (case d of (now, sender, payload) \<Rightarrow> handle_request (E\<lparr>ke_now := now\<rparr>) sender payload a)"

fun serve_all :: "('i, 's, 'w) kv_env \<Rightarrow> 'w delivery list \<Rightarrow> authkv \<Rightarrow> 'w list \<times> authkv" where
  "serve_all E [] a = ([], a)"
| "serve_all E (d # ds) a =
     (case serve_one E d a of (reply, a) \<Rightarrow> (case serve_all E ds a of (replies, a) \<Rightarrow> (reply # replies, a)))"

record 'w served =
  sv_advertised :: "string option"
  sv_subscribed :: string
  sv_replies :: "'w list"
  sv_result :: "string + unit"

definition kv_serve :: "('i, 's, 'w) kv_env \<Rightarrow> string + unit \<Rightarrow> 'w delivery list \<Rightarrow> string + unit \<Rightarrow> authkv \<Rightarrow>
    'w served \<times> authkv" where
  "kv_serve E advertise ds result a =
     (let advertised = (case advertise of Inl e \<Rightarrow> None | Inr _ \<Rightarrow> Some (kv_service (ak_ns a))) in
      case serve_all E ds a of (replies, a') \<Rightarrow>
        (\<lparr>sv_advertised = advertised, sv_subscribed = kv_topic (ak_ns a), sv_replies = replies, sv_result = result\<rparr>, a'))"

text \<open>The write that the gate admits of a delivery, if it asks for one.\<close>

definition admits :: "('i, 's, 'w) kv_env \<Rightarrow> authkv \<Rightarrow> string \<Rightarrow> string \<Rightarrow> bool" where
  "admits E a sender caps \<longleftrightarrow> sender = ak_self_hex a \<or> \<not> ak_enforce_write a \<or> kv_holds E a sender caps ABILITY_KV_WRITE"

definition admitted_ops :: "('i, 's, 'w) kv_env \<Rightarrow> authkv \<Rightarrow> 'w delivery \<Rightarrow> kv_op list" where
  "admitted_ops E a d =
     (case d of (now, sender, payload) \<Rightarrow>
        case w_parse (ke_wire E) payload of
          Inl e \<Rightarrow> []
        | Inr v \<Rightarrow>
            (case kv_req_of_json v of
               Some (ReqPut key value caps) \<Rightarrow> if admits (E\<lparr>ke_now := now\<rparr>) a sender caps then [KvPut key value] else []
             | Some (ReqDel key caps) \<Rightarrow> if admits (E\<lparr>ke_now := now\<rparr>) a sender caps then [KvDel key] else []
             | _ \<Rightarrow> []))"

text \<open>What a request cannot change: who the server is and how it judges.\<close>

definition gate_kept :: "authkv \<Rightarrow> authkv \<Rightarrow> bool" where
  "gate_kept a b \<longleftrightarrow> ak_ns b = ak_ns a \<and> ak_self_hex b = ak_self_hex a \<and> ak_self_id b = ak_self_id a \<and> ak_iam b = ak_iam a \<and>
     ak_enforce_write b = ak_enforce_write a \<and> ak_enforce_read b = ak_enforce_read a \<and> ak_revoked b = ak_revoked a"

lemma gate_kept_refl [simp]: "gate_kept a a"
  by (simp add: gate_kept_def)

lemma gate_kept_trans: "gate_kept a b \<Longrightarrow> gate_kept b c \<Longrightarrow> gate_kept a c"
  by (simp add: gate_kept_def)

lemma gate_kept_audit [simp]: "gate_kept a (kv_audit E sender act target allowed a)"
  "gate_kept a (a\<lparr>ak_map := m\<rparr>)" "gate_kept a (kv_audit E sender act target allowed a\<lparr>ak_map := m\<rparr>)"
  by (simp_all add: gate_kept_def kv_audit_def)

lemma admits_same: "gate_kept a b \<Longrightarrow> admits E b sender caps = admits E a sender caps"
  by (simp add: admits_def kv_holds_def gate_kept_def)

lemma admitted_same:
  assumes "gate_kept a b"
  shows "admitted_ops E b d = admitted_ops E a d"
  by (simp add: admitted_ops_def admits_same [OF assms] split: prod.splits sum.splits option.splits kv_req.splits)

lemma kv_write_gate: "gate_kept a (snd (kv_write E sender act key op failed a))"
  by (simp add: kv_write_def Let_def split: prod.splits sum.splits)

lemma kv_handle_gate: "gate_kept a (snd (kv_handle E sender req a))"
  by (cases req) (auto simp: Let_def kv_write_gate split: sum.splits)

lemma serve_one_gate: "gate_kept a (snd (serve_one E d a))"
  by (cases d)
    (simp add: serve_one_def handle_request_def case_prod_beta kv_handle_gate split: sum.splits option.splits)

text \<open>A delivery leaves the map, or applies the one write that it is admitted with.\<close>

lemma kv_write_applies:
  assumes "propose_law (ke_propose E)"
  shows "ak_map (snd (kv_write E sender act key op failed a)) \<in> {ak_map a, kv_apply op (ak_map a)}"
  using kv_write_map [OF assms, where sender = sender and act = act and key = key and op = op and failed = failed and a = a] by (cases "kv_write E sender act key op failed a") auto

lemma kv_handle_applies:
  assumes "propose_law (ke_propose E)"
  shows "\<exists>ops. subseq ops (case req of
      ReqPut key value caps \<Rightarrow> if admits E a sender caps then [KvPut key value] else []
    | ReqDel key caps \<Rightarrow> if admits E a sender caps then [KvDel key] else []
    | _ \<Rightarrow> []) \<and> ak_map (snd (kv_handle E sender req a)) = fold kv_apply ops (ak_map a)"
proof (cases req)
  case (ReqPut key v caps)
  show ?thesis
  proof (cases "write_allowed E a sender caps")
    case (Inl e)
    with ReqPut show ?thesis by (intro exI [of _ "[]"]) simp
  next
    case (Inr u)
    then have "admits E a sender caps" using write_allowed_Inr by (metis admits_def)
    with ReqPut Inr kv_write_applies [OF assms, of sender KvWrite key "KvPut key v" "''put failed: ''" a] show ?thesis
      by (auto intro: exI [of _ "[]"] exI [of _ "[KvPut key v]"])
  qed
next
  case (ReqDel key caps)
  show ?thesis
  proof (cases "write_allowed E a sender caps")
    case (Inl e)
    with ReqDel show ?thesis by (intro exI [of _ "[]"]) simp
  next
    case (Inr u)
    then have "admits E a sender caps" using write_allowed_Inr by (metis admits_def)
    with ReqDel Inr kv_write_applies [OF assms, of sender KvDelete key "KvDel key" "''del failed: ''" a] show ?thesis
      by (auto intro: exI [of _ "[]"] exI [of _ "[KvDel key]"])
  qed
qed (auto simp: Let_def split: sum.splits intro: exI [of _ "[]"])

lemma serve_one_applies:
  assumes "propose_law (ke_propose E)"
  shows "\<exists>ops. subseq ops (admitted_ops E a d) \<and> ak_map (snd (serve_one E d a)) = fold kv_apply ops (ak_map a)"
proof -
  obtain now sender payload where d: "d = (now, sender, payload)" by (cases d)
  let ?E = "E\<lparr>ke_now := now\<rparr>"
  show ?thesis
  proof (cases "\<exists>v req. w_parse (ke_wire E) payload = Inr v \<and> kv_req_of_json v = Some req")
    case True
    then obtain v req where req: "w_parse (ke_wire E) payload = Inr v" "kv_req_of_json v = Some req" by blast
    with d have "snd (serve_one E d a) = snd (kv_handle ?E sender req a)"
      by (simp add: serve_one_def handle_request_def split: prod.splits)
    moreover have "admitted_ops E a d = (case req of
        ReqPut key value caps \<Rightarrow> if admits ?E a sender caps then [KvPut key value] else []
      | ReqDel key caps \<Rightarrow> if admits ?E a sender caps then [KvDel key] else [] | _ \<Rightarrow> [])"
      using d req by (simp add: admitted_ops_def)
    ultimately show ?thesis
      using kv_handle_applies [where E = ?E and sender = sender and req = req and a = a] assms by simp
  next
    case False
    then have "snd (serve_one E d a) = a"
      by (auto simp: d serve_one_def handle_request_def split: sum.splits option.splits)
    then show ?thesis by (intro exI [of _ "[]"]) simp
  qed
qed



section \<open>Opening a vault without a command line\<close>

text \<open>
  \<open>load_default_device_key\<close> goes through the steps of the command line's \<open>load_or_create_device_key\<close> at the
  default data directory, with the errors as they are; \<open>dir\<close> is what \<open>iam_dir(None)\<close> returns.
\<close>

definition create_default_key :: "'k key_format \<Rightarrow> write_faults \<Rightarrow> string + 'k \<Rightarrow> path \<Rightarrow> fs \<Rightarrow>
    (string + 'k) outcome \<times> fs" where
  "create_default_key J F generated p fs =
     (case generated of
        Inl e \<Rightarrow> (Returned (Inl e), fs)
      | Inr k \<Rightarrow>
          (case kf_to_json J k of
             Inl e \<Rightarrow> (Returned (Inl e), fs)
           | Inr json \<Rightarrow>
               (case write_in_place F p json fs of
                  (Stopped, fs') \<Rightarrow> (Stopped, fs')
                | (Returned (Inl e), fs') \<Rightarrow> (Returned (Inl e), fs')
                | (Returned (Inr _), fs') \<Rightarrow> (Returned (Inr k), fs'))))"

definition load_default_device_key :: "'k key_format \<Rightarrow> (iam_error \<Rightarrow> string) \<Rightarrow> iam_error + string \<Rightarrow> read_faults \<Rightarrow>
    write_faults \<Rightarrow> string + 'k \<Rightarrow> fs \<Rightarrow> (string + 'k) outcome \<times> fs" where
  "load_default_device_key J msg dir R F generated fs =
     (case dir of
        Inl e \<Rightarrow> (Returned (Inl (msg e)), fs)
      | Inr d \<Rightarrow>
          (case wf_mkdir F of
             IoFails e \<Rightarrow> (Returned (Inl e), fs)
           | IoStops \<Rightarrow> (Stopped, fs)
           | IoOk \<Rightarrow>
               (let p = key_file d;
                    path_exists = rf_stat R = None \<and> fs (path_key p) \<noteq> None in
                if path_exists then
                  (case rf_read R of
                     Some e \<Rightarrow> (Returned (Inl e), fs)
                   | None \<Rightarrow>
                       let raw = unwrap_or (fs (path_key p)) [] in
                       if trim raw \<noteq> [] then (Returned (kf_from_json J raw), fs)
                       else create_default_key J F generated p fs)
                else create_default_key J F generated p fs)))"

definition then_open :: "(string + 'k) outcome \<times> fs \<Rightarrow> ('k \<Rightarrow> 'v) \<Rightarrow> (string + 'v) outcome \<times> fs" where
  "then_open loaded vault =
     (case loaded of
        (Returned (Inr k), fs') \<Rightarrow> (Returned (Inr (vault k)), fs')
      | (Returned (Inl e), fs') \<Rightarrow> (Returned (Inl e), fs')
      | (Stopped, fs') \<Rightarrow> (Stopped, fs'))"

definition open_vault_default_ns :: "('j, 'p) key_pair \<Rightarrow> string \<Rightarrow> string \<Rightarrow> string option \<Rightarrow> string option \<Rightarrow>
    string option \<Rightarrow> 'net \<Rightarrow> mesh_client \<times> 'net mesh_state \<times> ('j, 'p) vault" where
  "open_vault_default_ns device ns = open_vault_with device ns"

text \<open>The same files, and the same key or failure, whatever the text of the failure.\<close>

definition alike :: "(string + 'k) outcome \<times> fs \<Rightarrow> (string + 'k) outcome \<times> fs \<Rightarrow> bool" where
  "alike x y \<longleftrightarrow> snd y = snd x \<and> (fst x = Stopped \<longleftrightarrow> fst y = Stopped) \<and>
     (\<forall>k. fst x = Returned (Inr k) \<longleftrightarrow> fst y = Returned (Inr k))"

lemma created_alike: "alike (create_default_key J F generated p fs) (create_device_key J F generated p fs)"
  by (auto simp: alike_def create_default_key_def create_device_key_def write_in_place_def and_then_def map_err_def
      split: sum.splits io.splits)

lemma loaded_alike:
  "alike (load_default_device_key J msg dir R F generated fs) (load_or_create_device_key J dir R F generated fs)"
proof (cases dir)
  case (Inl e)
  then show ?thesis by (simp add: alike_def load_default_device_key_def load_or_create_device_key_def)
next
  case (Inr d)
  show ?thesis
  proof (cases "wf_mkdir F")
    case IoOk
    let ?p = "key_file d"
    show ?thesis
    proof (cases "rf_stat R = None \<and> fs (path_key ?p) \<noteq> None \<and> (rf_read R = None \<longrightarrow> trim (the (fs (path_key ?p))) \<noteq> [])")
      case True
      then obtain raw where "fs (path_key ?p) = Some raw" by blast
      with True Inr IoOk show ?thesis
        by (cases "rf_read R"; cases "kf_from_json J raw")
          (auto simp: alike_def load_default_device_key_def load_or_create_device_key_def Let_def unwrap_or_def map_err_def)
    next
      case False
      then have "load_default_device_key J msg dir R F generated fs = create_default_key J F generated ?p fs"
          "load_or_create_device_key J dir R F generated fs = create_device_key J F generated ?p fs"
        using Inr IoOk
        by (auto simp: load_default_device_key_def load_or_create_device_key_def Let_def unwrap_or_def
            split: option.splits if_splits)
      then show ?thesis using created_alike by metis
    qed
  qed (use Inr in \<open>auto simp: alike_def load_default_device_key_def load_or_create_device_key_def\<close>)
qed

text \<open>
  The library and the command line are one device: from any files and under any faults
  \<open>load_default_device_key\<close> and \<open>load_or_create_device_key\<close> succeed with the same key, fail or are cut off
  together, and leave the same files; and once the library has opened a vault, a later secret command that
  can read the directory acts as the same device, on the vault of the same namespace unless another is
  asked for.
\<close>

lemma library_shares_identity:
  assumes "key_law J"
    and "then_open (load_default_device_key J msg dir R F generated fs)
      (\<lambda>k. open_vault_default k url token env1 env2 net) = (Returned (Inr (client, st, v)), fs1)"
    and "rf_stat R = None" "rf_stat R' = None" "rf_read R' = None" "wf_mkdir F' = IoOk"
  shows "alike (load_default_device_key J msg dir R0 F0 generated0 fs0) (load_or_create_device_key J dir R0 F0 generated0 fs0) \<and>
    load_or_create_device_key J dir R F generated fs = (Returned (Inr (va_device v)), fs1) \<and>
    load_or_create_device_key J dir R' F' generated' fs1 = (Returned (Inr (va_device v)), fs1) \<and>
    va_ns (snd (snd (open_vault (va_device v) None node_flag node token' env3 env4 net'))) = va_ns v"
proof -
  obtain k where k: "load_default_device_key J msg dir R F generated fs = (Returned (Inr k), fs1)"
    and v: "open_vault_default k url token env1 env2 net = (client, st, v)"
    using assms(2) by (auto simp: then_open_def split: prod.splits outcome.splits sum.splits)
  have dev: "va_device v = k" "va_ns v = dk_id k"
    using v by (auto simp: open_vault_default_def open_vault_with_def split: prod.splits)
  have "alike (load_default_device_key J msg dir R F generated fs) (load_or_create_device_key J dir R F generated fs)"
    by (rule loaded_alike)
  with k have first: "load_or_create_device_key J dir R F generated fs = (Returned (Inr k), fs1)"
    unfolding alike_def by (metis fst_conv snd_conv prod.collapse)
  moreover have "load_or_create_device_key J dir R' F' generated' fs1 = (Returned (Inr k), fs1)"
    by (rule device_key_stable [OF assms(1) first assms(3-6)])
  ultimately show ?thesis
    by (simp add: loaded_alike dev open_vault_def unwrap_or_def Let_def split: prod.splits)
qed

section \<open>A vault hosted and opened\<close>

definition demo_deliveries :: "json delivery list" where
  "demo_deliveries =
     [(5, hx_encode own_hex (demo_node 2), json_obj [(''op'', JStr ''put''), (''key'', JStr ''s.new''), (''value'', JNull),
        (''caps'', JStr ''#'')]),
      (6, hx_encode own_hex (demo_node 3), json_obj [(''op'', JStr ''del''), (''key'', JStr ''s.key'')])]"

lemma demo_serve_run:
  "ak_map (snd (serve_all demo_kv_env demo_deliveries demo_kv)) = [(''s.key'', JStr ''x''), (''s.new'', JNull)]"
  by code_simp


lemma library_shares_identity_witness:
  "\<exists>fs. load_or_create_device_key (vl_keys demo_secrets) (Inr ''iam'') no_read_faults no_faults (Inl ''none'') fs =
     (Returned (Inr (demo_device_key ''o'' 7)), fs)"
proof -
  let ?J = "vl_keys demo_secrets" and ?fs = "(\<lambda>_. None)((''iam'', ''secrets-device.json'') := Some ''k'') :: fs"
  have blank: "trim ''k'' \<noteq> []" by code_simp
  have law: "key_law ?J"
    using blank by (simp add: key_law_def demo_secrets_def)
  have run: "then_open (load_default_device_key ?J (\<lambda>_. []) (Inr ''iam'') no_read_faults no_faults
        (Inr (demo_device_key ''o'' 7)) (\<lambda>_. None))
      (\<lambda>k. open_vault_default k ''http://localhost:1'' None None None ()) =
      (Returned (Inr (fst (open_vault_default (demo_device_key ''o'' 7) ''http://localhost:1'' None None None ()),
        fst (snd (open_vault_default (demo_device_key ''o'' 7) ''http://localhost:1'' None None None ())),
        snd (snd (open_vault_default (demo_device_key ''o'' 7) ''http://localhost:1'' None None None ())))), ?fs)"
    by (simp add: then_open_def load_default_device_key_def create_default_key_def write_in_place_def no_faults_def
        no_read_faults_def key_file_def path_join_def path_key_def demo_secrets_def unwrap_or_def)
  have "va_device (snd (snd (open_vault_default (demo_device_key ''o'' 7) ''http://localhost:1'' None None None ()))) =
      demo_device_key ''o'' 7"
    by (simp add: open_vault_default_def open_vault_with_def split: prod.splits)
  moreover have ok: "rf_stat no_read_faults = None" "rf_read no_read_faults = None" "wf_mkdir no_faults = IoOk"
    by (simp_all add: no_read_faults_def no_faults_def)
  ultimately show ?thesis
    using library_shares_identity [OF law run ok(1,1,2,3), THEN conjunct2, THEN conjunct2, THEN conjunct1] by metis
qed

end
