(* ===== verification/Spec2Isabelle.thy ===== *)
theory Spec2Isabelle
  imports CommandLine Resources SignedText Turnkey
begin

text \<open>
  Identity and access management for the CE network, after the two crates of this repository:
  \<open>crates/ce-iam\<close> (policies, capability grants, roles, the durable stores, revocation, the authenticated
  key/value service, the node that vouches for browsers, the command line) and \<open>crates/ce-iam-core\<close>
  (the secrets vault, the device registry, the bridge from devices to capabilities, the entry points
  of \<open>lib.rs\<close>).

  The program. An operator writes policies (\<open>policy.rs\<close>); \<open>Iam\<close> (\<open>grant.rs\<close>) compiles a policy into
  capabilities of the external crate \<open>ce_cap\<close>, one per scope, attenuates and reissues them, and
  verifies a presented chain against the accepted roots and the revocation set. Roles and their
  attachments live in a catalog (\<open>catalog.rs\<close>), a deterministic state machine over an operation log
  that a writer makes durable (\<open>store.rs\<close>). Tokens held are in a wallet (\<open>wallet.rs\<close>), accepted roots
  with their windows in \<open>roots.rs\<close>, revocations in \<open>revocation.rs\<close>. The vault (\<open>secrets.rs\<close>) seals
  secrets under one master over a key/value store; its store is the mesh client \<open>kv_store.rs\<close>, whose
  server is \<open>authkv.rs\<close>, which gates each request with \<open>Iam\<close> and audits it (\<open>audit.rs\<close>). Operator
  devices are registered in \<open>device.rs\<close>, and \<open>bridge.rs\<close> turns a registered operator into a capability
  holder. Third parties sign statements about an identity (\<open>attestation.rs\<close>), which a policy of weighted
  providers scores (\<open>trust.rs\<close>). A node with \<open>nodeauth.rs\<close> answers login requests of browsers on the mesh
  with the capabilities it vouches for. The command line (\<open>main.rs\<close>) composes all of these.

  The theories, in the order they import each other.
  \<^item> \<open>Prelude\<close>: machine integers with the saturating and checked operations the code uses, trimming
    and prefixes of strings as bytes, \<open>Result\<close> as a sum with \<open>and_then\<close> for the question mark operator,
    fallible stateful operations (\<open>act\<close>), sorted deduplicated lists.
  \<^item> \<open>BTree\<close>: \<open>BTreeMap\<close> as strictly sorted association lists, with the interface \<open>ordered_map\<close>.
  \<^item> \<open>External\<close>: the code outside the repository as parameters (\<open>hex\<close>, \<open>ce_cap\<close>, \<open>ce_identity\<close>) with
    their documented laws, and JSON values as \<open>serde_json\<close> has them.
  \<^item> \<open>Errors\<close>, \<open>Principals\<close>, \<open>Policy\<close>, \<open>Grants\<close>: \<open>error.rs\<close>, \<open>principal.rs\<close>, \<open>policy.rs\<close> and every operation of
    \<open>grant.rs\<close>. \<open>HexText\<close> is the hex codec of \<open>secrets.rs\<close>, \<open>Demo\<close> a concrete instance of the parameters
    that the witnesses evaluate.
  \<^item> \<open>Expansion\<close>, \<open>Scopes\<close>, \<open>Delegation\<close>, \<open>Resources\<close>: that glob expansion is exact and compilation
    correct; that minting covers exactly what the policy allows; that a chain the program builds never
    amplifies, verification is equivalent to the documented conditions, and a verified action was
    minted; round trips of resources and principals.
  \<^item> \<open>Catalog\<close>, \<open>Effective\<close>, \<open>Store\<close>, \<open>CatalogStore\<close>: the catalog as an instance of the interface
    \<open>state_machine\<close> with its invariant and the convergence of replays; effective grants against a
    reference; a file system with faults and crashes, atomic writes as the interface \<open>atomic_cell\<close>;
    and the durable catalog: memory and disk agree after success, after an error and after a crash.
  \<^item> \<open>Wallet\<close>, \<open>Roots\<close>, \<open>Revocation\<close>, \<open>AuditLog\<close>: the smaller stores with their limits, windows and
    policies. \<open>Revocation\<close> has \<open>resolve_revocation\<close> of \<open>main.rs\<close>.
  \<^item> \<open>AuthKv\<close>, \<open>KvStore\<close>, \<open>MeshKv\<close>: the server with its gates; the vault's store as the interfaces
    \<open>kv_store\<close> and \<open>kv_total\<close>, provided by \<open>MemStore\<close>; the mesh client, composed with the server over a
    network that loses requests and replies, which provides \<open>kv_store\<close>.
  \<^item> \<open>Device\<close>: the registry, its saves with faults, and two threads interleaving.
  \<^item> \<open>Vault\<close>, \<open>VaultDemo\<close>, \<open>VaultSecrets\<close>, \<open>VaultGrants\<close>: the vault over any store: master key,
    pairing, enrolment tokens, secrets, grants, login. Its lemmas are proved once in the context of
    the store's interface and used on both stores.
  \<^item> \<open>Attestation\<close>: attestations over their signed bytes, and the trust score against a reference sum over
    the providers, with 64-bit floats and signatures as parameters.
  \<^item> \<open>Calendar\<close>: the ISO clock of \<open>secrets.rs\<close>: \<open>civil_from_days\<close> is the Gregorian calendar for every day,
    and the printed instants are distinct.
  \<^item> \<open>Bridge\<close>, \<open>NodeAuth\<close>: the grants the bridge mints and what they verify for; the responder as a
    state machine over events (connect, disconnect, message, shutdown), with the effects it has. The
    lemmas on grants of a root that both share are in \<open>Bridge\<close>.
  \<^item> \<open>Commands\<close>, \<open>SecretCommands\<close>: the commands of \<open>main.rs\<close> as functions from the file system to an output
    and a file system; what a grant printed by one invocation verifies for in another; the device key
    file, which \<open>main.rs\<close> and \<open>lib.rs\<close> both create, the generated secret material, the secret commands.
  \<^item> \<open>Program\<close>, \<open>History\<close>, \<open>RoleGrants\<close>: the whole command line. \<open>main_cmd\<close> is the dispatch of \<open>main\<close>, from
    a command and the files to an output and the files; \<open>Program\<close> shows which file each command may change
    and what a successful change does to the abstract state (\<open>role_state\<close>). An \<open>invocation\<close> is one run of
    the program with its faults; \<open>History\<close> carries invariants over every sequence of them, each an
    interpretation of \<open>run_invariant\<close>: stores stay readable and within their limits, there is an admin, the
    device key is the first one made; and it shows that the roles on disk follow an abstract machine that an
    interrupted command may step or not. \<open>RoleGrants\<close> follows a role from disk to a verdict.
  \<^item> \<open>Arguments\<close>, \<open>CommandLine\<close>: the argument structures and subcommands as \<open>clap\<close> delivers them, what a run
    takes from its process, and \<open>ce_iam\<close>, the whole run; which files under the data directory a run may
    change, what a failed one leaves, and what the exit status of \<open>verify\<close> means.
  \<^item> \<open>Serde\<close>, \<open>Documents\<close>, \<open>JsonText\<close>, \<open>StoreFormats\<close>, \<open>SignedText\<close>: the JSON that the serde attributes derive.
    \<open>Serde\<close> has the interface \<open>json_codec\<close> (decoding undoes encoding, within the limits of the parser) with
    codecs of lists, maps, options and words from those of their parts, objects with absent and defaulted
    fields, tagged enums. Its instances are the policy documents and scope keys (\<open>Documents\<close>), the five files of
    the data directory (\<open>StoreFormats\<close>, where \<open>install_laws\<close> and \<open>scope_key_law\<close> are proved for them, and a document
    is followed from \<open>policy new\<close> to \<open>role get\<close>), and the signed text of an attestation (\<open>SignedText\<close>). \<open>JsonText\<close>
    is a small printer and parser of JSON with its proof.
  \<^item> \<open>Turnkey\<close>: \<open>serve\<close> of \<open>authkv.rs\<close> over a whole run of deliveries, and the entry points of \<open>lib.rs\<close>, which
    are the same device as the command line.

  Correspondence. A struct is a record with its fields in order, an enum a datatype with its
  constructors, a function the definition of its name (prefixed where a name is taken: \<open>mesh_get\<close>,
  \<open>dev_claim\<close>, \<open>roots_add\<close>). A \<open>u64\<close> is a 64-bit word. Text is a list of bytes. Errors are values: \<open>Inl\<close>
  of the error type of the crate, and of a string where the code uses \<open>anyhow\<close> (the text is that of
  the code up to the interpolated details). A method on \<open>&mut self\<close> returns the new state, on the error
  paths too. The clock, the environment and randomness are arguments, one for each time the code
  reads them. A mutex is not modelled where its whole use is one critical section; in \<open>Device\<close>, where
  it is released in the middle, the sections are separate steps. A poisoned mutex needs a panic inside
  a section, and no section panics.

  Bounds. No definition of the program uses fuel; the parser of the example \<open>JsonText\<close> has as fuel the length of
  its input, which is enough because each call consumes a character. Loops are structural recursion, except the trimming of the audit
  ring, which has a measure and is shown to end as the \<open>while\<close> loop it is. System calls fail or stop the machine as a fault plan says; the contents
  of a file during a write that stops are an arbitrary prefix.

  Hypotheses. The laws of the external crates appear as named hypotheses: \<open>issue_law\<close>, \<open>narrowing_law\<close>
  and \<open>authorize_law\<close> of \<open>ce_cap\<close>, the interface \<open>hex_codec\<close>, \<open>json_text_law\<close> of \<open>serde_json\<close> (the text of a JSON
  value of at most 127 levels without floating-point numbers parses back to it, and is not blank), from
  which follow \<open>json_law\<close> and \<open>scope_key_law\<close>, which the components assume of their formats and keys,
  \<open>propose_law\<close> of the replicated log, \<open>wire_law\<close>, and \<open>codec_law\<close>, \<open>wrap_law\<close>, \<open>seal_law\<close>, \<open>sign_law\<close>,
  \<open>challenge_law\<close>, \<open>text_law\<close> of \<open>ce_secrets_rs\<close>, \<open>signature_law\<close> of the signatures of \<open>ce_identity\<close>, and
  \<open>key_law\<close> (the device key file parses back). Each has an instance that a witness evaluates. Those a
  history needs are gathered in \<open>install_laws\<close>, and \<open>on_install\<close> says that its invocations share a directory
  and the formats of the files.

  Where the theorems show that the code does not do what it says: the prefix gate of listings
  (\<open>list_prefix_bypass\<close>), the size limit enforced on reads only (\<open>store_accepts_unreadable\<close>), retirement
  at time zero (\<open>retire_at_zero_reopens\<close>), concurrent saves of the registry
  (\<open>racing_saves_lose_update\<close>), pairing under a claimed id (\<open>pairing_takes_over_device\<close>), a vouch for
  any account name without an owner (\<open>open_vouch_any_name\<close>), the expiry of an operator grant that wraps
  (\<open>operator_expiry_wraps\<close>), a device key replaced when its file cannot be examined
  (\<open>unexaminable_key_replaced\<close>), and a registry that opens empty then (\<open>unexaminable_registry_lost\<close>), a killed
  command that counts as a success (\<open>killed_command_succeeds\<close>).

  Not modelled: the parsing of the words of a command line (\<open>clap\<close>) and the layout of what is printed, of which a command's
  output value keeps the content; the process that \<open>secret run\<close> starts, of which the environment it is
  given is modelled; the sockets, timers and the asynchronous runtime, which appear as events and as
  answers; tests and examples; the text of a JSON value (indentation, escapes), which \<open>serde_json\<close> prints and
  parses; the JSON that the \<open>--json\<close> flags print.
\<close>

end
